(* ===== verification/Prelude.thy ===== *)
theory Prelude
  imports Main
begin

text \<open>
  Shared vocabulary of the development: the fact collections the component theories
  feed, the character and string operations every component of the command engine
  uses (ASCII lower-casing, comparison ignoring case, the whitespace test of the
  tokenizer), and the generic list facts the component proofs rest on.

  Strings are \<open>char list\<close>; a character is a byte, so the case folding below is the
  ASCII one: the 26 capital letters are mapped, every other byte is left alone.
\<close>

section \<open>Fact collections\<close>

named_theorems engine_defs \<open>unfolding equations of the command engine's definitions\<close>
named_theorems script_defs \<open>unfolding equations of the constants the scripts declare\<close>
named_theorems ci_simps \<open>rewrite rules for comparison ignoring case\<close>

section \<open>Tokens\<close>

type_synonym token = string

section \<open>ASCII case folding\<close>

definition upper_chars :: string where
  "upper_chars = ''ABCDEFGHIJKLMNOPQRSTUVWXYZ''"

definition lower_chars :: string where
  "lower_chars = ''abcdefghijklmnopqrstuvwxyz''"

definition to_lower :: "char \<Rightarrow> char" where
  "to_lower c = (case map_of (zip upper_chars lower_chars) c of Some d \<Rightarrow> d | None \<Rightarrow> c)"

definition lower :: "string \<Rightarrow> string" where
  "lower s = map to_lower s"

definition eq_ci :: "string \<Rightarrow> string \<Rightarrow> bool" where
  "eq_ci a b \<longleftrightarrow> lower a = lower b"

definition is_lower_str :: "string \<Rightarrow> bool" where
  "is_lower_str s \<longleftrightarrow> list_all (\<lambda>c. c \<notin> set upper_chars) s"

section \<open>Whitespace and the quote character\<close>

definition is_space :: "char \<Rightarrow> bool" where
  "is_space c \<longleftrightarrow> c = CHR '' '' \<or> c = CHR 0x09 \<or> c = CHR 0x0A \<or> c = CHR 0x0D"

definition dquote :: char where
  "dquote = CHR 0x22"

definition plain_char :: "char \<Rightarrow> bool" where
  "plain_char c \<longleftrightarrow> \<not> is_space c \<and> c \<noteq> dquote"

definition plain_word :: "string \<Rightarrow> bool" where
  "plain_word w \<longleftrightarrow> w \<noteq> [] \<and> list_all plain_char w"

section \<open>Facts about case folding\<close>

lemma to_lower_not_upper: "to_lower c \<notin> set upper_chars"
  by (simp add: to_lower_def upper_chars_def lower_chars_def)

lemma to_lower_fix: "c \<notin> set upper_chars \<Longrightarrow> to_lower c = c"
  by (simp add: to_lower_def upper_chars_def lower_chars_def)

lemma to_lower_idem [simp, ci_simps]: "to_lower (to_lower c) = to_lower c"
  by (rule to_lower_fix [OF to_lower_not_upper])

lemma lower_Nil [simp]: "lower [] = []"
  by (simp add: lower_def)

lemma lower_Cons [simp]: "lower (c # s) = to_lower c # lower s"
  by (simp add: lower_def)

lemma lower_append [simp]: "lower (a @ b) = lower a @ lower b"
  by (simp add: lower_def)

lemma length_lower [simp]: "length (lower s) = length s"
  by (simp add: lower_def)

lemma lower_idem [simp, ci_simps]: "lower (lower s) = lower s"
  by (induction s) simp_all

lemma lower_eq_Nil [simp]: "lower s = [] \<longleftrightarrow> s = []"
  by (cases s) simp_all

lemma is_lower_str_lower [simp]: "is_lower_str (lower s)"
  by (induction s) (simp_all add: is_lower_str_def to_lower_not_upper)

lemma lower_fix: "is_lower_str s \<Longrightarrow> lower s = s"
  by (induction s) (simp_all add: is_lower_str_def to_lower_fix)

lemma eq_ci_refl [simp, ci_simps]: "eq_ci a a"
  by (simp add: eq_ci_def)

lemma eq_ci_sym: "eq_ci a b \<Longrightarrow> eq_ci b a"
  by (simp add: eq_ci_def)

lemma eq_ci_trans: "eq_ci a b \<Longrightarrow> eq_ci b c \<Longrightarrow> eq_ci a c"
  by (simp add: eq_ci_def)

lemma eq_ci_lower_left [simp, ci_simps]: "eq_ci (lower a) b \<longleftrightarrow> eq_ci a b"
  by (simp add: eq_ci_def)

lemma eq_ci_lower_right [simp, ci_simps]: "eq_ci a (lower b) \<longleftrightarrow> eq_ci a b"
  by (simp add: eq_ci_def)

lemma eq_ci_length: "eq_ci a b \<Longrightarrow> length a = length b"
  by (metis eq_ci_def length_lower)

lemma eq_ci_Nil [simp]: "eq_ci a [] \<longleftrightarrow> a = []" "eq_ci [] a \<longleftrightarrow> a = []"
  by (auto simp: eq_ci_def dest: sym)

lemma eq_ci_lower_str: "is_lower_str b \<Longrightarrow> eq_ci a b \<longleftrightarrow> lower a = b"
  by (simp add: eq_ci_def lower_fix)

lemma lower_in_image: "lower a \<in> lower ` S \<longleftrightarrow> (\<exists>x \<in> S. eq_ci x a)"
  unfolding eq_ci_def image_iff by (rule bex_cong) (auto dest: sym)

section \<open>Facts about whitespace\<close>

lemma plain_char_simps [simp]:
  "plain_char c \<Longrightarrow> \<not> is_space c"
  "plain_char c \<Longrightarrow> c \<noteq> dquote"
  by (simp_all add: plain_char_def)

lemma plain_word_Cons: "plain_word (c # w) \<longleftrightarrow> plain_char c \<and> list_all plain_char w"
  by (simp add: plain_word_def)

lemma plain_word_not_Nil [simp]: "\<not> plain_word []"
  by (simp add: plain_word_def)

lemma is_space_space [simp]: "is_space CHR '' ''"
  by (simp add: is_space_def)

lemma dquote_not_space [simp]: "\<not> is_space dquote"
  by (simp add: is_space_def dquote_def)

lemma not_plain_space [simp]: "\<not> plain_char CHR '' ''"
  by (simp add: plain_char_def)

lemma plain_char_to_lower [simp]: "plain_char (to_lower c) \<longleftrightarrow> plain_char c"
  by (auto simp: to_lower_def upper_chars_def lower_chars_def plain_char_def is_space_def dquote_def)

lemma list_all_plain_lower [simp]: "list_all plain_char (lower s) \<longleftrightarrow> list_all plain_char s"
  by (induction s) simp_all

lemma plain_word_lower [simp]: "plain_word (lower s) \<longleftrightarrow> plain_word s"
  by (simp add: plain_word_def)

lemma plain_word_ci: "eq_ci a b \<Longrightarrow> plain_word a \<longleftrightarrow> plain_word b"
  by (metis eq_ci_def plain_word_lower)

text \<open>The defining equations that evaluate a closed string test.\<close>

lemmas string_eval = is_space_def dquote_def eq_ci_def lower_def to_lower_def upper_chars_def
  lower_chars_def plain_word_def plain_char_def

section \<open>Generic list facts\<close>

lemma list_all_replicate [simp]: "list_all P (replicate n x) \<longleftrightarrow> n = 0 \<or> P x"
  by (induction n) auto

lemma find_Some_set: "find P xs = Some x \<Longrightarrow> x \<in> set xs \<and> P x"
  by (induction xs) (auto split: if_splits)

lemma find_None_all: "find P xs = None \<longleftrightarrow> list_all (\<lambda>x. \<not> P x) xs"
  by (induction xs) auto

lemma find_append:
  "find P (xs @ ys) = (case find P xs of Some x \<Rightarrow> Some x | None \<Rightarrow> find P ys)"
  by (induction xs) auto

end
