(* ===== verification/Access_Level.thy ===== *)
theory Access_Level
  imports Prelude
begin

text \<open>
  The access-level gate of the command engine. A command declares the least level
  a sender needs (\<open>accessLevel: AccessLevel.EVERYONE\<close> in
  \<open>src/example/scripts/testCommand.js\<close>); the gate compares it with the
  sender's level under a total order. The levels form a chain
  \<open>EVERYONE < MODERATOR < ADMIN < OWNER\<close>; the type is made an instance of
  \<open>linorder\<close> through its rank, so the library's order reasoning applies to it.
\<close>

section \<open>Levels\<close>

datatype access_level = EVERYONE | MODERATOR | ADMIN | OWNER

primrec rank :: "access_level \<Rightarrow> nat" where
  "rank EVERYONE = 0"
| "rank MODERATOR = 1"
| "rank ADMIN = 2"
| "rank OWNER = 3"

lemma rank_inj: "rank a = rank b \<Longrightarrow> a = b"
  by (cases a; cases b) simp_all

lemma rank_eq_iff [simp]: "rank a = rank b \<longleftrightarrow> a = b"
  by (auto dest: rank_inj)

instantiation access_level :: linorder
begin

definition less_eq_access_level :: "access_level \<Rightarrow> access_level \<Rightarrow> bool" where
  "less_eq_access_level a b \<longleftrightarrow> rank a \<le> rank b"

definition less_access_level :: "access_level \<Rightarrow> access_level \<Rightarrow> bool" where
  "less_access_level a b \<longleftrightarrow> rank a < rank b"

instance
  by standard (auto simp: less_eq_access_level_def less_access_level_def)

end

lemmas access_level_ord = less_eq_access_level_def less_access_level_def

section \<open>The gate\<close>

definition allow :: "access_level \<Rightarrow> access_level \<Rightarrow> bool" where
  "allow required actual \<longleftrightarrow> required \<le> actual"

declare allow_def [engine_defs]

lemma EVERYONE_least [simp]: "EVERYONE \<le> l"
  by (simp add: access_level_ord)

lemma OWNER_greatest [simp]: "l \<le> OWNER"
  by (cases l) (simp_all add: access_level_ord)

lemma allow_EVERYONE [simp]: "allow EVERYONE l"
  by (simp add: allow_def)

lemma allow_OWNER [simp]: "allow r OWNER"
  by (simp add: allow_def)

lemma allow_refl [simp]: "allow l l"
  by (simp add: allow_def)

lemma allow_mono: "allow r l1 \<Longrightarrow> l1 \<le> l2 \<Longrightarrow> allow r l2"
  by (auto simp: allow_def)

lemma allow_antimono: "allow r2 l \<Longrightarrow> r1 \<le> r2 \<Longrightarrow> allow r1 l"
  by (auto simp: allow_def)

lemma allow_total: "allow a b \<or> allow b a"
  by (auto simp: allow_def)

lemma not_allow_iff: "\<not> allow r l \<longleftrightarrow> l < r"
  by (auto simp: allow_def)

lemma allow_only_EVERYONE: "(\<forall>l. allow r l) \<longleftrightarrow> r = EVERYONE"
proof
  assume "\<forall>l. allow r l"
  then have "allow r EVERYONE" ..
  then show "r = EVERYONE"
    by (cases r) (simp_all add: allow_def access_level_ord)
qed simp

end
