(* ===== verification/Tokenizer.thy ===== *)
theory Tokenizer
  imports Prelude
begin

text \<open>
  The tokenizer of the command engine: raw message text to an ordered list of
  tokens. It is a three-state scanner. Outside a token it skips whitespace; a
  double quote opens a quoted token, which runs to the next double quote (or to
  the end of the input when the quote is never closed) and may hold whitespace or
  be empty; any other character opens a word, which runs to the next whitespace.
  Case is never changed here.

  \<open>split_ws\<close> is the reference definition (cut at runs of whitespace); the scanner
  agrees with it on every input without a double quote (\<open>tokenize_split_ws\<close>).
  On such an input the tokens are plain words, and writing them out with single
  spaces (\<open>unwords\<close>) gives back a text with the same tokens
  (\<open>tokenize_normal\<close>).
\<close>

section \<open>The scanner\<close>

datatype lex_mode = Outside | InWord string | InQuote string

fun lex :: "lex_mode \<Rightarrow> string \<Rightarrow> token list" where
  "lex Outside [] = []"
| "lex Outside (c # cs) =
     (if is_space c then lex Outside cs
      else if c = dquote then lex (InQuote []) cs
      else lex (InWord [c]) cs)"
| "lex (InWord w) [] = [rev w]"
| "lex (InWord w) (c # cs) =
     (if is_space c then rev w # lex Outside cs else lex (InWord (c # w)) cs)"
| "lex (InQuote w) [] = [rev w]"
| "lex (InQuote w) (c # cs) =
     (if c = dquote then rev w # lex Outside cs else lex (InQuote (c # w)) cs)"

primrec held :: "lex_mode \<Rightarrow> nat" where
  "held Outside = 0"
| "held (InWord w) = length w"
| "held (InQuote w) = length w"

primrec carried :: "lex_mode \<Rightarrow> string" where
  "carried Outside = []"
| "carried (InWord w) = w"
| "carried (InQuote w) = w"

definition tokenize :: "string \<Rightarrow> token list" where
  "tokenize raw = lex Outside raw"

declare tokenize_def [engine_defs]

section \<open>The reference: cutting at runs of whitespace\<close>

function split_ws :: "string \<Rightarrow> token list" where
  "split_ws s =
     (case dropWhile is_space s of
        [] \<Rightarrow> []
      | c # cs \<Rightarrow> takeWhile (\<lambda>x. \<not> is_space x) (c # cs)
                 # split_ws (dropWhile (\<lambda>x. \<not> is_space x) (c # cs)))"
  by pat_completeness auto
termination
proof (relation "measure length")
  fix s :: string and c cs
  assume d: "dropWhile is_space s = c # cs"
  have "\<not> is_space c"
    using d hd_dropWhile [of is_space s] by auto
  then have "length (dropWhile (\<lambda>x. \<not> is_space x) (c # cs)) \<le> length cs"
    by (simp add: length_dropWhile_le)
  also have "length cs < length (dropWhile is_space s)"
    by (simp add: d)
  also have "\<dots> \<le> length s"
    by (rule length_dropWhile_le)
  finally show "(dropWhile (\<lambda>x. \<not> is_space x) (c # cs), s) \<in> measure length"
    by simp
qed simp

declare split_ws.simps [simp del]

definition unwords :: "token list \<Rightarrow> string" where
  "unwords ws = concat (map (\<lambda>w. w @ '' '') ws)"

section \<open>Scanning step by step\<close>

lemma lex_InWord_plain:
  "list_all (\<lambda>c. \<not> is_space c) w \<Longrightarrow> lex (InWord acc) (w @ s) = lex (InWord (rev w @ acc)) s"
  by (induction w arbitrary: acc) simp_all

lemma lex_InWord_end:
  "s = [] \<or> is_space (hd s) \<Longrightarrow> lex (InWord acc) s = rev acc # lex Outside (tl s)"
  by (cases s) auto

lemma lex_InQuote_body:
  "dquote \<notin> set q \<Longrightarrow> lex (InQuote acc) (q @ s) = lex (InQuote (rev q @ acc)) s"
  by (induction q arbitrary: acc) auto

lemma lex_skip_spaces [simp]:
  "list_all is_space p \<Longrightarrow> lex Outside (p @ s) = lex Outside s"
  by (induction p) simp_all

lemma lex_word:
  assumes "plain_word w" and "s = [] \<or> is_space (hd s)"
  shows "lex Outside (w @ s) = w # lex Outside (tl s)"
proof -
  from assms(1) obtain c cs where w: "w = c # cs" and c: "plain_char c"
    and cs: "list_all plain_char cs"
    by (cases w) (auto simp: plain_word_def)
  from cs have "list_all (\<lambda>c. \<not> is_space c) cs"
    by (induction cs) simp_all
  then have "lex (InWord [c]) (cs @ s) = lex (InWord (rev cs @ [c])) s"
    by (rule lex_InWord_plain)
  also have "\<dots> = rev (rev cs @ [c]) # lex Outside (tl s)"
    using assms(2) by (rule lex_InWord_end)
  finally show ?thesis
    using c by (simp add: w)
qed

lemma lex_word_space [simp]:
  "plain_word w \<Longrightarrow> is_space c \<Longrightarrow> lex Outside (w @ c # s) = w # lex Outside s"
  using lex_word [of w "c # s"] by simp

lemma lex_word_end [simp]: "plain_word w \<Longrightarrow> lex Outside w = [w]"
  using lex_word [of w "[]"] by simp

lemma lex_quoted:
  assumes "dquote \<notin> set q"
  shows "lex Outside (dquote # q @ dquote # s) = q # lex Outside s"
proof -
  have "lex (InQuote []) (q @ dquote # s) = lex (InQuote (rev q @ [])) (dquote # s)"
    using assms by (rule lex_InQuote_body)
  then show ?thesis
    by simp
qed

lemma lex_unclosed_quote:
  assumes "dquote \<notin> set q"
  shows "lex Outside (dquote # q) = [q]"
proof -
  have "lex (InQuote []) (q @ []) = lex (InQuote (rev q @ [])) []"
    using assms by (rule lex_InQuote_body)
  then show ?thesis
    by simp
qed

section \<open>Tokenizing\<close>

lemma tokenize_Nil [simp]: "tokenize [] = []"
  by (simp add: tokenize_def)

lemma tokenize_spaces [simp]: "list_all is_space p \<Longrightarrow> tokenize (p @ s) = tokenize s"
  by (simp add: tokenize_def)

lemma tokenize_only_spaces: "list_all is_space p \<Longrightarrow> tokenize p = []"
  using tokenize_spaces [of p "[]"] by simp

lemma tokenize_word_space [simp]:
  "plain_word w \<Longrightarrow> is_space c \<Longrightarrow> tokenize (w @ c # s) = w # tokenize s"
  by (simp add: tokenize_def)

lemma tokenize_word [simp]: "plain_word w \<Longrightarrow> tokenize w = [w]"
  by (simp add: tokenize_def)

lemma tokenize_word_pad:
  assumes "plain_word w" and "list_all is_space p" and "p \<noteq> []"
  shows "tokenize (w @ p @ s) = w # tokenize s"
proof -
  from assms(3) obtain c p' where p: "p = c # p'"
    by (cases p) auto
  with assms(2) have "is_space c" and "list_all is_space p'"
    by simp_all
  then show ?thesis
    using assms(1) by (simp add: p)
qed

lemma tokenize_quoted:
  "dquote \<notin> set q \<Longrightarrow> tokenize (dquote # q @ dquote # s) = q # tokenize s"
  unfolding tokenize_def by (rule lex_quoted)

lemma tokenize_unwords: "list_all plain_word ws \<Longrightarrow> tokenize (unwords ws) = ws"
  by (induction ws) (simp_all add: unwords_def)

section \<open>Agreement with the reference\<close>

lemma split_ws_Nil [simp]: "split_ws [] = []"
  by (simp add: split_ws.simps)

lemma split_ws_space [simp]: "is_space c \<Longrightarrow> split_ws (c # s) = split_ws s"
  by (simp add: split_ws.simps [of "c # s"] split_ws.simps [of s])

lemma split_ws_char:
  "\<not> is_space c \<Longrightarrow>
   split_ws (c # s) = (c # takeWhile (\<lambda>x. \<not> is_space x) s)
     # split_ws (dropWhile (\<lambda>x. \<not> is_space x) s)"
  by (simp add: split_ws.simps [of "c # s"])

lemma lex_InWord_split:
  "dquote \<notin> set s \<Longrightarrow> (\<And>t. length t \<le> length s \<Longrightarrow> dquote \<notin> set t \<Longrightarrow> lex Outside t = split_ws t) \<Longrightarrow>
   lex (InWord acc) s = (rev acc @ takeWhile (\<lambda>x. \<not> is_space x) s)
     # split_ws (dropWhile (\<lambda>x. \<not> is_space x) s)"
proof (induction s arbitrary: acc)
  case Nil
  then show ?case by simp
next
  case (Cons c s)
  show ?case
  proof (cases "is_space c")
    case True
    with Cons.prems show ?thesis by simp
  next
    case False
    have "lex (InWord (c # acc)) s = (rev (c # acc) @ takeWhile (\<lambda>x. \<not> is_space x) s)
        # split_ws (dropWhile (\<lambda>x. \<not> is_space x) s)"
      using Cons.prems by (intro Cons.IH) auto
    with False show ?thesis by simp
  qed
qed

lemma lex_split_ws: "dquote \<notin> set s \<Longrightarrow> lex Outside s = split_ws s"
proof (induction s rule: length_induct)
  case (1 s)
  show ?case
  proof (cases s)
    case Nil
    then show ?thesis by simp
  next
    case (Cons c cs)
    show ?thesis
    proof (cases "is_space c")
      case True
      with 1 Cons show ?thesis by simp
    next
      case False
      have "lex (InWord [c]) cs = (rev [c] @ takeWhile (\<lambda>x. \<not> is_space x) cs)
          # split_ws (dropWhile (\<lambda>x. \<not> is_space x) cs)"
        using 1 Cons by (intro lex_InWord_split) auto
      with False 1(2) Cons show ?thesis
        by (auto simp: split_ws_char)
    qed
  qed
qed

lemma tokenize_split_ws: "dquote \<notin> set raw \<Longrightarrow> tokenize raw = split_ws raw"
  by (simp add: tokenize_def lex_split_ws)

section \<open>Shape of the tokens\<close>

lemma split_ws_tokens: "t \<in> set (split_ws s) \<Longrightarrow> t \<noteq> [] \<and> list_all (\<lambda>c. \<not> is_space c) t"
proof (induction s arbitrary: t rule: split_ws.induct)
  case (1 s)
  show ?case
  proof (cases "dropWhile is_space s")
    case Nil
    with "1.prems" show ?thesis by (simp add: split_ws.simps [of s])
  next
    case (Cons c cs)
    have c: "\<not> is_space c"
      using Cons hd_dropWhile [of is_space s] by auto
    from "1.prems" Cons consider
        "t = takeWhile (\<lambda>x. \<not> is_space x) (c # cs)"
      | "t \<in> set (split_ws (dropWhile (\<lambda>x. \<not> is_space x) (c # cs)))"
      by (auto simp: split_ws.simps [of s])
    then show ?thesis
    proof cases
      case 1
      have "list_all (\<lambda>c. \<not> is_space c) (takeWhile (\<lambda>x. \<not> is_space x) (c # cs))"
        unfolding list_all_iff by (blast dest: set_takeWhileD)
      with 1 c show ?thesis by simp
    next
      case 2
      with "1.IH" Cons show ?thesis by blast
    qed
  qed
qed

lemma tokenize_tokens:
  "dquote \<notin> set raw \<Longrightarrow> t \<in> set (tokenize raw) \<Longrightarrow> t \<noteq> [] \<and> list_all (\<lambda>c. \<not> is_space c) t"
  by (simp add: tokenize_split_ws split_ws_tokens)

text \<open>A token is made of characters of the text, so the tokens of a text without
  a quote are plain words, and writing them out with single spaces gives a text with
  the same tokens: the scanner sees runs of whitespace as one separator and nothing
  more.\<close>

lemma lex_chars: "t \<in> set (lex m s) \<Longrightarrow> set t \<subseteq> set s \<union> set (carried m)"
  by (induction m s arbitrary: t rule: lex.induct) (auto split: if_splits)

lemma tokenize_chars: "t \<in> set (tokenize raw) \<Longrightarrow> set t \<subseteq> set raw"
  using lex_chars [of t Outside raw] by (simp add: tokenize_def)

lemma tokenize_plain: "dquote \<notin> set raw \<Longrightarrow> list_all plain_word (tokenize raw)"
  unfolding list_all_iff plain_word_def plain_char_def
  using tokenize_tokens [of raw] tokenize_chars [of _ raw] by (auto simp: list_all_iff)

lemma tokenize_normal:
  "dquote \<notin> set raw \<Longrightarrow> tokenize (unwords (tokenize raw)) = tokenize raw"
  by (simp add: tokenize_plain tokenize_unwords)

section \<open>The size of the tokens\<close>

text \<open>Every token is paid for by the characters of the input: its own, and one
  more that ends it (a space, a closing quote, or the end of the input, which is
  why one is added on the right).\<close>

lemma lex_cost: "(\<Sum>t\<leftarrow>lex m s. Suc (length t)) \<le> Suc (held m + length s)"
  by (induction m s rule: lex.induct) auto

lemma tokenize_cost: "(\<Sum>t\<leftarrow>tokenize raw. Suc (length t)) \<le> Suc (length raw)"
  using lex_cost [of Outside raw] by (simp add: tokenize_def)

lemma cost_filter: "(\<Sum>t\<leftarrow>filter P ts. Suc (length t)) \<le> (\<Sum>t\<leftarrow>ts. Suc (length t))"
  by (induction ts) auto

lemma token_length: "t \<in> set (tokenize raw) \<Longrightarrow> length t \<le> length raw"
proof -
  assume "t \<in> set (tokenize raw)"
  then have "Suc (length t) \<in> set (map (\<lambda>t. Suc (length t)) (tokenize raw))"
    by simp
  then have "Suc (length t) \<le> (\<Sum>t\<leftarrow>tokenize raw. Suc (length t))"
    by (rule member_le_sum_list) simp
  with tokenize_cost [of raw] show ?thesis
    by simp
qed

end
