(* ===== verification/Argument.thy ===== *)
theory Argument
  imports Prelude
begin

text \<open>
  The argument matchers of a command pattern and the values they parse.
  \<open>ForString text\<close> is the literal matcher (\<open>Argument.forString("add")\<close> in
  \<open>src/example/scripts/testCommand.js\<close>): it accepts one token equal to
  \<open>text\<close> up to case and yields no value. \<open>STRING\<close> (\<open>Argument.STRING\<close>)
  accepts any one token and yields it; \<open>INTEGER\<close> (the spec's INT kind) accepts one token that reads as a
  base-10 integer (an optional minus sign, then at least one digit) and yields the
  number. \<open>USER dir\<close> (the spec's USER kind) accepts one token that the host's
  user directory \<open>dir\<close> resolves and yields the user; the directory is the
  matcher's parameter, since which tokens name a user is the host's knowledge.
  \<open>Predicate p\<close> is the spec's third variant: it accepts one token that \<open>p\<close>
  holds of and yields it as a string. A matcher looks at the window of remaining
  tokens and reports how many it consumed; every matcher modelled here consumes
  exactly one, and \<open>match_args\<close> advances by the reported number, so a matcher of
  a composite kind that consumed more would need no change there.

  \<open>match_args\<close> runs a matcher sequence over a token list: every matcher must
  match in turn and no token may be left over. \<open>show_int\<close> is the printer that
  \<open>toString\<close> of a parsed number uses; \<open>parse_int\<close> reads back what it prints.
\<close>

section \<open>Parsed values\<close>

datatype arg_value = AStr string | AInt int | AUser string

section \<open>Decimal numbers\<close>

definition digit_chars :: string where
  "digit_chars = ''0123456789''"

definition is_digit :: "char \<Rightarrow> bool" where
  "is_digit c \<longleftrightarrow> c \<in> set digit_chars"

definition digit_val :: "char \<Rightarrow> nat" where
  "digit_val c = (case map_of (zip digit_chars [0..<10]) c of Some n \<Rightarrow> n | None \<Rightarrow> 0)"

definition digit_char :: "nat \<Rightarrow> char" where
  "digit_char n = digit_chars ! (n mod 10)"

definition parse_nat :: "token \<Rightarrow> nat option" where
  "parse_nat s =
     (if s \<noteq> [] \<and> list_all is_digit s
      then Some (foldl (\<lambda>n c. 10 * n + digit_val c) 0 s) else None)"

definition parse_int :: "token \<Rightarrow> int option" where
  "parse_int s =
     (case s of
        [] \<Rightarrow> None
      | c # r \<Rightarrow> if c = CHR ''-'' then map_option (\<lambda>n. - int n) (parse_nat r)
                 else map_option int (parse_nat s))"

fun show_nat :: "nat \<Rightarrow> string" where
  "show_nat n = (if n < 10 then [digit_char n] else show_nat (n div 10) @ [digit_char (n mod 10)])"

declare show_nat.simps [simp del]

definition show_int :: "int \<Rightarrow> string" where
  "show_int i = (if i < 0 then CHR ''-'' # show_nat (nat (- i)) else show_nat (nat i))"

primrec toString :: "arg_value \<Rightarrow> string" where
  "toString (AStr s) = s"
| "toString (AInt i) = show_int i"
| "toString (AUser u) = u"

section \<open>Matchers\<close>

datatype argument =
    ForString string
  | STRING
  | INTEGER
  | USER "token \<Rightarrow> string option"
  | Predicate "token \<Rightarrow> bool"

fun match_argument :: "argument \<Rightarrow> token list \<Rightarrow> (nat \<times> arg_value option) option" where
  "match_argument a [] = None"
| "match_argument (ForString text) (t # ts) = (if eq_ci t text then Some (1, None) else None)"
| "match_argument STRING (t # ts) = Some (1, Some (AStr t))"
| "match_argument INTEGER (t # ts) =
     (case parse_int t of None \<Rightarrow> None | Some i \<Rightarrow> Some (1, Some (AInt i)))"
| "match_argument (USER dir) (t # ts) =
     (case dir t of None \<Rightarrow> None | Some u \<Rightarrow> Some (1, Some (AUser u)))"
| "match_argument (Predicate p) (t # ts) = (if p t then Some (1, Some (AStr t)) else None)"

primrec add_value :: "arg_value option \<Rightarrow> arg_value list \<Rightarrow> arg_value list" where
  "add_value None vs = vs"
| "add_value (Some v) vs = v # vs"

fun match_args :: "argument list \<Rightarrow> token list \<Rightarrow> arg_value list option" where
  "match_args [] ts = (if ts = [] then Some [] else None)"
| "match_args (a # as) ts =
     (case match_argument a ts of
        None \<Rightarrow> None
      | Some (n, v) \<Rightarrow> map_option (add_value v) (match_args as (drop n ts)))"

primrec yields_value :: "argument \<Rightarrow> bool" where
  "yields_value (ForString text) = False"
| "yields_value STRING = True"
| "yields_value INTEGER = True"
| "yields_value (USER dir) = True"
| "yields_value (Predicate p) = True"

text \<open>The values a matcher sequence hands to a handler, as a typing judgement: a
  literal contributes nothing, \<open>STRING\<close> and a predicate a string,
  \<open>INTEGER\<close> a number and \<open>USER\<close> a user, in the order of the matchers.\<close>

fun values_typed :: "argument list \<Rightarrow> arg_value list \<Rightarrow> bool" where
  "values_typed [] vs \<longleftrightarrow> vs = []"
| "values_typed (ForString text # as) vs \<longleftrightarrow> values_typed as vs"
| "values_typed (STRING # as) (AStr s # vs) \<longleftrightarrow> values_typed as vs"
| "values_typed (INTEGER # as) (AInt i # vs) \<longleftrightarrow> values_typed as vs"
| "values_typed (USER dir # as) (AUser u # vs) \<longleftrightarrow> values_typed as vs"
| "values_typed (Predicate p # as) (AStr s # vs) \<longleftrightarrow> values_typed as vs"
| "values_typed as vs \<longleftrightarrow> False"

section \<open>Digits\<close>

lemma digit_char_is_digit [simp]: "is_digit (digit_char n)"
proof -
  have "n mod 10 < length digit_chars"
    by (simp add: digit_chars_def)
  then show ?thesis
    unfolding is_digit_def digit_char_def by (rule nth_mem)
qed

lemma mod10_cases:
  "(d::nat) < 10 \<Longrightarrow> d = 0 \<or> d = 1 \<or> d = 2 \<or> d = 3 \<or> d = 4 \<or> d = 5 \<or> d = 6 \<or> d = 7 \<or> d = 8 \<or> d = 9"
  by arith

lemma digit_val_digit_char [simp]: "d < 10 \<Longrightarrow> digit_val (digit_char d) = d"
  using mod10_cases [of d]
  by (auto simp: digit_val_def digit_char_def digit_chars_def upt_rec)

lemma digit_char_not_minus [simp]: "digit_char n \<noteq> CHR ''-''"
  using digit_char_is_digit [of n] by (auto simp: is_digit_def digit_chars_def)

section \<open>Printing and reading back\<close>

lemma show_nat_not_Nil [simp]: "show_nat n \<noteq> []"
  by (subst show_nat.simps) simp

lemma show_nat_digits: "list_all is_digit (show_nat n)"
  by (induction n rule: show_nat.induct) (subst show_nat.simps, simp)

lemma hd_show_nat_not_minus: "hd (show_nat n) \<noteq> CHR ''-''"
proof -
  have "is_digit (hd (show_nat n))"
    using show_nat_digits [of n] show_nat_not_Nil [of n]
    by (cases "show_nat n") simp_all
  then show ?thesis
    by (auto simp: is_digit_def digit_chars_def)
qed

lemma foldl_show_nat: "foldl (\<lambda>n c. 10 * n + digit_val c) 0 (show_nat n) = n"
proof (induction n rule: show_nat.induct)
  case (1 n)
  show ?case
  proof (cases "n < 10")
    case True
    then show ?thesis by (subst show_nat.simps) simp
  next
    case False
    with "1.IH" have "foldl (\<lambda>n c. 10 * n + digit_val c) 0 (show_nat (n div 10)) = n div 10"
      by simp
    with False show ?thesis by (subst show_nat.simps) simp
  qed
qed

lemma parse_nat_show_nat [simp]: "parse_nat (show_nat n) = Some n"
  by (simp add: parse_nat_def show_nat_digits foldl_show_nat)

lemma parse_int_show_int [simp]: "parse_int (show_int i) = Some i"
proof (cases "i < 0")
  case True
  then show ?thesis by (simp add: parse_int_def show_int_def)
next
  case False
  obtain c r where s: "show_nat (nat i) = c # r"
    using show_nat_not_Nil [of "nat i"] by (cases "show_nat (nat i)") auto
  have "c \<noteq> CHR ''-''"
    using hd_show_nat_not_minus [of "nat i"] by (simp add: s)
  moreover have "parse_nat (c # r) = Some (nat i)"
    using parse_nat_show_nat [of "nat i"] by (simp add: s)
  ultimately show ?thesis
    using False by (simp add: parse_int_def show_int_def s)
qed

lemma parse_nat_Nil [simp]: "parse_nat [] = None"
  by (simp add: parse_nat_def)

lemma parse_int_Nil [simp]: "parse_int [] = None"
  by (simp add: parse_int_def)

lemma parse_nat_Some_digits: "parse_nat s = Some n \<Longrightarrow> s \<noteq> [] \<and> list_all is_digit s"
  by (simp add: parse_nat_def split: if_splits)

section \<open>One matcher\<close>

lemma match_argument_consumes:
  "match_argument a ts = Some (n, v) \<Longrightarrow> n = 1 \<and> ts \<noteq> []"
  by (cases "(a, ts)" rule: match_argument.cases) (auto split: if_splits option.splits)

lemma match_argument_value:
  "match_argument a ts = Some (n, v) \<Longrightarrow> (v \<noteq> None) = yields_value a"
  by (cases "(a, ts)" rule: match_argument.cases) (auto split: if_splits option.splits)

lemma match_argument_window:
  "match_argument a (t # ts) = match_argument a (t # ts')"
  by (cases a) simp_all

lemma match_argument_ForString [simp]:
  "match_argument (ForString text) ts = Some r \<longleftrightarrow> (\<exists>t ts'. ts = t # ts' \<and> eq_ci t text \<and> r = (1, None))"
  by (cases ts) auto

lemma match_argument_STRING [simp]:
  "match_argument STRING ts = Some r \<longleftrightarrow> (\<exists>t ts'. ts = t # ts' \<and> r = (1, Some (AStr t)))"
  by (cases ts) auto

lemma match_argument_USER [simp]:
  "match_argument (USER dir) ts = Some r \<longleftrightarrow>
     (\<exists>t ts' u. ts = t # ts' \<and> dir t = Some u \<and> r = (1, Some (AUser u)))"
  by (cases ts) (auto split: option.splits)

lemma match_argument_Predicate [simp]:
  "match_argument (Predicate p) ts = Some r \<longleftrightarrow>
     (\<exists>t ts'. ts = t # ts' \<and> p t \<and> r = (1, Some (AStr t)))"
  by (cases ts) auto

text \<open>The two matchers of \<open>testCommand.js\<close> are instances of the predicate
  matcher: \<open>STRING\<close> is the predicate that holds of every token, and the literal
  accepts what the predicate \<open>eq_ci\<close> to its text accepts (and drops the value).\<close>

lemma match_argument_Predicate_any:
  "match_argument (Predicate (\<lambda>t. True)) ts = match_argument STRING ts"
  by (cases ts) simp_all

lemma match_argument_Predicate_literal:
  "map_option fst (match_argument (Predicate (\<lambda>t. eq_ci t text)) ts)
     = map_option fst (match_argument (ForString text) ts)"
  by (cases ts) simp_all

lemma match_argument_INTEGER_shown:
  "match_argument INTEGER (show_int i # ts) = Some (1, Some (AInt i))"
  by simp

section \<open>A matcher sequence\<close>

lemma match_args_Cons:
  "match_args (a # as) (t # ts) =
     (case match_argument a [t] of
        None \<Rightarrow> None
      | Some (n, v) \<Rightarrow> map_option (add_value v) (match_args as ts))"
proof (cases "match_argument a (t # ts)")
  case None
  then show ?thesis
    using match_argument_window [of a t ts "[]"] by simp
next
  case (Some r)
  obtain n v where r: "r = (n, v)" by (cases r)
  have "n = 1"
    using Some r match_argument_consumes by blast
  with Some r show ?thesis
    using match_argument_window [of a t ts "[]"] by simp
qed

lemma match_args_Nil_tokens [simp]: "match_args (a # as) [] = None"
  by simp

lemma match_args_length:
  "match_args as ts = Some vs \<Longrightarrow> length ts = length as"
proof (induction as arbitrary: ts vs)
  case Nil
  then show ?case by (simp split: if_splits)
next
  case (Cons a as)
  then obtain t ts' where ts: "ts = t # ts'"
    by (cases ts) auto
  from Cons.prems obtain vs' where "match_args as ts' = Some vs'"
    unfolding ts match_args_Cons by (auto split: option.splits)
  then have "length ts' = length as" by (rule Cons.IH)
  then show ?case by (simp add: ts)
qed

lemma match_args_values:
  "match_args as ts = Some vs \<Longrightarrow> length vs = length (filter yields_value as)"
proof (induction as arbitrary: ts vs)
  case Nil
  then show ?case by (simp split: if_splits)
next
  case (Cons a as)
  then obtain t ts' where ts: "ts = t # ts'"
    by (cases ts) auto
  from Cons.prems obtain n v vs' where m: "match_argument a [t] = Some (n, v)"
    and r: "match_args as ts' = Some vs'" and vs: "vs = add_value v vs'"
    unfolding ts match_args_Cons by (auto split: option.splits)
  from r have "length vs' = length (filter yields_value as)" by (rule Cons.IH)
  moreover from m have "(v \<noteq> None) = yields_value a" by (rule match_argument_value)
  ultimately show ?case by (cases v) (auto simp: vs)
qed

lemma match_args_too_many: "length as < length ts \<Longrightarrow> match_args as ts = None"
  using match_args_length [of as ts] by (cases "match_args as ts") auto

lemma match_args_too_few: "length ts < length as \<Longrightarrow> match_args as ts = None"
  using match_args_length [of as ts] by (cases "match_args as ts") auto

section \<open>The values have the kinds of their matchers\<close>

lemma match_argument_typed:
  "match_argument a ts = Some (n, v) \<Longrightarrow> values_typed (a # as) (add_value v vs) = values_typed as vs"
  by (cases a; cases ts) (auto split: if_splits option.splits)

lemma match_args_typed: "match_args as ts = Some vs \<Longrightarrow> values_typed as vs"
proof (induction as arbitrary: ts vs)
  case Nil
  then show ?case by (simp split: if_splits)
next
  case (Cons a as)
  then show ?case
    by (auto simp: match_argument_typed split: option.splits)
qed

lemma values_typed_length: "values_typed as vs \<Longrightarrow> length vs = length (filter yields_value as)"
  by (induction as vs rule: values_typed.induct) simp_all

end
