(* ===== verification/Options.thy ===== *)
theory Options
  imports Prelude
begin

text \<open>
  The option resolver. A command declares the boolean flags it recognises
  (\<open>options: [Option.FORCE]\<close> in \<open>src/example/scripts/testCommand.js\<close>); a
  token is a marker of a declared flag when it is \<open>--\<close> followed by the flag's
  name or \<open>-\<close> followed by its short letter, compared exactly. \<open>resolve\<close> takes
  every marker of a declared flag out of the token list, wherever it stands, and
  reports the flags that were seen; every other token, a marker of an undeclared
  flag included, stays where it is. A handler asks for a flag by name
  (\<open>options.has("force")\<close>), which is \<open>has\<close>.
\<close>

section \<open>Flags and their markers\<close>

record option_kind =
  opt_name :: string
  opt_short :: char

definition FORCE :: option_kind where
  "FORCE = \<lparr>opt_name = ''force'', opt_short = CHR ''f''\<rparr>"

definition is_marker :: "option_kind \<Rightarrow> token \<Rightarrow> bool" where
  "is_marker k t \<longleftrightarrow> t = ''--'' @ opt_name k \<or> t = [CHR ''-'', opt_short k]"

definition declared_marker :: "option_kind list \<Rightarrow> token \<Rightarrow> bool" where
  "declared_marker declared t \<longleftrightarrow> list_ex (\<lambda>k. is_marker k t) declared"

section \<open>The resolver\<close>

definition resolve :: "option_kind list \<Rightarrow> token list \<Rightarrow> token list \<times> option_kind list" where
  "resolve declared ts =
     (filter (\<lambda>t. \<not> declared_marker declared t) ts,
      filter (\<lambda>k. list_ex (is_marker k) ts) declared)"

definition has :: "option_kind list \<Rightarrow> string \<Rightarrow> bool" where
  "has active name \<longleftrightarrow> list_ex (\<lambda>k. opt_name k = name) active"

declare resolve_def [engine_defs] has_def [engine_defs]

section \<open>Markers\<close>

lemma is_marker_long [simp]: "is_marker k (''--'' @ opt_name k)"
  by (simp add: is_marker_def)

lemma is_marker_short [simp]: "is_marker k [CHR ''-'', opt_short k]"
  by (simp add: is_marker_def)

lemma is_marker_dash: "is_marker k t \<Longrightarrow> \<exists>r. t = CHR ''-'' # r \<and> r \<noteq> []"
  by (auto simp: is_marker_def)

lemma not_marker_no_dash: "t = [] \<or> hd t \<noteq> CHR ''-'' \<Longrightarrow> \<not> is_marker k t"
  by (auto dest: is_marker_dash)

lemma declared_marker_Nil [simp]: "\<not> declared_marker [] t"
  by (simp add: declared_marker_def)

lemma declared_marker_Cons [simp]:
  "declared_marker (k # ks) t \<longleftrightarrow> is_marker k t \<or> declared_marker ks t"
  by (simp add: declared_marker_def)

lemma declared_marker_iff: "declared_marker declared t \<longleftrightarrow> (\<exists>k \<in> set declared. is_marker k t)"
  by (simp add: declared_marker_def list_ex_iff)

lemma not_declared_marker_no_dash: "t = [] \<or> hd t \<noteq> CHR ''-'' \<Longrightarrow> \<not> declared_marker declared t"
  by (auto simp: declared_marker_iff dest: is_marker_dash)

lemma FORCE_markers: "is_marker FORCE t \<longleftrightarrow> t = ''--force'' \<or> t = ''-f''"
  by (simp add: is_marker_def FORCE_def)

section \<open>What the resolver returns\<close>

lemma resolve_Nil [simp]: "resolve declared [] = ([], [])"
  by (simp add: resolve_def)

lemma resolve_no_options [simp]: "resolve [] ts = (ts, [])"
  by (simp add: resolve_def)

lemma fst_resolve: "fst (resolve declared ts) = filter (\<lambda>t. \<not> declared_marker declared t) ts"
  by (simp add: resolve_def)

lemma snd_resolve: "snd (resolve declared ts) = filter (\<lambda>k. list_ex (is_marker k) ts) declared"
  by (simp add: resolve_def)

lemma resolve_Cons:
  "resolve declared (t # ts) =
     (if declared_marker declared t then fst (resolve declared ts) else t # fst (resolve declared ts),
      filter (\<lambda>k. is_marker k t \<or> list_ex (is_marker k) ts) declared)"
  by (simp add: resolve_def)

lemma resolve_append_fst:
  "fst (resolve declared (xs @ ys)) = fst (resolve declared xs) @ fst (resolve declared ys)"
  by (simp add: resolve_def)

lemma resolve_keeps_plain:
  "list_all (\<lambda>t. \<not> declared_marker declared t) ts \<Longrightarrow> resolve declared ts = (ts, [])"
proof -
  assume a: "list_all (\<lambda>t. \<not> declared_marker declared t) ts"
  then have "filter (\<lambda>t. \<not> declared_marker declared t) ts = ts"
    by (simp add: list_all_iff)
  moreover have "filter (\<lambda>k. list_ex (is_marker k) ts) declared = []"
    using a by (auto simp: filter_empty_conv list_all_iff list_ex_iff declared_marker_iff)
  ultimately show ?thesis
    by (simp add: resolve_def)
qed

lemma resolve_remaining_clean:
  "list_all (\<lambda>t. \<not> declared_marker declared t) (fst (resolve declared ts))"
  by (simp add: resolve_def list_all_iff)

lemma resolve_idem:
  "resolve declared (fst (resolve declared ts)) = (fst (resolve declared ts), [])"
  by (rule resolve_keeps_plain [OF resolve_remaining_clean])

lemma resolve_active_declared: "set (snd (resolve declared ts)) \<subseteq> set declared"
  by (auto simp: resolve_def)

lemma resolve_active_distinct: "distinct declared \<Longrightarrow> distinct (snd (resolve declared ts))"
  by (simp add: resolve_def)

lemma resolve_active_set:
  "set ts = set ts' \<Longrightarrow> snd (resolve declared ts) = snd (resolve declared ts')"
  by (simp add: resolve_def list_ex_iff)

lemma resolve_unknown_marker_kept:
  "\<not> declared_marker declared t \<Longrightarrow> t \<in> set ts \<Longrightarrow> t \<in> set (fst (resolve declared ts))"
  by (simp add: resolve_def)

section \<open>Moving a marker\<close>

lemma resolve_marker_anywhere:
  assumes "declared_marker declared m"
  shows "fst (resolve declared (xs @ m # ys)) = fst (resolve declared (xs @ ys))"
  using assms by (simp add: resolve_def)

lemma resolve_marker_position:
  assumes "declared_marker declared m"
  shows "resolve declared (xs @ m # ys) = resolve declared (m # xs @ ys)"
proof -
  have "set (xs @ m # ys) = set (m # xs @ ys)"
    by auto
  then have "snd (resolve declared (xs @ m # ys)) = snd (resolve declared (m # xs @ ys))"
    by (rule resolve_active_set)
  moreover have "fst (resolve declared (xs @ m # ys)) = fst (resolve declared (m # xs @ ys))"
    using assms by (simp add: resolve_def)
  ultimately show ?thesis
    by (simp add: prod_eq_iff)
qed

section \<open>Asking for a flag\<close>

lemma has_Nil [simp]: "\<not> has [] name"
  by (simp add: has_def)

lemma has_iff: "has active name \<longleftrightarrow> (\<exists>k \<in> set active. opt_name k = name)"
  by (simp add: has_def list_ex_iff)

lemma has_resolve:
  "has (snd (resolve declared ts)) name \<longleftrightarrow>
     (\<exists>k \<in> set declared. opt_name k = name \<and> (\<exists>t \<in> set ts. is_marker k t))"
  by (auto simp: has_iff resolve_def list_ex_iff)

lemma has_resolve_FORCE:
  "has (snd (resolve [FORCE] ts)) ''force'' \<longleftrightarrow> ''--force'' \<in> set ts \<or> ''-f'' \<in> set ts"
  by (auto simp: has_resolve FORCE_markers) (simp_all add: FORCE_def)

end
