(* ===== verification/Command.thy ===== *)
theory Command
  imports Access_Level Argument Options
begin

text \<open>
  Commands as a script declares them (\<open>JavaScriptCommand.from({...})\<close> in
  \<open>src/example/scripts/testCommand.js\<close>): aliases, two descriptions, the least
  access level, the declared flags and an ordered list of patterns. A pattern is
  built either from a matcher sequence and a handler or from a handler alone (the
  catch-all, which accepts whatever tokens remain). A handler receives the event,
  the parsed values and the active flags; what it does is reply through the event,
  so its result is the list of replies it sent, or the error it raised.

  \<open>select_pattern\<close> is the selection rule: the patterns are tried in the order
  they were declared and the first that accepts the tokens wins.
\<close>

section \<open>Events and handlers\<close>

record sender =
  identity :: string
  level :: access_level

record event =
  raw :: string
  author :: sender

datatype script_error = MissingArgument nat

type_synonym handler_result = "script_error + string list"

type_synonym handler = "event \<Rightarrow> arg_value list \<Rightarrow> option_kind list \<Rightarrow> handler_result"

definition fastReply :: "event \<Rightarrow> string \<Rightarrow> handler_result" where
  "fastReply e text = Inr [text]"

definition arg_at :: "arg_value list \<Rightarrow> nat \<Rightarrow> script_error + arg_value" where
  "arg_at args i = (if i < length args then Inr (args ! i) else Inl (MissingArgument i))"

section \<open>Patterns\<close>

datatype command_pattern =
    CommandPattern "argument list" handler
  | CatchAllPattern handler

primrec pattern_args :: "command_pattern \<Rightarrow> token list \<Rightarrow> arg_value list option" where
  "pattern_args (CommandPattern as h) ts = match_args as ts"
| "pattern_args (CatchAllPattern h) ts = Some []"

primrec pattern_handler :: "command_pattern \<Rightarrow> handler" where
  "pattern_handler (CommandPattern as h) = h"
| "pattern_handler (CatchAllPattern h) = h"

primrec pattern_matchers :: "command_pattern \<Rightarrow> argument list" where
  "pattern_matchers (CommandPattern as h) = as"
| "pattern_matchers (CatchAllPattern h) = []"

primrec is_catch_all :: "command_pattern \<Rightarrow> bool" where
  "is_catch_all (CommandPattern as h) = False"
| "is_catch_all (CatchAllPattern h) = True"

fun select_pattern :: "command_pattern list \<Rightarrow> token list \<Rightarrow> (command_pattern \<times> arg_value list) option" where
  "select_pattern [] ts = None"
| "select_pattern (p # ps) ts =
     (case pattern_args p ts of
        Some vs \<Rightarrow> Some (p, vs)
      | None \<Rightarrow> select_pattern ps ts)"

section \<open>Commands\<close>

record command =
  aliases :: "string list"
  description :: string
  shortDescription :: string
  accessLevel :: access_level
  options :: "option_kind list"
  patterns :: "command_pattern list"

definition wf_command :: "command \<Rightarrow> bool" where
  "wf_command c \<longleftrightarrow> aliases c \<noteq> [] \<and> distinct (map lower (aliases c)) \<and> patterns c \<noteq> []"

definition has_alias :: "command \<Rightarrow> string \<Rightarrow> bool" where
  "has_alias c a \<longleftrightarrow> list_ex (\<lambda>x. eq_ci x a) (aliases c)"

definition total_command :: "command \<Rightarrow> bool" where
  "total_command c \<longleftrightarrow> list_ex is_catch_all (patterns c)"

declare fastReply_def [engine_defs] arg_at_def [engine_defs]

section \<open>Reading arguments\<close>

lemma arg_at_in_range [simp]: "i < length args \<Longrightarrow> arg_at args i = Inr (args ! i)"
  by (simp add: arg_at_def)

lemma arg_at_out_of_range [simp]: "length args \<le> i \<Longrightarrow> arg_at args i = Inl (MissingArgument i)"
  by (simp add: arg_at_def)

lemma arg_at_Cons_0 [simp]: "arg_at (v # vs) 0 = Inr v"
  by (simp add: arg_at_def)

section \<open>One pattern\<close>

lemma pattern_args_catch_all: "is_catch_all p \<Longrightarrow> pattern_args p ts = Some []"
  by (cases p) simp_all

lemma pattern_args_consumes_all:
  "pattern_args (CommandPattern as h) ts = Some vs \<Longrightarrow> length ts = length as"
  by (simp add: match_args_length)

lemma pattern_args_value_count:
  "pattern_args (CommandPattern as h) ts = Some vs \<Longrightarrow> length vs = length (filter yields_value as)"
  by (simp add: match_args_values)

section \<open>Selection: the first pattern that accepts\<close>

lemma select_pattern_None:
  "select_pattern ps ts = None \<longleftrightarrow> list_all (\<lambda>p. pattern_args p ts = None) ps"
  by (induction ps) (auto split: option.splits)

lemma select_pattern_Some_mem:
  "select_pattern ps ts = Some (p, vs) \<Longrightarrow> p \<in> set ps \<and> pattern_args p ts = Some vs"
  by (induction ps) (auto split: option.splits)

lemma select_pattern_prefix:
  "list_all (\<lambda>q. pattern_args q ts = None) pre \<Longrightarrow> pattern_args p ts = Some vs \<Longrightarrow>
   select_pattern (pre @ p # post) ts = Some (p, vs)"
  by (induction pre) simp_all

lemma select_pattern_split:
  "select_pattern ps ts = Some (p, vs) \<Longrightarrow>
   \<exists>pre post. ps = pre @ p # post \<and> list_all (\<lambda>q. pattern_args q ts = None) pre
     \<and> pattern_args p ts = Some vs"
proof (induction ps)
  case Nil
  then show ?case by simp
next
  case (Cons q ps)
  show ?case
  proof (cases "pattern_args q ts")
    case None
    with Cons obtain pre post where "ps = pre @ p # post"
      "list_all (\<lambda>q. pattern_args q ts = None) pre" "pattern_args p ts = Some vs"
      by auto
    with None have "q # ps = (q # pre) @ p # post \<and> list_all (\<lambda>q. pattern_args q ts = None) (q # pre)
        \<and> pattern_args p ts = Some vs"
      by simp
    then show ?thesis by blast
  next
    case (Some ws)
    with Cons.prems have "q # ps = [] @ p # ps \<and> list_all (\<lambda>q. pattern_args q ts = None) []
        \<and> pattern_args p ts = Some vs"
      by simp
    then show ?thesis by blast
  qed
qed

text \<open>
  C24. The first pattern that matches wins, and no other: the selection returns a
  pattern with its parsed values exactly when that pattern stands in the declared
  list, accepts the tokens with these values, and every pattern declared before it
  rejects them. What stands after the selected pattern is never looked at, so a
  catch-all declared first hides every pattern behind it.
\<close>

theorem select_pattern_first:
  "select_pattern ps ts = Some (p, vs) \<longleftrightarrow>
     (\<exists>pre post. ps = pre @ p # post \<and> list_all (\<lambda>q. pattern_args q ts = None) pre
        \<and> pattern_args p ts = Some vs)"
proof
  assume "select_pattern ps ts = Some (p, vs)"
  then show "\<exists>pre post. ps = pre @ p # post \<and> list_all (\<lambda>q. pattern_args q ts = None) pre
        \<and> pattern_args p ts = Some vs"
    by (rule select_pattern_split)
next
  assume "\<exists>pre post. ps = pre @ p # post \<and> list_all (\<lambda>q. pattern_args q ts = None) pre
        \<and> pattern_args p ts = Some vs"
  then show "select_pattern ps ts = Some (p, vs)"
    by (auto simp: select_pattern_prefix)
qed

lemma select_pattern_append:
  "select_pattern (ps @ qs) ts =
     (case select_pattern ps ts of Some r \<Rightarrow> Some r | None \<Rightarrow> select_pattern qs ts)"
  by (induction ps) (auto split: option.splits)

lemma select_pattern_total:
  "list_ex is_catch_all ps \<Longrightarrow> \<exists>p vs. select_pattern ps ts = Some (p, vs)"
proof (induction ps)
  case Nil
  then show ?case by simp
next
  case (Cons q ps)
  then show ?case
    by (cases "pattern_args q ts") (auto simp: pattern_args_catch_all)
qed

lemma select_pattern_skip:
  "pattern_args p ts = None \<Longrightarrow> select_pattern (p # ps) ts = select_pattern ps ts"
  by simp

lemma select_pattern_hit:
  "pattern_args p ts = Some vs \<Longrightarrow> select_pattern (p # ps) ts = Some (p, vs)"
  by simp

section \<open>Aliases\<close>

lemma has_alias_iff: "has_alias c a \<longleftrightarrow> (\<exists>x \<in> set (aliases c). eq_ci x a)"
  by (simp add: has_alias_def list_ex_iff)

lemma has_alias_lower [simp, ci_simps]: "has_alias c (lower a) \<longleftrightarrow> has_alias c a"
  by (simp add: has_alias_def)

lemma has_alias_ci: "eq_ci a b \<Longrightarrow> has_alias c a \<longleftrightarrow> has_alias c b"
  by (auto simp: has_alias_iff eq_ci_def)

lemma has_alias_own: "x \<in> set (aliases c) \<Longrightarrow> has_alias c x"
  unfolding has_alias_iff by (rule bexI [of _ x]) simp_all

section \<open>What a handler is handed\<close>

lemma pattern_args_typed: "pattern_args p ts = Some vs \<Longrightarrow> values_typed (pattern_matchers p) vs"
  by (cases p) (auto dest: match_args_typed)

lemma select_pattern_typed:
  "select_pattern ps ts = Some (p, vs) \<Longrightarrow> values_typed (pattern_matchers p) vs"
  by (auto dest: select_pattern_Some_mem pattern_args_typed)

end
