(* ===== verification/Dispatcher.thy ===== *)
theory Dispatcher
  imports Tokenizer Command
begin

text \<open>
  The dispatcher: the alias table, registration, and the route of one message.
  The table is the list of registered commands in registration order. Looking an
  alias up ignores case; registering a command whose alias is already taken (up to
  case), or that has no alias, a repeated alias or no pattern, is an error and
  leaves the table as it was; so is an empty slot in an array of commands
  (\<open>register_all\<close>, which registers what \<open>getCommands()\<close> returns). A quick command
  (\<open>commandModule.registerQuickCommand("yolo", ...)\<close> in
  \<open>src/example/main.js\<close>) is a command with one alias, level \<open>EVERYONE\<close>, no
  flags and one catch-all pattern whose handler sees only the event.

  \<open>dispatch\<close> routes a message: tokenize; look the first token up (no token or
  no command: \<open>Unknown\<close>); check the sender's level (\<open>AccessDenied\<close>); take the
  flags out of the remaining tokens; select a pattern (\<open>NoPatternMatched\<close>); run
  its handler (\<open>Invoked\<close>, with what the handler did).
\<close>

section \<open>The alias table\<close>

type_synonym registry = "command list"

definition lookup :: "registry \<Rightarrow> string \<Rightarrow> command option" where
  "lookup reg a = find (\<lambda>c. has_alias c a) reg"

definition all_aliases :: "registry \<Rightarrow> string list" where
  "all_aliases reg = concat (map aliases reg)"

definition alias_taken :: "registry \<Rightarrow> string \<Rightarrow> bool" where
  "alias_taken reg a \<longleftrightarrow> list_ex (\<lambda>c. has_alias c a) reg"

definition wf_registry :: "registry \<Rightarrow> bool" where
  "wf_registry reg \<longleftrightarrow> distinct (map lower (all_aliases reg)) \<and> list_all wf_command reg"

section \<open>Registration\<close>

datatype registration_error = DuplicateAlias string | InvalidCommand | NullCommand

definition register :: "command \<Rightarrow> registry \<Rightarrow> registration_error + registry" where
  "register c reg =
     (if \<not> wf_command c then Inl InvalidCommand
      else case find (alias_taken reg) (aliases c) of
             Some a \<Rightarrow> Inl (DuplicateAlias a)
           | None \<Rightarrow> Inr (reg @ [c]))"

definition quick_command :: "string \<Rightarrow> (event \<Rightarrow> handler_result) \<Rightarrow> command" where
  "quick_command alias h =
     \<lparr>aliases = [alias], description = [], shortDescription = [],
      accessLevel = EVERYONE, options = [],
      patterns = [CatchAllPattern (\<lambda>e args opts. h e)]\<rparr>"

definition registerQuickCommand ::
  "string \<Rightarrow> (event \<Rightarrow> handler_result) \<Rightarrow> registry \<Rightarrow> registration_error + registry" where
  "registerQuickCommand alias h reg = register (quick_command alias h) reg"

fun register_all :: "command option list \<Rightarrow> registry \<Rightarrow> registration_error + registry" where
  "register_all [] reg = Inr reg"
| "register_all (None # cs) reg = Inl NullCommand"
| "register_all (Some c # cs) reg =
     (case register c reg of Inl e \<Rightarrow> Inl e | Inr reg' \<Rightarrow> register_all cs reg')"

section \<open>Routing one message\<close>

datatype dispatch_outcome = Invoked handler_result | Unknown | AccessDenied | NoPatternMatched

definition run_command :: "command \<Rightarrow> event \<Rightarrow> token list \<Rightarrow> dispatch_outcome" where
  "run_command c e ts =
     (if \<not> allow (accessLevel c) (level (author e)) then AccessDenied
      else case resolve (options c) ts of
        (rest, active) \<Rightarrow>
          (case select_pattern (patterns c) rest of
             None \<Rightarrow> NoPatternMatched
           | Some (p, vs) \<Rightarrow> Invoked (pattern_handler p e vs active)))"

definition dispatch :: "registry \<Rightarrow> string \<Rightarrow> sender \<Rightarrow> dispatch_outcome" where
  "dispatch reg text who =
     (case tokenize text of
        [] \<Rightarrow> Unknown
      | a # ts \<Rightarrow>
          (case lookup reg a of
             None \<Rightarrow> Unknown
           | Some c \<Rightarrow> run_command c \<lparr>raw = text, author = who\<rparr> ts))"

declare lookup_def [engine_defs] run_command_def [engine_defs] dispatch_def [engine_defs]

section \<open>Looking up\<close>

lemma lookup_Nil [simp]: "lookup [] a = None"
  by (simp add: lookup_def)

lemma lookup_Cons: "lookup (c # reg) a = (if has_alias c a then Some c else lookup reg a)"
  by (simp add: lookup_def)

lemma lookup_append:
  "lookup (r1 @ r2) a = (case lookup r1 a of Some c \<Rightarrow> Some c | None \<Rightarrow> lookup r2 a)"
  unfolding lookup_def by (rule find_append)

lemma lookup_lower [simp, ci_simps]: "lookup reg (lower a) = lookup reg a"
  by (simp add: lookup_def)

lemma lookup_ci: "eq_ci a b \<Longrightarrow> lookup reg a = lookup reg b"
  by (simp add: lookup_def has_alias_ci [of a b])

lemma lookup_Some: "lookup reg a = Some c \<Longrightarrow> c \<in> set reg \<and> has_alias c a"
  unfolding lookup_def by (rule find_Some_set)

lemma lookup_None_iff: "lookup reg a = None \<longleftrightarrow> \<not> alias_taken reg a"
  by (simp add: lookup_def alias_taken_def find_None_all list_all_iff list_ex_iff)

lemma alias_taken_iff:
  "alias_taken reg a \<longleftrightarrow> lower a \<in> set (map lower (all_aliases reg))"
  by (auto simp: alias_taken_def all_aliases_def list_ex_iff has_alias_iff lower_in_image)

lemma alias_taken_append [simp]:
  "alias_taken (r1 @ r2) a \<longleftrightarrow> alias_taken r1 a \<or> alias_taken r2 a"
  by (simp add: alias_taken_def)

lemma alias_taken_single [simp]: "alias_taken [c] a \<longleftrightarrow> has_alias c a"
  by (simp add: alias_taken_def)

lemma alias_taken_Nil [simp]: "\<not> alias_taken [] a"
  by (simp add: alias_taken_def)

lemma all_aliases_append [simp]: "all_aliases (r1 @ r2) = all_aliases r1 @ all_aliases r2"
  by (simp add: all_aliases_def)

lemma all_aliases_single [simp]: "all_aliases [c] = aliases c"
  by (simp add: all_aliases_def)

lemma all_aliases_Nil [simp]: "all_aliases [] = []"
  by (simp add: all_aliases_def)

lemma wf_registry_Nil [simp]: "wf_registry []"
  by (simp add: wf_registry_def)

lemma all_aliases_Cons [simp]: "all_aliases (c # reg) = aliases c @ all_aliases reg"
  by (simp add: all_aliases_def)

text \<open>In a well-formed table an alias belongs to one command only, so the lookup
  finds that command wherever it stands in the table.\<close>

lemma lookup_distinct:
  "distinct (map lower (all_aliases reg)) \<Longrightarrow> c \<in> set reg \<Longrightarrow> has_alias c a \<Longrightarrow>
   lookup reg a = Some c"
proof (induction reg)
  case Nil
  then show ?case by simp
next
  case (Cons d reg)
  show ?case
  proof (cases "has_alias d a")
    case False
    with Cons show ?thesis by (auto simp: lookup_Cons)
  next
    case True
    have "c = d"
    proof (rule ccontr)
      assume "c \<noteq> d"
      with Cons.prems have "c \<in> set reg" by simp
      with Cons.prems(3) have "alias_taken reg a"
        by (auto simp: alias_taken_def list_ex_iff)
      then have "lower a \<in> set (map lower (all_aliases reg))"
        by (simp add: alias_taken_iff)
      moreover from True have "lower a \<in> set (map lower (aliases d))"
        by (simp add: has_alias_iff lower_in_image)
      ultimately show False
        using Cons.prems(1) by auto
    qed
    with True show ?thesis by (simp add: lookup_Cons)
  qed
qed

lemma lookup_wf:
  "wf_registry reg \<Longrightarrow> c \<in> set reg \<Longrightarrow> has_alias c a \<Longrightarrow> lookup reg a = Some c"
  by (simp add: wf_registry_def lookup_distinct)

lemma wf_registry_unique:
  assumes "wf_registry reg" and "c \<in> set reg" and "d \<in> set reg"
    and "has_alias c a" and "has_alias d a"
  shows "c = d"
  using lookup_wf [OF assms(1,2,4)] lookup_wf [OF assms(1,3,5)] by simp

lemma alias_taken_set: "alias_taken reg a \<longleftrightarrow> (\<exists>c \<in> set reg. has_alias c a)"
  by (simp add: alias_taken_def list_ex_iff)

text \<open>Two well-formed tables that hold the same commands answer every lookup alike:
  the order of registration does not show.\<close>

lemma lookup_order_independent:
  assumes "wf_registry r1" and "wf_registry r2" and "set r1 = set r2"
  shows "lookup r1 a = lookup r2 a"
proof (cases "lookup r1 a")
  case None
  then have "lookup r2 a = None"
    using assms(3) by (simp add: lookup_None_iff alias_taken_set)
  with None show ?thesis by simp
next
  case (Some c)
  then have "c \<in> set r2" and "has_alias c a"
    using assms(3) by (auto dest: lookup_Some)
  with assms(2) have "lookup r2 a = Some c" by (rule lookup_wf)
  with Some show ?thesis by simp
qed

section \<open>Registering\<close>

lemma register_invalid: "\<not> wf_command c \<Longrightarrow> register c reg = Inl InvalidCommand"
  by (simp add: register_def)

lemma register_duplicate:
  "register c reg = Inl (DuplicateAlias a) \<Longrightarrow> a \<in> set (aliases c) \<and> alias_taken reg a"
  by (auto simp: register_def split: if_splits option.splits dest: find_Some_set)

lemma register_ok_iff:
  "register c reg = Inr reg' \<longleftrightarrow>
     wf_command c \<and> list_all (\<lambda>a. \<not> alias_taken reg a) (aliases c) \<and> reg' = reg @ [c]"
  by (auto simp: register_def find_None_all list_all_iff split: option.splits dest: find_Some_set)

lemma register_wf:
  assumes "wf_registry reg" and "register c reg = Inr reg'"
  shows "wf_registry reg'"
proof -
  from assms(2) have c: "wf_command c" and free: "list_all (\<lambda>a. \<not> alias_taken reg a) (aliases c)"
    and reg': "reg' = reg @ [c]"
    by (simp_all add: register_ok_iff)
  have "x \<notin> set (map lower (all_aliases reg))" if "x \<in> set (map lower (aliases c))" for x
  proof -
    from that obtain a where "a \<in> set (aliases c)" and "x = lower a" by auto
    with free show ?thesis by (simp add: list_all_iff alias_taken_iff)
  qed
  then have "set (map lower (all_aliases reg)) \<inter> set (map lower (aliases c)) = {}"
    by blast
  with assms(1) c show ?thesis
    by (simp add: reg' wf_registry_def wf_command_def)
qed

lemma register_lookup_new:
  assumes "wf_registry reg" and "register c reg = Inr reg'" and "has_alias c a"
  shows "lookup reg' a = Some c"
proof -
  from assms(1,2) have "wf_registry reg'" by (rule register_wf)
  moreover from assms(2) have "c \<in> set reg'" by (simp add: register_ok_iff)
  ultimately show ?thesis using assms(3) by (rule lookup_wf)
qed

lemma register_lookup_old:
  assumes "register c reg = Inr reg'" and "\<not> has_alias c a"
  shows "lookup reg' a = lookup reg a"
  using assms by (auto simp: register_ok_iff lookup_append lookup_Cons split: option.splits)

lemma register_keeps_on_error: "register c reg = Inl e \<Longrightarrow> \<forall>reg'. register c reg \<noteq> Inr reg'"
  by simp

lemma register_all_wf:
  "wf_registry reg \<Longrightarrow> register_all cs reg = Inr reg' \<Longrightarrow> wf_registry reg'"
proof (induction cs reg rule: register_all.induct)
  case (1 reg)
  then show ?case by simp
next
  case (2 cs reg)
  then show ?case by simp
next
  case (3 c cs reg)
  from "3.prems"(2) obtain r where r: "register c reg = Inr r" and rest: "register_all cs r = Inr reg'"
    by (auto split: sum.splits)
  from "3.prems"(1) r have "wf_registry r" by (rule register_wf)
  with "3.IH" r rest show ?case by simp
qed

lemma register_all_single:
  "register_all [Some c] reg = register c reg"
  by (simp split: sum.splits)

section \<open>Quick commands\<close>

lemma wf_quick_command [simp]: "wf_command (quick_command alias h)"
  by (simp add: wf_command_def quick_command_def)

lemma quick_command_fields [simp]:
  "aliases (quick_command alias h) = [alias]"
  "accessLevel (quick_command alias h) = EVERYONE"
  "options (quick_command alias h) = []"
  "patterns (quick_command alias h) = [CatchAllPattern (\<lambda>e args opts. h e)]"
  by (simp_all add: quick_command_def)

lemma has_alias_quick_command [simp]: "has_alias (quick_command alias h) a \<longleftrightarrow> eq_ci alias a"
  by (simp add: has_alias_def)

lemma run_quick_command [simp]: "run_command (quick_command alias h) e ts = Invoked (h e)"
  by (simp add: run_command_def)

section \<open>The outcomes of a dispatch\<close>

lemma dispatch_tokens:
  "tokenize text = a # ts \<Longrightarrow> lookup reg a = Some c \<Longrightarrow>
   dispatch reg text who = run_command c \<lparr>raw = text, author = who\<rparr> ts"
  by (simp add: dispatch_def)

lemma dispatch_no_token: "tokenize text = [] \<Longrightarrow> dispatch reg text who = Unknown"
  by (simp add: dispatch_def)

lemma dispatch_no_command:
  "tokenize text = a # ts \<Longrightarrow> lookup reg a = None \<Longrightarrow> dispatch reg text who = Unknown"
  by (simp add: dispatch_def)

lemma dispatch_Unknown_iff:
  "dispatch reg text who = Unknown \<longleftrightarrow>
     (case tokenize text of [] \<Rightarrow> True | a # ts \<Rightarrow> lookup reg a = None)"
  by (auto simp: dispatch_def run_command_def split: list.splits option.splits prod.splits)

lemma run_command_denied_iff:
  "run_command c e ts = AccessDenied \<longleftrightarrow> \<not> allow (accessLevel c) (level (author e))"
  by (auto simp: run_command_def split: option.splits prod.splits)

lemma run_command_no_pattern_iff:
  "run_command c e ts = NoPatternMatched \<longleftrightarrow>
     allow (accessLevel c) (level (author e))
     \<and> select_pattern (patterns c) (fst (resolve (options c) ts)) = None"
  by (auto simp: run_command_def split: option.splits prod.splits)

lemma run_command_invoked_iff:
  "run_command c e ts = Invoked r \<longleftrightarrow>
     allow (accessLevel c) (level (author e))
     \<and> (\<exists>p vs. select_pattern (patterns c) (fst (resolve (options c) ts)) = Some (p, vs)
          \<and> r = pattern_handler p e vs (snd (resolve (options c) ts)))"
  by (auto simp: run_command_def split: option.splits prod.splits)

lemma run_command_never_unknown [simp]: "run_command c e ts \<noteq> Unknown"
  by (auto simp: run_command_def split: option.splits prod.splits)

text \<open>
  C26. A command with a catch-all pattern leaves no allowed sender without a
  handler: whatever the tokens after the alias, a pattern is selected and its handler
  is invoked, so such a command never answers \<open>NoPatternMatched\<close>.
\<close>

theorem run_command_total:
  assumes "total_command c" and "allow (accessLevel c) (level (author e))"
  shows "\<exists>r. run_command c e ts = Invoked r"
proof -
  from assms(1) obtain p vs
    where "select_pattern (patterns c) (fst (resolve (options c) ts)) = Some (p, vs)"
    unfolding total_command_def using select_pattern_total by blast
  with assms(2) show ?thesis
    by (auto simp: run_command_invoked_iff)
qed

theorem run_command_total_witness:
  "\<exists>r. run_command (quick_command ''yolo'' (\<lambda>e. Inr [''YOLO !'']))
      \<lparr>raw = ''yolo now'', author = \<lparr>identity = ''bob'', level = EVERYONE\<rparr>\<rparr> [''now''] = Invoked r"
  using run_command_total [of "quick_command ''yolo'' (\<lambda>e. Inr [''YOLO !''])"
      "\<lparr>raw = ''yolo now'', author = \<lparr>identity = ''bob'', level = EVERYONE\<rparr>\<rparr>" "[''now'']"]
  by (simp add: total_command_def allow_def)

lemma dispatch_lookup_cong:
  "(\<And>a. lookup r1 a = lookup r2 a) \<Longrightarrow> dispatch r1 text who = dispatch r2 text who"
  by (simp add: dispatch_def split: list.splits)

lemma dispatch_order_independent:
  "wf_registry r1 \<Longrightarrow> wf_registry r2 \<Longrightarrow> set r1 = set r2 \<Longrightarrow>
   dispatch r1 text who = dispatch r2 text who"
  by (rule dispatch_lookup_cong) (rule lookup_order_independent)

lemma run_command_marker_position:
  assumes "declared_marker (options c) m"
  shows "run_command c e (xs @ m # ys) = run_command c e (m # xs @ ys)"
  by (simp add: run_command_def resolve_marker_position [OF assms])

lemma wf_registry_single: "wf_command c \<Longrightarrow> wf_registry [c]"
  by (simp add: wf_registry_def wf_command_def)

text \<open>The gate is monotonic in the sender: who is let through stays let through
  at every level above.\<close>

lemma run_command_level_mono:
  assumes "run_command c \<lparr>raw = text, author = s1\<rparr> ts \<noteq> AccessDenied"
    and "level s1 \<le> level s2"
  shows "run_command c \<lparr>raw = text, author = s2\<rparr> ts \<noteq> AccessDenied"
  using assms by (auto simp: run_command_denied_iff intro: allow_mono)

text \<open>Raising the level a command requires changes nothing but who gets through:
  the gate is the first thing a command does and the only use of the level.\<close>

lemma run_command_accessLevel:
  "accessLevel c = EVERYONE \<Longrightarrow>
   run_command (c\<lparr>accessLevel := req\<rparr>) e ts =
     (if allow req (level (author e)) then run_command c e ts else AccessDenied)"
  by (simp add: run_command_def)

lemma lookup_single: "lookup [c] a = (if has_alias c a then Some c else None)"
  by (simp add: lookup_Cons)

section \<open>Registration and lookup\<close>

text \<open>
  C25. What is registered is found, under every capitalisation of its aliases, and
  nothing else changes: when a command is registered on a well-formed table, the new
  table is well-formed, a lookup of any of the command's aliases (compared ignoring
  case) returns the command, and every other alias resolves as it did before.
\<close>

theorem register_lookup:
  assumes "wf_registry reg" and "register c reg = Inr reg'"
  shows "wf_registry reg' \<and> lookup reg' a = (if has_alias c a then Some c else lookup reg a)"
  using assms by (simp add: register_wf register_lookup_new register_lookup_old)

theorem register_lookup_witness:
  "wf_registry [quick_command ''yolo'' (\<lambda>e. Inr [])]
   \<and> lookup [quick_command ''yolo'' (\<lambda>e. Inr [])] ''YOLO'' = Some (quick_command ''yolo'' (\<lambda>e. Inr []))
   \<and> lookup [quick_command ''yolo'' (\<lambda>e. Inr [])] ''testjs'' = None"
  using register_lookup [of "[]" "quick_command ''yolo'' (\<lambda>e. Inr [])" _ "''YOLO''"]
    register_lookup [of "[]" "quick_command ''yolo'' (\<lambda>e. Inr [])" _ "''testjs''"]
  by (simp add: register_def string_eval)

end
