(* ===== verification/Dispatch_Machine.thy ===== *)
theory Dispatch_Machine
  imports Dispatcher
begin

text \<open>
  The dispatcher as the state machine of its design: one dispatch moves from
  \<open>Received\<close> through alias resolution, the access check, the removal of flags
  and the selection of a pattern to the call of the handler, and ends in
  \<open>Completed\<close> with one of the four outcomes. \<open>dispatch_step\<close> is the step
  relation, \<open>next_state\<close> the same step as a function, \<open>run_to_end\<close> the run
  to the final state and \<open>dispatch_trace\<close> the states passed on the way.

  The theory shows that the relation is the function (so a dispatch is
  deterministic and stops only in \<open>Completed\<close>), that every run ends within six
  steps, that the final state holds exactly the outcome \<open>dispatch\<close> computes in
  one go (the function of \<open>Dispatcher\<close> is the machine run to its end), and, by
  rule induction over the steps, what is known in each phase: a handler is called
  only for a sender the gate has let through, on the pattern selected from the
  tokens left once the flags are out.
\<close>

section \<open>The phases of one dispatch\<close>

datatype dispatch_state =
    Received string sender
  | AliasResolved command event "token list"
  | AccessChecked command event "token list"
  | OptionsResolved command event "token list" "option_kind list"
  | PatternMatched command_pattern event "arg_value list" "option_kind list"
  | HandlerInvoked handler_result
  | Completed dispatch_outcome

inductive dispatch_step :: "registry \<Rightarrow> dispatch_state \<Rightarrow> dispatch_state \<Rightarrow> bool" for reg where
  no_token: "tokenize text = [] \<Longrightarrow> dispatch_step reg (Received text who) (Completed Unknown)"
| no_command: "tokenize text = a # ts \<Longrightarrow> lookup reg a = None \<Longrightarrow>
    dispatch_step reg (Received text who) (Completed Unknown)"
| resolved: "tokenize text = a # ts \<Longrightarrow> lookup reg a = Some c \<Longrightarrow>
    dispatch_step reg (Received text who) (AliasResolved c \<lparr>raw = text, author = who\<rparr> ts)"
| denied: "\<not> allow (accessLevel c) (level (author e)) \<Longrightarrow>
    dispatch_step reg (AliasResolved c e ts) (Completed AccessDenied)"
| allowed: "allow (accessLevel c) (level (author e)) \<Longrightarrow>
    dispatch_step reg (AliasResolved c e ts) (AccessChecked c e ts)"
| flags: "resolve (options c) ts = (rest, active) \<Longrightarrow>
    dispatch_step reg (AccessChecked c e ts) (OptionsResolved c e rest active)"
| no_pattern: "select_pattern (patterns c) rest = None \<Longrightarrow>
    dispatch_step reg (OptionsResolved c e rest active) (Completed NoPatternMatched)"
| matched: "select_pattern (patterns c) rest = Some (p, vs) \<Longrightarrow>
    dispatch_step reg (OptionsResolved c e rest active) (PatternMatched p e vs active)"
| invoke: "dispatch_step reg (PatternMatched p e vs active)
    (HandlerInvoked (pattern_handler p e vs active))"
| complete: "dispatch_step reg (HandlerInvoked r) (Completed (Invoked r))"

inductive_cases into_HandlerInvokedE: "dispatch_step reg s (HandlerInvoked r)"
inductive_cases into_PatternMatchedE: "dispatch_step reg s (PatternMatched p e vs active)"
inductive_cases into_OptionsResolvedE: "dispatch_step reg s (OptionsResolved c e rest active)"
inductive_cases into_AccessCheckedE: "dispatch_step reg s (AccessChecked c e ts)"

fun next_state :: "registry \<Rightarrow> dispatch_state \<Rightarrow> dispatch_state option" where
  "next_state reg (Received text who) =
     Some (case tokenize text of
             [] \<Rightarrow> Completed Unknown
           | a # ts \<Rightarrow>
               (case lookup reg a of
                  None \<Rightarrow> Completed Unknown
                | Some c \<Rightarrow> AliasResolved c \<lparr>raw = text, author = who\<rparr> ts))"
| "next_state reg (AliasResolved c e ts) =
     Some (if allow (accessLevel c) (level (author e)) then AccessChecked c e ts
           else Completed AccessDenied)"
| "next_state reg (AccessChecked c e ts) =
     Some (case resolve (options c) ts of (rest, active) \<Rightarrow> OptionsResolved c e rest active)"
| "next_state reg (OptionsResolved c e rest active) =
     Some (case select_pattern (patterns c) rest of
             None \<Rightarrow> Completed NoPatternMatched
           | Some (p, vs) \<Rightarrow> PatternMatched p e vs active)"
| "next_state reg (PatternMatched p e vs active) =
     Some (HandlerInvoked (pattern_handler p e vs active))"
| "next_state reg (HandlerInvoked r) = Some (Completed (Invoked r))"
| "next_state reg (Completed out) = None"

primrec phase :: "dispatch_state \<Rightarrow> nat" where
  "phase (Received text who) = 0"
| "phase (AliasResolved c e ts) = 1"
| "phase (AccessChecked c e ts) = 2"
| "phase (OptionsResolved c e rest active) = 3"
| "phase (PatternMatched p e vs active) = 4"
| "phase (HandlerInvoked r) = 5"
| "phase (Completed out) = 6"

function run_to_end :: "registry \<Rightarrow> dispatch_state \<Rightarrow> dispatch_state" where
  "run_to_end reg s = (case next_state reg s of None \<Rightarrow> s | Some s' \<Rightarrow> run_to_end reg s')"
  by pat_completeness auto

function dispatch_trace :: "registry \<Rightarrow> dispatch_state \<Rightarrow> dispatch_state list" where
  "dispatch_trace reg s =
     s # (case next_state reg s of None \<Rightarrow> [] | Some s' \<Rightarrow> dispatch_trace reg s')"
  by pat_completeness auto

section \<open>What each phase knows\<close>

definition resolved :: "registry \<Rightarrow> string \<Rightarrow> (command \<times> token list) option" where
  "resolved reg text =
     (case tokenize text of
        [] \<Rightarrow> None
      | a # ts \<Rightarrow> map_option (\<lambda>c. (c, ts)) (lookup reg a))"

fun state_inv :: "registry \<Rightarrow> string \<Rightarrow> sender \<Rightarrow> dispatch_state \<Rightarrow> bool" where
  "state_inv reg text who (Received t w) \<longleftrightarrow> t = text \<and> w = who"
| "state_inv reg text who (AliasResolved c e ts) \<longleftrightarrow>
     e = \<lparr>raw = text, author = who\<rparr> \<and> resolved reg text = Some (c, ts)"
| "state_inv reg text who (AccessChecked c e ts) \<longleftrightarrow>
     e = \<lparr>raw = text, author = who\<rparr> \<and> resolved reg text = Some (c, ts)
       \<and> allow (accessLevel c) (level who)"
| "state_inv reg text who (OptionsResolved c e rest active) \<longleftrightarrow>
     e = \<lparr>raw = text, author = who\<rparr> \<and> allow (accessLevel c) (level who)
       \<and> (case resolved reg text of
             None \<Rightarrow> False
           | Some (c', ts) \<Rightarrow> c' = c \<and> resolve (options c) ts = (rest, active))"
| "state_inv reg text who (PatternMatched p e vs active) \<longleftrightarrow>
     e = \<lparr>raw = text, author = who\<rparr>
       \<and> (case resolved reg text of
             None \<Rightarrow> False
           | Some (c, ts) \<Rightarrow>
               allow (accessLevel c) (level who)
                 \<and> select_pattern (patterns c) (fst (resolve (options c) ts)) = Some (p, vs)
                 \<and> snd (resolve (options c) ts) = active)"
| "state_inv reg text who (HandlerInvoked r) \<longleftrightarrow> dispatch reg text who = Invoked r"
| "state_inv reg text who (Completed out) \<longleftrightarrow> out = dispatch reg text who"

section \<open>Progress and termination\<close>

lemma phase_le: "phase s \<le> 6"
  by (cases s) simp_all

lemma next_state_phase: "next_state reg s = Some s' \<Longrightarrow> phase s < phase s'"
  by (cases s) (auto split: list.splits option.splits if_splits prod.splits)

lemma next_state_measure: "next_state reg s = Some s' \<Longrightarrow> 6 - phase s' < 6 - phase s"
  using next_state_phase [of reg s s'] phase_le [of s'] by simp

termination run_to_end
  by (relation "measure (\<lambda>(reg, s). 6 - phase s)") (simp_all add: next_state_measure)

termination dispatch_trace
  by (relation "measure (\<lambda>(reg, s). 6 - phase s)") (simp_all add: next_state_measure)

declare run_to_end.simps [simp del] dispatch_trace.simps [simp del]

section \<open>The relation is the function\<close>

lemma step_next: "dispatch_step reg s s' \<longleftrightarrow> next_state reg s = Some s'"
proof
  assume "dispatch_step reg s s'"
  then show "next_state reg s = Some s'"
    by induction simp_all
next
  assume "next_state reg s = Some s'"
  then show "dispatch_step reg s s'"
    by (cases s)
      (auto intro: dispatch_step.intros split: list.splits option.splits if_splits prod.splits)
qed

lemma step_deterministic: "dispatch_step reg s s1 \<Longrightarrow> dispatch_step reg s s2 \<Longrightarrow> s1 = s2"
  by (simp add: step_next)

lemma step_phase: "dispatch_step reg s s' \<Longrightarrow> phase s < phase s'"
  by (simp add: step_next next_state_phase)

lemma Completed_final: "\<not> dispatch_step reg (Completed out) s"
  by (simp add: step_next)

lemma step_progress: "(\<exists>s'. dispatch_step reg s s') \<longleftrightarrow> phase s < 6"
  by (cases s) (simp_all add: step_next)

text \<open>The order of the phases, read backwards: a handler is called only on a
  matched pattern, a pattern is matched only once the flags are out, the flags are
  taken out only after the gate, and the gate lets through only who it allows.\<close>

lemma handler_after_match:
  assumes "dispatch_step reg s (HandlerInvoked r)"
  obtains p e vs active where "s = PatternMatched p e vs active"
    and "r = pattern_handler p e vs active"
  using assms by (rule into_HandlerInvokedE)

lemma match_after_flags:
  assumes "dispatch_step reg s (PatternMatched p e vs active)"
  obtains c rest where "s = OptionsResolved c e rest active"
    and "select_pattern (patterns c) rest = Some (p, vs)"
  using assms by (rule into_PatternMatchedE)

lemma flags_after_gate:
  assumes "dispatch_step reg s (OptionsResolved c e rest active)"
  obtains ts where "s = AccessChecked c e ts" and "resolve (options c) ts = (rest, active)"
  using assms by (rule into_OptionsResolvedE)

lemma gate_lets_through:
  assumes "dispatch_step reg s (AccessChecked c e ts)"
  shows "s = AliasResolved c e ts \<and> allow (accessLevel c) (level (author e))"
  using assms by (rule into_AccessCheckedE) simp

section \<open>The run to the end computes \<open>dispatch\<close>\<close>

lemma run_to_end_Completed [simp]: "run_to_end reg (Completed out) = Completed out"
  by (simp add: run_to_end.simps)

lemma run_to_end_next: "next_state reg s = Some s' \<Longrightarrow> run_to_end reg s = run_to_end reg s'"
  by (subst run_to_end.simps) simp

lemma run_to_end_HandlerInvoked [simp]: "run_to_end reg (HandlerInvoked r) = Completed (Invoked r)"
  by (simp add: run_to_end_next [of reg _ "Completed (Invoked r)"])

lemma run_to_end_PatternMatched [simp]:
  "run_to_end reg (PatternMatched p e vs active) = Completed (Invoked (pattern_handler p e vs active))"
  by (simp add: run_to_end_next [of reg _ "HandlerInvoked (pattern_handler p e vs active)"])

lemma run_to_end_AliasResolved [simp]:
  "run_to_end reg (AliasResolved c e ts) = Completed (run_command c e ts)"
proof -
  have "run_to_end reg (OptionsResolved c e rest active) =
      Completed (case select_pattern (patterns c) rest of None \<Rightarrow> NoPatternMatched
        | Some (p, vs) \<Rightarrow> Invoked (pattern_handler p e vs active))" for rest active
    by (subst run_to_end.simps) (simp split: option.splits)
  then have "run_to_end reg (AccessChecked c e ts) =
      Completed (case resolve (options c) ts of (rest, active) \<Rightarrow>
        (case select_pattern (patterns c) rest of None \<Rightarrow> NoPatternMatched
        | Some (p, vs) \<Rightarrow> Invoked (pattern_handler p e vs active)))"
    by (subst run_to_end.simps) (simp split: prod.splits)
  then show ?thesis
    by (subst run_to_end.simps) (simp add: run_command_def)
qed

lemma run_to_end_Received: "run_to_end reg (Received text who) = Completed (dispatch reg text who)"
  by (subst run_to_end.simps) (simp add: dispatch_def split: list.splits option.splits)

lemma reaches_run_to_end: "rtranclp (dispatch_step reg) s (run_to_end reg s)"
proof (induction reg s rule: run_to_end.induct)
  case (1 reg s)
  show ?case
  proof (cases "next_state reg s")
    case None
    then show ?thesis by (simp add: run_to_end.simps [of reg s])
  next
    case (Some s')
    with 1 have "rtranclp (dispatch_step reg) s' (run_to_end reg s')" by simp
    moreover from Some have "dispatch_step reg s s'" by (simp add: step_next)
    ultimately show ?thesis
      using Some by (simp add: run_to_end_next converse_rtranclp_into_rtranclp)
  qed
qed

lemma reaches_run_to_end_eq:
  "rtranclp (dispatch_step reg) s s' \<Longrightarrow> run_to_end reg s' = run_to_end reg s"
  by (induction rule: rtranclp_induct) (simp_all add: step_next run_to_end_next)

lemma reaches_Completed_iff:
  "rtranclp (dispatch_step reg) (Received text who) (Completed out) \<longleftrightarrow> out = dispatch reg text who"
proof
  assume "rtranclp (dispatch_step reg) (Received text who) (Completed out)"
  from reaches_run_to_end_eq [OF this] show "out = dispatch reg text who"
    by (simp add: run_to_end_Received)
next
  assume "out = dispatch reg text who"
  with reaches_run_to_end [of reg "Received text who"]
  show "rtranclp (dispatch_step reg) (Received text who) (Completed out)"
    by (simp add: run_to_end_Received)
qed

section \<open>The invariant of a run\<close>

lemma resolved_Some:
  "resolved reg text = Some (c, ts) \<longleftrightarrow> (\<exists>a. tokenize text = a # ts \<and> lookup reg a = Some c)"
  by (auto simp: resolved_def split: list.splits)

lemma dispatch_resolved:
  "dispatch reg text who =
     (case resolved reg text of
        None \<Rightarrow> Unknown
      | Some (c, ts) \<Rightarrow> run_command c \<lparr>raw = text, author = who\<rparr> ts)"
  by (simp add: dispatch_def resolved_def split: list.splits option.splits)

lemma state_inv_step:
  "dispatch_step reg s s' \<Longrightarrow> state_inv reg text who s \<Longrightarrow> state_inv reg text who s'"
proof (induction rule: dispatch_step.induct)
  case (no_token text' who')
  then show ?case by (simp add: dispatch_def)
next
  case (no_command text' a ts who')
  then show ?case by (simp add: dispatch_def)
next
  case (resolved text' a ts c who')
  then show ?case by (simp add: resolved_Some)
next
  case (denied c e ts)
  then show ?case by (simp add: dispatch_resolved run_command_def)
next
  case (no_pattern c rest e active)
  then show ?case
    by (auto simp: dispatch_resolved run_command_def split: option.splits prod.splits)
next
  case (invoke p e vs active)
  then show ?case
    by (auto simp: dispatch_resolved run_command_def split: option.splits prod.splits)
qed (auto split: option.splits)

lemma reaches_inv:
  "rtranclp (dispatch_step reg) (Received text who) s \<Longrightarrow> state_inv reg text who s"
  by (induction rule: rtranclp_induct) (simp_all add: state_inv_step)

lemma reaches_HandlerInvoked:
  "rtranclp (dispatch_step reg) (Received text who) (HandlerInvoked r) \<Longrightarrow>
   dispatch reg text who = Invoked r"
  by (drule reaches_inv) simp

lemma lookup_mem: "lookup reg a = Some c \<Longrightarrow> c \<in> set reg"
  by (simp add: lookup_def find_Some_set)

text \<open>The gate comes first: when the sender is refused by every command of the
  table, no run gets past the alias, so no flag is taken out, no pattern is tried
  and no handler runs.\<close>

lemma refused_stops:
  assumes "rtranclp (dispatch_step reg) (Received text who) s"
    and "\<forall>c \<in> set reg. \<not> allow (accessLevel c) (level who)"
  shows "phase s \<le> 1 \<or> s = Completed Unknown \<or> s = Completed AccessDenied"
proof -
  have r: "\<not> allow (accessLevel c) (level who)" if "resolved reg text = Some (c, ts)" for c ts
    using that assms(2) by (auto simp: resolved_Some dest: lookup_mem)
  from assms(1) have "state_inv reg text who s"
    by (rule reaches_inv)
  then show ?thesis
    using r by (cases s) (auto simp: dispatch_resolved run_command_def split: option.splits)
qed

section \<open>The states a run passes through\<close>

lemma dispatch_trace_not_Nil [simp]: "dispatch_trace reg s \<noteq> []"
  by (subst dispatch_trace.simps) simp

lemma dispatch_trace_Completed [simp]: "dispatch_trace reg (Completed out) = [Completed out]"
  by (simp add: dispatch_trace.simps)

lemma dispatch_trace_next:
  "next_state reg s = Some s' \<Longrightarrow> dispatch_trace reg s = s # dispatch_trace reg s'"
  by (subst dispatch_trace.simps) simp

lemma dispatch_trace_length: "length (dispatch_trace reg s) + phase s \<le> 7"
proof (induction reg s rule: dispatch_trace.induct)
  case (1 reg s)
  show ?case
  proof (cases "next_state reg s")
    case None
    with phase_le [of s] show ?thesis by (simp add: dispatch_trace.simps [of reg s])
  next
    case (Some s')
    with 1 next_state_phase [OF Some] show ?thesis
      by (simp add: dispatch_trace_next)
  qed
qed

lemma dispatch_trace_last: "last (dispatch_trace reg s) = run_to_end reg s"
proof (induction reg s rule: dispatch_trace.induct)
  case (1 reg s)
  show ?case
  proof (cases "next_state reg s")
    case None
    then show ?thesis
      by (simp add: dispatch_trace.simps [of reg s] run_to_end.simps [of reg s])
  next
    case (Some s')
    with 1 show ?thesis
      by (simp add: dispatch_trace_next run_to_end_next)
  qed
qed

lemma dispatch_bounded: "length (dispatch_trace reg (Received text who)) \<le> 7"
  using dispatch_trace_length [of reg "Received text who"] by simp

text \<open>The number of states a run passes is fixed by its outcome: two when no command
  is found, three when the gate refuses, five when no pattern matches, and all
  seven when a handler is called.\<close>

lemma dispatch_trace_length_outcome:
  "length (dispatch_trace reg (Received text who)) =
     (case dispatch reg text who of
        Unknown \<Rightarrow> 2 | AccessDenied \<Rightarrow> 3 | NoPatternMatched \<Rightarrow> 5 | Invoked r \<Rightarrow> 7)"
  by (simp add: dispatch_trace.simps [of reg "Received text who"]
      dispatch_trace.simps [of reg "AliasResolved c e ts" for c e ts]
      dispatch_trace.simps [of reg "AccessChecked c e ts" for c e ts]
      dispatch_trace.simps [of reg "OptionsResolved c e ts a" for c e ts a]
      dispatch_trace.simps [of reg "PatternMatched c e ts a" for c e ts a]
      dispatch_trace.simps [of reg "HandlerInvoked r" for r]
      dispatch_def run_command_def split: list.splits option.splits prod.splits)

lemma dispatch_trace_ends:
  "last (dispatch_trace reg (Received text who)) = Completed (dispatch reg text who)"
  by (simp add: dispatch_trace_last run_to_end_Received)

end
