(* ===== verification/Module_Host.thy ===== *)
theory Module_Host
  imports Prelude
begin

text \<open>
  What a script module is to the host: its \<open>ModuleInfo\<close> (the five constructor
  arguments of \<open>new ModuleInfo("TestModule", "Author", "URL", "1.0", 1)\<close>) and its
  two lifecycle hooks. A script builds its module by overriding members of a base
  module (\<open>Java.extend(BaseJavaScriptModule, {...})\<close>); a member it does not
  override keeps the base's. Here a module is a record and the override a record
  update. The base modules are Java classes that are not under \<open>src/\<close>: the base
  is an argument of every module a script defines, and nothing is assumed of what its
  hooks do. \<open>silent_module\<close>, whose hooks do nothing, is one possible base; it
  serves as the instance in examples.

  Everything a hook of the example scripts does is write a line: to a named logger
  (\<open>LOG.info\<close>) or to the console (\<open>console.log\<close>, \<open>console.error\<close>). The
  lines are kept in one ordered trace, so a hook is a function from trace to trace.
  The host calls \<open>onLoad(moduleManager, builder)\<close> and \<open>onUnload()\<close>. What
  the module manager and the builder are is the host's business, so their types are
  the parameters \<open>'m\<close> and \<open>'b\<close> of the module type; a script function
  declared with fewer parameters than the host passes ignores the rest, as in
  JavaScript.
\<close>

section \<open>The trace of emitted lines\<close>

datatype out_line = LogInfo string string | ConsoleLog string | ConsoleError string

type_synonym trace = "out_line list"

definition log_info :: "string \<Rightarrow> string \<Rightarrow> trace \<Rightarrow> trace" where
  "log_info logger msg tr = tr @ [LogInfo logger msg]"

definition console_log :: "string \<Rightarrow> trace \<Rightarrow> trace" where
  "console_log v tr = tr @ [ConsoleLog v]"

definition console_error :: "string \<Rightarrow> trace \<Rightarrow> trace" where
  "console_error v tr = tr @ [ConsoleError v]"

section \<open>Modules\<close>

record module_info =
  mod_name :: string
  mod_author :: string
  mod_url :: string
  mod_version :: string
  mod_build :: int

definition ModuleInfo :: "string \<Rightarrow> string \<Rightarrow> string \<Rightarrow> string \<Rightarrow> int \<Rightarrow> module_info" where
  "ModuleInfo n a u v b =
     \<lparr>mod_name = n, mod_author = a, mod_url = u, mod_version = v, mod_build = b\<rparr>"

record ('m, 'b) js_module =
  info :: "module_info option"
  onLoad :: "'m \<Rightarrow> 'b \<Rightarrow> trace \<Rightarrow> trace"
  onUnload :: "trace \<Rightarrow> trace"

definition silent_module :: "('m, 'b) js_module" where
  "silent_module =
     \<lparr>info = None, onLoad = (\<lambda>moduleManager builder tr. tr), onUnload = (\<lambda>tr. tr)\<rparr>"

section \<open>The lifecycle the host drives\<close>

datatype ('m, 'b) lifecycle = is_Load: Load 'm 'b | Unload

primrec hook :: "('m, 'b) js_module \<Rightarrow> ('m, 'b) lifecycle \<Rightarrow> trace \<Rightarrow> trace" where
  "hook m (Load moduleManager builder) = onLoad m moduleManager builder"
| "hook m Unload = onUnload m"

primrec run_lifecycle ::
  "('m, 'b) js_module \<Rightarrow> ('m, 'b) lifecycle list \<Rightarrow> trace \<Rightarrow> trace" where
  "run_lifecycle m [] tr = tr"
| "run_lifecycle m (ev # evs) tr = run_lifecycle m evs (hook m ev tr)"

declare log_info_def [engine_defs] console_log_def [engine_defs] console_error_def [engine_defs]

section \<open>Facts\<close>

lemma ModuleInfo_fields [simp]:
  "mod_name (ModuleInfo n a u v b) = n"
  "mod_author (ModuleInfo n a u v b) = a"
  "mod_url (ModuleInfo n a u v b) = u"
  "mod_version (ModuleInfo n a u v b) = v"
  "mod_build (ModuleInfo n a u v b) = b"
  by (simp_all add: ModuleInfo_def)

lemma silent_module_hooks [simp]:
  "info silent_module = None"
  "onLoad silent_module moduleManager builder tr = tr"
  "onUnload silent_module tr = tr"
  by (simp_all add: silent_module_def)

lemma run_lifecycle_append:
  "run_lifecycle m (evs @ evs') tr = run_lifecycle m evs' (run_lifecycle m evs tr)"
  by (induction evs arbitrary: tr) simp_all

text \<open>A module whose hooks only append lines leaves a trace that is the old trace
  followed by what each event wrote, in the order of the events.\<close>

lemma run_lifecycle_appending:
  assumes "\<And>ev tr. hook m ev tr = tr @ f ev"
  shows "run_lifecycle m evs tr = tr @ concat (map f evs)"
  by (induction evs arbitrary: tr) (simp_all add: assms)

lemma run_lifecycle_silent [simp]: "run_lifecycle silent_module evs tr = tr"
proof (induction evs)
  case Nil
  show ?case by simp
next
  case (Cons ev evs)
  then show ?case by (cases ev) simp_all
qed

end
