(* ===== verification/Async_Action.thy ===== *)
theory Async_Action
  imports Prelude
begin

text \<open>
  The chainable result object a reply returns, and that \<open>src/example/main.js\<close>
  listens to with \<open>.then\<close> and \<open>.catch\<close>. An action is pending, resolved
  with a value or rejected with an error; while it is pending it holds the success
  and the failure continuations in the order they were registered. Settling fires
  the continuations of the matching kind in that order and drops the others; a
  second settle changes nothing; registering on a settled action fires the
  continuation at once if its kind matches and drops it otherwise.

  A continuation acts on a world \<open>'w\<close> (for the scripts: the trace of emitted
  lines), so every operation takes and returns the action together with the world.
  \<open>async_step\<close> is the step function over the four operations, \<open>reachable\<close> the
  states a new action can get to.
\<close>

section \<open>The state\<close>

datatype ('v, 'e) async_state = Pending | Resolved 'v | Rejected 'e

record ('v, 'e, 'w) async_action =
  state :: "('v, 'e) async_state"
  on_success :: "('v \<Rightarrow> 'w \<Rightarrow> 'w) list"
  on_failure :: "('e \<Rightarrow> 'w \<Rightarrow> 'w) list"

definition new_action :: "('v, 'e, 'w) async_action" where
  "new_action = \<lparr>state = Pending, on_success = [], on_failure = []\<rparr>"

definition settled :: "('v, 'e, 'w) async_action \<Rightarrow> bool" where
  "settled a \<longleftrightarrow> state a \<noteq> Pending"

section \<open>The operations\<close>

definition fire :: "('x \<Rightarrow> 'w \<Rightarrow> 'w) list \<Rightarrow> 'x \<Rightarrow> 'w \<Rightarrow> 'w" where
  "fire ks x w = foldl (\<lambda>w k. k x w) w ks"

definition onSuccess ::
  "('v \<Rightarrow> 'w \<Rightarrow> 'w) \<Rightarrow> ('v, 'e, 'w) async_action \<times> 'w \<Rightarrow> ('v, 'e, 'w) async_action \<times> 'w" where
  "onSuccess k aw =
     (case aw of (a, w) \<Rightarrow>
        (case state a of
           Pending \<Rightarrow> (a\<lparr>on_success := on_success a @ [k]\<rparr>, w)
         | Resolved v \<Rightarrow> (a, k v w)
         | Rejected e \<Rightarrow> (a, w)))"

definition onFailure ::
  "('e \<Rightarrow> 'w \<Rightarrow> 'w) \<Rightarrow> ('v, 'e, 'w) async_action \<times> 'w \<Rightarrow> ('v, 'e, 'w) async_action \<times> 'w" where
  "onFailure k aw =
     (case aw of (a, w) \<Rightarrow>
        (case state a of
           Pending \<Rightarrow> (a\<lparr>on_failure := on_failure a @ [k]\<rparr>, w)
         | Resolved v \<Rightarrow> (a, w)
         | Rejected e \<Rightarrow> (a, k e w)))"

definition resolve_action ::
  "'v \<Rightarrow> ('v, 'e, 'w) async_action \<times> 'w \<Rightarrow> ('v, 'e, 'w) async_action \<times> 'w" where
  "resolve_action v aw =
     (case aw of (a, w) \<Rightarrow>
        (case state a of
           Pending \<Rightarrow> (\<lparr>state = Resolved v, on_success = [], on_failure = []\<rparr>,
                       fire (on_success a) v w)
         | _ \<Rightarrow> (a, w)))"

definition reject_action ::
  "'e \<Rightarrow> ('v, 'e, 'w) async_action \<times> 'w \<Rightarrow> ('v, 'e, 'w) async_action \<times> 'w" where
  "reject_action e aw =
     (case aw of (a, w) \<Rightarrow>
        (case state a of
           Pending \<Rightarrow> (\<lparr>state = Rejected e, on_success = [], on_failure = []\<rparr>,
                       fire (on_failure a) e w)
         | _ \<Rightarrow> (a, w)))"

section \<open>The machine\<close>

datatype ('v, 'e, 'w) async_op =
    OnSuccess "'v \<Rightarrow> 'w \<Rightarrow> 'w"
  | OnFailure "'e \<Rightarrow> 'w \<Rightarrow> 'w"
  | Resolve 'v
  | Reject 'e

primrec async_step ::
  "('v, 'e, 'w) async_op \<Rightarrow> ('v, 'e, 'w) async_action \<times> 'w \<Rightarrow> ('v, 'e, 'w) async_action \<times> 'w" where
  "async_step (OnSuccess k) = onSuccess k"
| "async_step (OnFailure k) = onFailure k"
| "async_step (Resolve v) = resolve_action v"
| "async_step (Reject e) = reject_action e"

primrec run_ops ::
  "('v, 'e, 'w) async_op list \<Rightarrow> ('v, 'e, 'w) async_action \<times> 'w \<Rightarrow> ('v, 'e, 'w) async_action \<times> 'w" where
  "run_ops [] aw = aw"
| "run_ops (op # ops) aw = run_ops ops (async_step op aw)"

inductive reachable :: "('v, 'e, 'w) async_action \<Rightarrow> bool" where
  fresh: "reachable new_action"
| step: "reachable a \<Longrightarrow> reachable (fst (async_step op (a, w)))"

definition async_inv :: "('v, 'e, 'w) async_action \<Rightarrow> bool" where
  "async_inv a \<longleftrightarrow> (settled a \<longrightarrow> on_success a = [] \<and> on_failure a = [])"

primrec is_settle :: "('v, 'e, 'w) async_op \<Rightarrow> bool" where
  "is_settle (OnSuccess k) = False"
| "is_settle (OnFailure k) = False"
| "is_settle (Resolve v) = True"
| "is_settle (Reject e) = True"

definition success_conts :: "('v, 'e, 'w) async_op list \<Rightarrow> ('v \<Rightarrow> 'w \<Rightarrow> 'w) list" where
  "success_conts ops = concat (map (\<lambda>op. case op of OnSuccess k \<Rightarrow> [k] | _ \<Rightarrow> []) ops)"

definition failure_conts :: "('v, 'e, 'w) async_op list \<Rightarrow> ('e \<Rightarrow> 'w \<Rightarrow> 'w) list" where
  "failure_conts ops = concat (map (\<lambda>op. case op of OnFailure k \<Rightarrow> [k] | _ \<Rightarrow> []) ops)"

lemmas async_defs [engine_defs] =
  new_action_def settled_def fire_def onSuccess_def onFailure_def resolve_action_def
  reject_action_def

section \<open>Firing\<close>

lemma fire_Nil [simp]: "fire [] x w = w"
  by (simp add: fire_def)

lemma fire_Cons [simp]: "fire (k # ks) x w = fire ks x (k x w)"
  by (simp add: fire_def)

lemma fire_append [simp]: "fire (ks @ ks') x w = fire ks' x (fire ks x w)"
  by (simp add: fire_def)

lemma success_conts_simps [simp]:
  "success_conts [] = []"
  "success_conts (OnSuccess k # ops) = k # success_conts ops"
  "success_conts (OnFailure k' # ops) = success_conts ops"
  "success_conts (Resolve v # ops) = success_conts ops"
  "success_conts (Reject e # ops) = success_conts ops"
  "success_conts (ops @ ops') = success_conts ops @ success_conts ops'"
  by (simp_all add: success_conts_def)

lemma failure_conts_simps [simp]:
  "failure_conts [] = []"
  "failure_conts (OnSuccess k # ops) = failure_conts ops"
  "failure_conts (OnFailure k' # ops) = k' # failure_conts ops"
  "failure_conts (Resolve v # ops) = failure_conts ops"
  "failure_conts (Reject e # ops) = failure_conts ops"
  "failure_conts (ops @ ops') = failure_conts ops @ failure_conts ops'"
  by (simp_all add: failure_conts_def)

section \<open>Steps\<close>

lemma run_ops_append [simp]: "run_ops (ops @ ops') aw = run_ops ops' (run_ops ops aw)"
  by (induction ops arbitrary: aw) simp_all

lemma async_step_state:
  "settled a \<Longrightarrow> state (fst (async_step op (a, w))) = state a"
  by (cases op; cases "state a") (simp_all add: async_defs)

lemma async_step_settled_action:
  "settled a \<Longrightarrow> fst (async_step op (a, w)) = a"
  by (cases op; cases "state a") (simp_all add: async_defs)

text \<open>Once settled, an action holds no continuation: what was registered has
  fired or was dropped, so nothing can fire a second time.\<close>

lemma async_step_inv: "async_inv a \<Longrightarrow> async_inv (fst (async_step op (a, w)))"
  by (cases op; cases "state a") (simp_all add: async_inv_def async_defs)

lemma reachable_inv: "reachable a \<Longrightarrow> async_inv a"
  by (induction rule: reachable.induct) (simp_all add: async_step_inv, simp add: async_inv_def async_defs)

lemma settle_twice_resolve:
  "settled a \<Longrightarrow> resolve_action v (a, w) = (a, w)"
  by (cases "state a") (simp_all add: async_defs)

lemma settle_twice_reject:
  "settled a \<Longrightarrow> reject_action e (a, w) = (a, w)"
  by (cases "state a") (simp_all add: async_defs)

section \<open>Runs\<close>

lemma run_ops_pending:
  "state a = Pending \<Longrightarrow> list_all (\<lambda>op. \<not> is_settle op) ops \<Longrightarrow>
   run_ops ops (a, w) =
     (a\<lparr>on_success := on_success a @ success_conts ops,
        on_failure := on_failure a @ failure_conts ops\<rparr>, w)"
proof (induction ops arbitrary: a)
  case Nil
  then show ?case by simp
next
  case (Cons op ops)
  then show ?case by (cases op) (simp_all add: async_defs)
qed

lemma run_ops_resolved:
  "state a = Resolved v \<Longrightarrow> run_ops ops (a, w) = (a, fire (success_conts ops) v w)"
proof (induction ops arbitrary: w)
  case Nil
  then show ?case by simp
next
  case (Cons op ops)
  then show ?case by (cases op) (simp_all add: async_defs)
qed

lemma run_ops_rejected:
  "state a = Rejected e \<Longrightarrow> run_ops ops (a, w) = (a, fire (failure_conts ops) e w)"
proof (induction ops arbitrary: w)
  case Nil
  then show ?case by simp
next
  case (Cons op ops)
  then show ?case by (cases op) (simp_all add: async_defs)
qed

text \<open>A run that settles a new action: the continuations of the matching kind
  fire once each, in the order they were registered, whether they were registered
  before the action settled or after.\<close>

lemma resolve_fires_in_order:
  assumes "list_all (\<lambda>op. \<not> is_settle op) pre"
  shows "run_ops (pre @ Resolve v # post) (new_action, w) =
    (\<lparr>state = Resolved v, on_success = [], on_failure = []\<rparr>,
     fire (success_conts (pre @ post)) v w)"
  using assms
  by (simp add: run_ops_pending new_action_def resolve_action_def run_ops_resolved)

lemma reject_fires_in_order:
  assumes "list_all (\<lambda>op. \<not> is_settle op) pre"
  shows "run_ops (pre @ Reject e # post) (new_action, w) =
    (\<lparr>state = Rejected e, on_success = [], on_failure = []\<rparr>,
     fire (failure_conts (pre @ post)) e w)"
  using assms
  by (simp add: run_ops_pending new_action_def reject_action_def run_ops_rejected)

lemma run_ops_settled:
  "settled a \<Longrightarrow> list_all is_settle ops \<Longrightarrow> run_ops ops (a, w) = (a, w)"
proof (induction ops)
  case Nil
  show ?case by simp
next
  case (Cons op ops)
  then show ?case
    by (cases op) (simp_all add: settle_twice_resolve settle_twice_reject)
qed

lemma settle_only_conts:
  "list_all is_settle ops \<Longrightarrow> success_conts ops = [] \<and> failure_conts ops = []"
proof (induction ops)
  case Nil
  show ?case by simp
next
  case (Cons op ops)
  then show ?case by (cases op) simp_all
qed

lemma reachable_run_ops: "reachable a \<Longrightarrow> reachable (fst (run_ops ops (a, w)))"
proof (induction ops arbitrary: a w)
  case Nil
  then show ?case by simp
next
  case (Cons op ops)
  from Cons.prems have "reachable (fst (async_step op (a, w)))"
    by (rule reachable.step)
  then have "reachable (fst (run_ops ops (fst (async_step op (a, w)), snd (async_step op (a, w)))))"
    by (rule Cons.IH)
  then show ?case by simp
qed

text \<open>What the world sees of a pending action that is settled and then settled
  again any number of times: the continuations of the first settle, fired once.\<close>

lemma run_ops_after_resolve:
  "state a = Pending \<Longrightarrow> list_all is_settle post \<Longrightarrow>
   snd (run_ops post (resolve_action v (a, w))) = fire (on_success a) v w"
  by (simp add: resolve_action_def run_ops_settled settled_def)

lemma run_ops_after_reject:
  "state a = Pending \<Longrightarrow> list_all is_settle post \<Longrightarrow>
   snd (run_ops post (reject_action e (a, w))) = fire (on_failure a) e w"
  by (simp add: reject_action_def run_ops_settled settled_def)

end
