(* ===== verification/Spec_Scenarios.thy ===== *)
theory Spec_Scenarios
  imports Dispatcher Async_Action
begin

text \<open>
  The scenarios the design of the engine gives as its own tests, each proved of the
  engine as modelled here for an arbitrary handler: alias lookup ignoring capitals,
  the order of patterns, runs of whitespace, the position of a flag, the order of
  continuations, the three end-to-end dispatches of a command \<open>add\<close> with the
  pattern \<open>item\<close> followed by a string, and a parse failure of a typed matcher
  that sends the selection on to the next pattern. They tie the definitions of the engine
  theories, which have no source file under \<open>src/\<close>, to the behaviour the design
  states by example.
\<close>

section \<open>The command of the end-to-end scenarios\<close>

definition add_item :: "access_level \<Rightarrow> handler \<Rightarrow> command" where
  "add_item required h =
     \<lparr>aliases = [''add''], description = [], shortDescription = [],
      accessLevel = required, options = [FORCE],
      patterns = [CommandPattern [ForString ''item'', STRING] h]\<rparr>"

lemmas scenario_eval =
  dispatch_def tokenize_def lookup_single has_alias_def run_command_def add_item_def
  resolve_def is_marker_def FORCE_def allow_def access_level_ord string_eval

section \<open>The scenarios\<close>

lemma scenario_alias_capitals:
  "dispatch [quick_command ''yolo'' h] ''YOLO'' who = Invoked (h \<lparr>raw = ''YOLO'', author = who\<rparr>)"
  by (simp add: dispatch_def tokenize_def lookup_single run_quick_command string_eval)

lemma scenario_pattern_order:
  "select_pattern [CommandPattern [ForString ''add'', STRING] h1, CatchAllPattern h2] [''add'', ''bob'']
     = Some (CommandPattern [ForString ''add'', STRING] h1, [AStr ''bob''])"
  "select_pattern [CommandPattern [ForString ''add'', STRING] h1, CatchAllPattern h2] [''remove'']
     = Some (CatchAllPattern h2, [])"
  by (simp_all add: string_eval)

lemma scenario_whitespace:
  "tokenize ''a   b'' = [''a'', ''b'']" "tokenize ''a b'' = [''a'', ''b'']"
  by (simp_all add: tokenize_def string_eval)

lemma scenario_flag_position:
  "resolve [FORCE] [''--force'', ''add'', ''bob''] = ([''add'', ''bob''], [FORCE])"
  "resolve [FORCE] [''add'', ''--force'', ''bob''] = ([''add'', ''bob''], [FORCE])"
  by (simp_all add: resolve_def is_marker_def FORCE_def)

lemma scenario_continuations:
  "snd (run_ops [OnSuccess cb1, OnSuccess cb2, Resolve v] (new_action, w)) = cb2 v (cb1 v w)"
  by (simp add: async_defs)

lemma scenario_add_item_sword:
  "dispatch [add_item EVERYONE h] ''add item sword'' who
     = Invoked (h \<lparr>raw = ''add item sword'', author = who\<rparr> [AStr ''sword''] [])"
  by (simp add: scenario_eval)

lemma scenario_add_item_missing:
  "dispatch [add_item EVERYONE h] ''add item'' who = NoPatternMatched"
  by (simp add: scenario_eval)

lemma scenario_admin_only:
  "level who = EVERYONE \<Longrightarrow> dispatch [add_item ADMIN h] ''add item sword'' who = AccessDenied"
  by (simp add: scenario_eval)

text \<open>A typed matcher that cannot parse its token disqualifies its pattern and no
  more: the next pattern is tried, and only when none is left is there no match.\<close>

lemma scenario_parse_failure:
  "select_pattern [CommandPattern [INTEGER] h1, CommandPattern [USER dir] h2, CatchAllPattern h3] [''42'']
     = Some (CommandPattern [INTEGER] h1, [AInt 42])"
  "dir ''bob'' = Some u \<Longrightarrow>
   select_pattern [CommandPattern [INTEGER] h1, CommandPattern [USER dir] h2] [''bob'']
     = Some (CommandPattern [USER dir] h2, [AUser u])"
  "dir ''eve'' = None \<Longrightarrow>
   select_pattern [CommandPattern [INTEGER] h1, CommandPattern [USER dir] h2] [''eve''] = None"
  by (simp_all add: parse_int_def parse_nat_def is_digit_def digit_chars_def digit_val_def upt_rec)

end
