(* ===== verification/Script_Header.thy ===== *)
theory Script_Header
  imports Prelude
begin

text \<open>
  The script \<open>src/example/scripts/_script_header.js\<close>, the header of the
  example scripts: three Java types bound to script variables by their qualified
  class names, and two package importers, the objects of the \<open>with\<close> blocks of
  the example scripts. The script is declarations only, and they are data here: a
  class name is a string and an importer the list of its packages, in the order the
  script gives them. How the runtime finds a class for a name is not in \<open>src/\<close>
  and is not modelled; where a theory needs the class behind a name it takes the
  loading as a parameter (\<open>Script_Scope\<close>).
\<close>

section \<open>The bindings\<close>

definition BaseJavaScriptModule_type :: string where
  "BaseJavaScriptModule_type =
     ''com.jesus_crie.modularbot_nashorn_support.module.BaseJavaScriptModule''"

definition ModuleInfo_type :: string where
  "ModuleInfo_type = ''com.jesus_crie.modularbot.module.BaseModule.ModuleInfo''"

definition baseImports :: "string list" where
  "baseImports =
     [''java.lang'', ''java.util'', ''java.io'', ''org.slf4j'', ''com.jesus_crie.modularbot'']"

definition JavaScriptCommandArray_type :: string where
  "JavaScriptCommandArray_type =
     ''com.jesus_crie.modularbot_nashorn_command_support.JavaScriptCommand[]''"

definition commandImports :: "string list" where
  "commandImports =
     [''com.jesus_crie.modularbot_nashorn_command_support'',
      ''com.jesus_crie.modularbot_command'',
      ''com.jesus_crie.modularbot_command.processing'']"

lemmas script_header_defs [script_defs] =
  BaseJavaScriptModule_type_def ModuleInfo_type_def baseImports_def
  JavaScriptCommandArray_type_def commandImports_def

end
