(* ===== verification/Test_Command.thy ===== *)
theory Test_Command
  imports Dispatcher Module_Host
begin

text \<open>
  The script \<open>src/example/scripts/testCommand.js\<close>: a module that logs one
  line when it is loaded, and the command \<open>testjs\<close> with two patterns. The first
  pattern is the literal \<open>add\<close> followed by one string and replies with that
  string; the second is the catch-all and replies \<open>Hi\<close>, or \<open>Hi, i'm force\<close>
  when the flag \<open>force\<close> is set. Each constant below is the script's constant of
  the same name (with the suffix \<open>_cmd\<close> where another script uses the name too).

  \<open>testjs_reply\<close> is the specification of the command: the reply as a function of
  the tokens after the alias. The theorems show that the command computes it for
  every sender and every message, that its handlers never fail, and what that means
  for the concrete shapes of message a user types.
\<close>

section \<open>The module\<close>

definition LOG_cmd :: string where
  "LOG_cmd = ''TestJSModule''"

definition TestModule_cmd :: "('m, 'b) js_module \<Rightarrow> ('m, 'b) js_module" where
  "TestModule_cmd BaseJavaScriptModule = BaseJavaScriptModule
     \<lparr>info := Some (ModuleInfo ''TestModule'' ''Author'' ''URL'' ''1.0'' 1),
      onLoad := (\<lambda>moduleManager builder. log_info LOG_cmd ''TestJSCmd loaded !'')\<rparr>"

definition getModule_cmd :: "('m, 'b) js_module \<Rightarrow> ('m, 'b) js_module" where
  "getModule_cmd BaseJavaScriptModule = TestModule_cmd BaseJavaScriptModule"

section \<open>The command\<close>

definition add_action :: handler where
  "add_action event args opts =
     (case arg_at args 0 of
        Inl err \<Rightarrow> Inl err
      | Inr v \<Rightarrow> fastReply event (''You wan to add: '' @ toString v))"

definition hi_action :: handler where
  "hi_action event args opts =
     (if has opts ''force'' then fastReply event ''Hi, i'm force''
      else fastReply event ''Hi'')"

definition testJSCommand :: command where
  "testJSCommand =
     \<lparr>aliases = [''testjs''],
      description = ''Hey'',
      shortDescription = ''yo'',
      accessLevel = EVERYONE,
      options = [FORCE],
      patterns =
        [CommandPattern [ForString ''add'', STRING] add_action,
         CatchAllPattern hi_action]\<rparr>"

definition getCommands :: "command option list" where
  "getCommands = (replicate 1 None)[0 := Some testJSCommand]"

lemmas test_command_defs [script_defs] =
  LOG_cmd_def TestModule_cmd_def getModule_cmd_def add_action_def hi_action_def
  testJSCommand_def getCommands_def

section \<open>The specification of \<open>testjs\<close>\<close>

definition force_marker :: "token \<Rightarrow> bool" where
  "force_marker t \<longleftrightarrow> t = ''--force'' \<or> t = ''-f''"

definition hi_reply :: "token list \<Rightarrow> string" where
  "hi_reply ts = (if list_ex force_marker ts then ''Hi, i'm force'' else ''Hi'')"

definition testjs_reply :: "token list \<Rightarrow> string" where
  "testjs_reply ts =
     (case filter (\<lambda>t. \<not> force_marker t) ts of
        [x, y] \<Rightarrow> if eq_ci x ''add'' then ''You wan to add: '' @ y else hi_reply ts
      | _ \<Rightarrow> hi_reply ts)"

section \<open>The fields of the command\<close>

lemma testJSCommand_fields [simp]:
  "aliases testJSCommand = [''testjs'']"
  "accessLevel testJSCommand = EVERYONE"
  by (simp_all add: testJSCommand_def)

lemma testJSCommand_options [simp]: "options testJSCommand = [FORCE]"
  by (simp add: testJSCommand_def)

lemma testJSCommand_patterns:
  "patterns testJSCommand =
     [CommandPattern [ForString ''add'', STRING] add_action, CatchAllPattern hi_action]"
  by (simp add: testJSCommand_def)

lemma is_marker_FORCE [simp]: "is_marker FORCE t \<longleftrightarrow> force_marker t"
  by (simp add: force_marker_def FORCE_markers)

lemma declared_marker_FORCE: "declared_marker [FORCE] t \<longleftrightarrow> force_marker t"
  by simp

lemma resolve_FORCE:
  "resolve [FORCE] ts = (filter (\<lambda>t. \<not> force_marker t) ts, if list_ex force_marker ts then [FORCE] else [])"
  by (simp add: resolve_def list_ex_iff)

lemma has_force [simp]: "has [FORCE] ''force''" "\<not> has [] ''force''"
  by (simp_all add: has_def FORCE_def)

lemma match_add_pattern:
  "match_args [ForString ''add'', STRING] ts =
     (case ts of [x, y] \<Rightarrow> if eq_ci x ''add'' then Some [AStr y] else None | _ \<Rightarrow> None)"
  by (simp split: list.splits)

lemma has_alias_testjs [simp]: "has_alias testJSCommand a \<longleftrightarrow> eq_ci a ''testjs''"
  by (auto simp: has_alias_def dest: eq_ci_sym)

section \<open>The handlers\<close>

lemma add_action_one [simp]:
  "add_action e (v # vs) opts = Inr [''You wan to add: '' @ toString v]"
  by (simp add: add_action_def fastReply_def)

lemma add_action_none [simp]: "add_action e [] opts = Inl (MissingArgument 0)"
  by (simp add: add_action_def)

lemma hi_action_reply:
  "hi_action e args opts = Inr [if has opts ''force'' then ''Hi, i'm force'' else ''Hi'']"
  by (simp add: hi_action_def fastReply_def)

section \<open>Well-formedness\<close>

lemma wf_testJSCommand [simp]: "wf_command testJSCommand"
  by (simp add: wf_command_def testJSCommand_def)

lemma total_testJSCommand [simp]: "total_command testJSCommand"
  by (simp add: total_command_def testJSCommand_def)

lemma wf_registry_testjs [simp]: "wf_registry [testJSCommand]"
  by (simp add: wf_registry_single)

lemma getCommands_array: "getCommands = [Some testJSCommand]"
  by (simp add: getCommands_def)

section \<open>Selection and the command as a whole\<close>

lemma select_testjs:
  "select_pattern (patterns testJSCommand) rest =
     (case rest of
        [x, y] \<Rightarrow>
          if eq_ci x ''add''
          then Some (CommandPattern [ForString ''add'', STRING] add_action, [AStr y])
          else Some (CatchAllPattern hi_action, [])
      | _ \<Rightarrow> Some (CatchAllPattern hi_action, []))"
  by (simp add: testJSCommand_patterns match_add_pattern split: list.splits)

lemma run_testJSCommand: "run_command testJSCommand e ts = Invoked (Inr [testjs_reply ts])"
  by (simp add: run_command_def resolve_FORCE select_testjs testjs_reply_def hi_reply_def
      hi_action_reply split: list.splits)

lemma tokenize_testjs_add_bob: "tokenize ''testjs add bob'' = [''testjs'', ''add'', ''bob'']"
  by (simp add: tokenize_def string_eval)

lemmas testjs_eval = testjs_reply_def hi_reply_def force_marker_def string_eval

section \<open>The size of a reply\<close>

lemma force_marker_cost: "list_ex force_marker ts \<Longrightarrow> 3 \<le> (\<Sum>t\<leftarrow>ts. Suc (length t))"
  by (induction ts) (auto simp: force_marker_def)

lemma testjs_reply_size: "length (testjs_reply ts) \<le> (\<Sum>t\<leftarrow>ts. Suc (length t)) + 11"
proof (cases "\<exists>x y. filter (\<lambda>t. \<not> force_marker t) ts = [x, y] \<and> eq_ci x ''add''")
  case True
  then obtain x y where f: "filter (\<lambda>t. \<not> force_marker t) ts = [x, y]" and x: "eq_ci x ''add''"
    by blast
  from x have "length x = 3"
    by (simp add: eq_ci_length)
  with cost_filter [of "\<lambda>t. \<not> force_marker t" ts] f
  have "length y + 5 \<le> (\<Sum>t\<leftarrow>ts. Suc (length t))"
    by simp
  with f x show ?thesis
    by (simp add: testjs_reply_def)
next
  case False
  then have "testjs_reply ts = hi_reply ts"
    by (auto simp: testjs_reply_def split: list.splits)
  then show ?thesis
    using force_marker_cost [of ts] by (auto simp: hi_reply_def)
qed

section \<open>The command, message by message\<close>

text \<open>
  C1. Whatever else is registered, a message whose first token is \<open>testjs\<close> in
  any mix of capitals is answered by the command of \<open>testCommand.js\<close>, for every
  sender, with exactly one reply, and that reply is \<open>testjs_reply\<close> of the tokens
  after the alias: the text after \<open>add\<close> when, flags aside, the tokens are
  \<open>add\<close> and one more; otherwise \<open>Hi, i'm force\<close> if a flag marker is among
  them and \<open>Hi\<close> if not.
\<close>

theorem dispatch_testjs:
  assumes "wf_registry reg" and "testJSCommand \<in> set reg"
    and "tokenize text = a # ts" and "eq_ci a ''testjs''"
  shows "dispatch reg text who = Invoked (Inr [testjs_reply ts])"
  using assms by (simp add: dispatch_tokens lookup_wf run_testJSCommand)

theorem dispatch_testjs_witness:
  "dispatch [testJSCommand] ''testjs add bob'' \<lparr>identity = ''bob'', level = EVERYONE\<rparr>
     = Invoked (Inr [''You wan to add: bob''])"
  using dispatch_testjs [OF wf_registry_testjs _ tokenize_testjs_add_bob, of "\<lparr>identity = ''bob'', level = EVERYONE\<rparr>"]
  by (simp add: testjs_eval)

text \<open>
  C2. No handler of \<open>testjs\<close> fails when the engine calls it: whichever pattern
  the selection picks for whatever tokens, the handler it runs returns replies and
  never an error. For the \<open>add\<close> handler this is the read of \<open>args[0]\<close>: the
  handler by itself fails on an empty argument list, and the pattern it is
  attached to always supplies one value.
\<close>

theorem testjs_handlers_safe:
  assumes "select_pattern (patterns testJSCommand) rest = Some (p, vs)"
  shows "pattern_handler p e vs opts \<noteq> Inl err"
  using assms by (auto simp: select_testjs hi_action_reply split: list.splits if_splits)

theorem testjs_handlers_safe_witness:
  "select_pattern (patterns testJSCommand) [''add'', ''bob'']
     = Some (CommandPattern [ForString ''add'', STRING] add_action, [AStr ''bob''])
   \<and> add_action \<lparr>raw = [], author = \<lparr>identity = [], level = EVERYONE\<rparr>\<rparr> [AStr ''bob''] []
       \<noteq> Inl (MissingArgument 0)
   \<and> add_action \<lparr>raw = [], author = \<lparr>identity = [], level = EVERYONE\<rparr>\<rparr> [] []
       = Inl (MissingArgument 0)"
proof -
  have s: "select_pattern (patterns testJSCommand) [''add'', ''bob'']
     = Some (CommandPattern [ForString ''add'', STRING] add_action, [AStr ''bob''])"
    by (simp add: select_testjs string_eval)
  show ?thesis
    using s testjs_handlers_safe [OF s, of "\<lparr>raw = [], author = \<lparr>identity = [], level = EVERYONE\<rparr>\<rparr>" "[]" "MissingArgument 0"]
    by simp
qed

text \<open>
  C6. What a user types: any whitespace before the alias, between the words and
  after them, the alias and the word \<open>add\<close> in any mix of capitals, and a word
  \<open>w\<close> without whitespace or quote that is not a flag marker. The reply is
  \<open>You wan to add: w\<close> with \<open>w\<close> exactly as typed.
\<close>

theorem testjs_add_padded:
  assumes pad: "list_all is_space p0" "list_all is_space p1" "p1 \<noteq> []"
      "list_all is_space p2" "p2 \<noteq> []" "list_all is_space p3"
    and al: "eq_ci A ''testjs''" and lit: "eq_ci B ''add''"
    and w: "plain_word w" "\<not> force_marker w"
  shows "dispatch [testJSCommand] (p0 @ A @ p1 @ B @ p2 @ w @ p3) who
    = Invoked (Inr [''You wan to add: '' @ w])"
proof -
  have "plain_word ''testjs''" and "plain_word ''add''"
    by (simp_all add: string_eval)
  then have A: "plain_word A" and B: "plain_word B"
    using al lit by (simp_all add: plain_word_ci)
  have "tokenize (w @ p3) = [w]"
    using pad(6) w(1) by (cases p3) (simp_all add: tokenize_only_spaces)
  then have tok: "tokenize (p0 @ A @ p1 @ B @ p2 @ w @ p3) = [A, B, w]"
    using pad A B by (simp add: tokenize_word_pad)
  have "\<not> force_marker B"
    using lit by (auto simp: force_marker_def string_eval)
  with w(2) lit have "testjs_reply [B, w] = ''You wan to add: '' @ w"
    by (simp add: testjs_reply_def)
  with tok al show ?thesis
    by (simp add: dispatch_tokens lookup_wf run_testJSCommand)
qed

theorem testjs_add_padded_witness:
  "dispatch [testJSCommand] (''  '' @ ''TestJS'' @ '' '' @ ''ADD'' @ ''   '' @ ''Bob'' @ '' '')
     \<lparr>identity = ''bob'', level = EVERYONE\<rparr> = Invoked (Inr [''You wan to add: Bob''])"
  using testjs_add_padded [of "''  ''" "'' ''" "''   ''" "'' ''" "''TestJS''" "''ADD''" "''Bob''"
      "\<lparr>identity = ''bob'', level = EVERYONE\<rparr>"]
  by (simp add: testjs_eval)

text \<open>
  C9. A quoted argument is one token: after \<open>testjs add\<close>, text between double
  quotes that holds no double quote and is not itself a flag marker comes back
  whole in the reply, spaces included.
\<close>

theorem testjs_quoted_argument:
  assumes "dquote \<notin> set q" and "\<not> force_marker q"
  shows "dispatch [testJSCommand] (''testjs add '' @ dquote # q @ [dquote]) who
    = Invoked (Inr [''You wan to add: '' @ q])"
proof -
  have w: "plain_word ''testjs''" "plain_word ''add''"
    by (simp_all add: string_eval)
  have "tokenize (dquote # q @ [dquote]) = [q]"
    using tokenize_quoted [OF assms(1), of "[]"] by simp
  then have "tokenize (''testjs'' @ CHR '' '' # ''add'' @ CHR '' '' # dquote # q @ [dquote])
      = [''testjs'', ''add'', q]"
    using w by (simp only: tokenize_word_space is_space_space)
  then have "tokenize (''testjs add '' @ dquote # q @ [dquote]) = [''testjs'', ''add'', q]"
    by simp
  then have "dispatch [testJSCommand] (''testjs add '' @ dquote # q @ [dquote]) who
      = Invoked (Inr [testjs_reply [''add'', q]])"
    by (simp add: dispatch_tokens lookup_wf run_testJSCommand)
  then show ?thesis
    using assms(2) by (simp add: testjs_reply_def force_marker_def string_eval)
qed

theorem testjs_quoted_argument_witness:
  "dispatch [testJSCommand] (''testjs add '' @ dquote # ''bob smith'' @ [dquote])
     \<lparr>identity = ''bob'', level = EVERYONE\<rparr> = Invoked (Inr [''You wan to add: bob smith''])"
  using testjs_quoted_argument [of "''bob smith''" "\<lparr>identity = ''bob'', level = EVERYONE\<rparr>"]
  by (simp add: force_marker_def dquote_def)

section \<open>Registering the command\<close>

text \<open>
  C11. The array \<open>getCommands()\<close> returns has one slot and the slot holds the
  command, so registering the array on any table adds exactly \<open>testjs\<close> at the
  end, or fails with a duplicate-alias error when \<open>testjs\<close> is taken already (in
  any mix of capitals); an empty slot is never met.
\<close>

theorem getCommands_registered:
  "register_all getCommands reg =
     (if alias_taken reg ''testjs'' then Inl (DuplicateAlias ''testjs'')
      else Inr (reg @ [testJSCommand]))"
  by (simp add: getCommands_array register_def split: sum.splits)

section \<open>The module's lifecycle\<close>

lemma hook_TestModule_cmd:
  "hook (TestModule_cmd base) ev tr =
     (if is_Load ev then tr @ [LogInfo ''TestJSModule'' ''TestJSCmd loaded !''] else onUnload base tr)"
  by (cases ev) (simp_all add: TestModule_cmd_def LOG_cmd_def log_info_def)

text \<open>
  C12. The module of \<open>testCommand.js\<close> writes one line to the logger
  \<open>TestJSModule\<close> each time it is loaded, whatever module manager and builder
  the host passes (its \<open>onLoad\<close> declares no parameter) and whatever the base's
  \<open>onLoad\<close> would do. It does not override \<open>onUnload\<close>, so an unload is the
  base's: over a base whose \<open>onUnload\<close> writes nothing, the trace grows over any
  sequence of lifecycle events by one such line per load, in order, and by nothing
  else.
\<close>

theorem TestModule_cmd_trace:
  assumes "\<And>tr. onUnload base tr = tr"
  shows "run_lifecycle (getModule_cmd base) evs tr =
     tr @ map (\<lambda>ev. LogInfo ''TestJSModule'' ''TestJSCmd loaded !'') (filter is_Load evs)"
proof -
  let ?f = "\<lambda>ev. if is_Load ev then [LogInfo ''TestJSModule'' ''TestJSCmd loaded !''] else []"
  have "run_lifecycle (TestModule_cmd base) evs tr = tr @ concat (map ?f evs)"
    by (rule run_lifecycle_appending) (simp add: hook_TestModule_cmd assms)
  also have "concat (map ?f evs)
    = map (\<lambda>ev. LogInfo ''TestJSModule'' ''TestJSCmd loaded !'') (filter is_Load evs)"
    by (induction evs) simp_all
  finally show ?thesis by (simp add: getModule_cmd_def)
qed

theorem TestModule_cmd_trace_witness:
  "run_lifecycle (getModule_cmd silent_module) [Load () (), Unload, Load () ()] []
     = [LogInfo ''TestJSModule'' ''TestJSCmd loaded !'', LogInfo ''TestJSModule'' ''TestJSCmd loaded !'']"
  using TestModule_cmd_trace [of silent_module "[Load () (), Unload, Load () ()]" "[]"]
  by simp

end
