(* ===== verification/Main_Script.thy ===== *)
theory Main_Script
  imports Dispatcher Module_Host Async_Action
begin

text \<open>
  The script \<open>src/example/main.js\<close>: a class whose constructor registers the
  quick command \<open>yolo\<close> on the command module it is given, whose \<open>onLoad\<close>
  writes one console line, and whose two listeners attach console-writing
  continuations to a promise (\<open>acceptPromise\<close>: one for success, one for failure)
  or to a rest action (\<open>listenRestAction\<close>: one for success only). The class is
  exported under the name \<open>class\<close>.

  The command module is its alias table, so the constructor returns the new table
  or the registration error. \<open>.then\<close> and \<open>.catch\<close> are \<open>onSuccess\<close> and
  \<open>onFailure\<close>; the values a promise carries are the strings the console prints.
\<close>

section \<open>The class\<close>

definition yolo_action :: "event \<Rightarrow> handler_result" where
  "yolo_action e = fastReply e ''YOLO !''"

definition TestModule_main :: "registry \<Rightarrow> registration_error + registry" where
  "TestModule_main commandModule = registerQuickCommand ''yolo'' yolo_action commandModule"

definition onLoad_main :: "trace \<Rightarrow> trace" where
  "onLoad_main = console_log ''Loaded !''"

type_synonym promise = "(string, string, trace) async_action \<times> trace"

definition acceptPromise :: "promise \<Rightarrow> promise" where
  "acceptPromise p =
     onFailure (\<lambda>reason. console_error reason) (onSuccess (\<lambda>v. console_log v) p)"

definition listenRestAction :: "promise \<Rightarrow> promise" where
  "listenRestAction a = onSuccess (\<lambda>v. console_log v) a"

definition polyglot_export :: "(string \<times> (registry \<Rightarrow> registration_error + registry)) list" where
  "polyglot_export = [(''class'', TestModule_main)]"

lemmas main_script_defs [script_defs] =
  yolo_action_def TestModule_main_def onLoad_main_def acceptPromise_def listenRestAction_def
  polyglot_export_def

section \<open>What the listeners must print\<close>

fun settle_line :: "(string, string, trace) async_op list \<Rightarrow> trace" where
  "settle_line (Resolve v # ops) = [ConsoleLog v]"
| "settle_line (Reject e # ops) = [ConsoleError e]"
| "settle_line ops = []"

fun success_line :: "(string, string, trace) async_op list \<Rightarrow> trace" where
  "success_line (Resolve v # ops) = [ConsoleLog v]"
| "success_line ops = []"

section \<open>The constructor\<close>

lemma TestModule_main_cases:
  "TestModule_main reg =
     (if alias_taken reg ''yolo'' then Inl (DuplicateAlias ''yolo'')
      else Inr (reg @ [quick_command ''yolo'' yolo_action]))"
  by (simp add: TestModule_main_def registerQuickCommand_def register_def)

lemma TestModule_main_register:
  "TestModule_main reg = register (quick_command ''yolo'' yolo_action) reg"
  by (simp add: TestModule_main_def registerQuickCommand_def)

lemma tokenize_YOLO: "tokenize ''YOLO'' = [''YOLO'']"
  by (simp add: tokenize_def string_eval)

text \<open>
  C3. After the constructor of \<open>main.js\<close> has run on a well-formed alias table,
  every message whose first token is \<open>yolo\<close> in any mix of capitals is answered
  \<open>YOLO !\<close>, once, whoever sends it and whatever follows the alias.
\<close>

theorem dispatch_yolo:
  assumes "wf_registry reg" and "TestModule_main reg = Inr reg'"
    and "tokenize text = a # ts" and "eq_ci a ''yolo''"
  shows "dispatch reg' text who = Invoked (Inr [''YOLO !''])"
proof -
  from assms(2) have r: "register (quick_command ''yolo'' yolo_action) reg = Inr reg'"
    by (simp add: TestModule_main_register)
  have "has_alias (quick_command ''yolo'' yolo_action) a"
    using assms(4) by (simp add: eq_ci_sym)
  with assms(1) r have "lookup reg' a = Some (quick_command ''yolo'' yolo_action)"
    by (rule register_lookup_new)
  with assms(3) show ?thesis
    by (simp add: dispatch_tokens yolo_action_def fastReply_def)
qed

theorem dispatch_yolo_witness:
  "TestModule_main [] = Inr [quick_command ''yolo'' yolo_action]
   \<and> dispatch [quick_command ''yolo'' yolo_action] ''YOLO'' \<lparr>identity = ''bob'', level = EVERYONE\<rparr>
       = Invoked (Inr [''YOLO !''])"
proof -
  have c: "TestModule_main [] = Inr [quick_command ''yolo'' yolo_action]"
    by (simp add: TestModule_main_cases)
  show ?thesis
    using c dispatch_yolo [OF wf_registry_Nil c tokenize_YOLO, of "\<lparr>identity = ''bob'', level = EVERYONE\<rparr>"]
    by (simp add: string_eval)
qed

text \<open>
  C7. The constructor cannot run twice on the same command module: the second run
  finds the alias \<open>yolo\<close> taken and fails with a duplicate-alias error, leaving
  the table as the first run left it.
\<close>

theorem TestModule_main_twice:
  assumes "TestModule_main reg = Inr reg'"
  shows "TestModule_main reg' = Inl (DuplicateAlias ''yolo'')"
  using assms by (auto simp: TestModule_main_cases split: if_splits)

theorem TestModule_main_twice_witness:
  "TestModule_main [] = Inr [quick_command ''yolo'' yolo_action]
   \<and> TestModule_main [quick_command ''yolo'' yolo_action] = Inl (DuplicateAlias ''yolo'')"
proof -
  have c: "TestModule_main [] = Inr [quick_command ''yolo'' yolo_action]"
    by (simp add: TestModule_main_cases)
  show ?thesis
    using c TestModule_main_twice [OF c] by simp
qed

section \<open>The listeners\<close>

lemmas listener_defs =
  acceptPromise_def listenRestAction_def new_action_def onSuccess_def onFailure_def
  console_log_def console_error_def

lemmas listener_simps = listener_defs run_ops_after_resolve run_ops_after_reject

text \<open>
  C4. \<open>acceptPromise\<close> prints exactly once. On a new promise that is then
  settled any number of times, in any order of resolves and rejects, the console
  gets one line: the value of the first settle on \<open>console.log\<close> if it was a
  resolve, its reason on \<open>console.error\<close> if it was a reject. Later settles
  print nothing, and a promise that is never settled prints nothing.
\<close>

theorem acceptPromise_once:
  assumes "list_all is_settle ops"
  shows "snd (run_ops ops (acceptPromise (new_action, tr))) = tr @ settle_line ops"
  using assms by (cases ops rule: settle_line.cases) (simp_all add: listener_simps)

theorem acceptPromise_once_witness:
  "snd (run_ops [Reject ''boom'', Resolve ''late'', Reject ''again''] (acceptPromise (new_action, [])))
     = [ConsoleError ''boom'']"
  using acceptPromise_once [of "[Reject ''boom'', Resolve ''late'', Reject ''again'']" "[]"]
  by simp

text \<open>
  C8. \<open>listenRestAction\<close> prints the value of a rest action that succeeds, once,
  and prints nothing for one that fails: it registers no failure continuation, so
  the reason of a rejection never reaches the console through this listener.
\<close>

theorem listenRestAction_once:
  assumes "list_all is_settle ops"
  shows "snd (run_ops ops (listenRestAction (new_action, tr))) = tr @ success_line ops"
  using assms by (cases ops rule: settle_line.cases) (simp_all add: listener_simps)

theorem listenRestAction_once_witness:
  "snd (run_ops [Reject ''boom'', Resolve ''late''] (listenRestAction (new_action, []))) = []
   \<and> snd (run_ops [Resolve ''ok'', Resolve ''late''] (listenRestAction (new_action, [])))
       = [ConsoleLog ''ok'']"
  using listenRestAction_once [of "[Reject ''boom'', Resolve ''late'']" "[]"]
    listenRestAction_once [of "[Resolve ''ok'', Resolve ''late'']" "[]"]
  by simp

text \<open>
  C10. It makes no difference to the console whether \<open>acceptPromise\<close> is called
  before the promise settles or after: a listener attached to a settled promise
  fires at once, with the value or reason of the first settle.
\<close>

theorem acceptPromise_late:
  assumes "list_all is_settle ops"
  shows "snd (acceptPromise (run_ops ops (new_action, tr)))
    = snd (run_ops ops (acceptPromise (new_action, tr)))"
proof (cases ops)
  case Nil
  then show ?thesis by (simp add: listener_defs)
next
  case (Cons op post)
  with assms show ?thesis
    by (cases op) (simp_all add: listener_defs resolve_action_def reject_action_def run_ops_settled settled_def
        fire_def)
qed

theorem acceptPromise_late_witness:
  "snd (acceptPromise (run_ops [Resolve ''ok''] (new_action, [])))
     = snd (run_ops [Resolve ''ok''] (acceptPromise (new_action, [])))
   \<and> snd (acceptPromise (run_ops [Resolve ''ok''] (new_action, []))) = [ConsoleLog ''ok'']"
  using acceptPromise_late [of "[Resolve ''ok'']" "[]"]
  by (simp add: listener_defs resolve_action_def fire_def)

text \<open>
  C17. The two listeners do not disturb each other: attached to the same promise,
  \<open>acceptPromise\<close> first, each prints what it would print alone, and the lines
  come in the order of attachment. A value is printed twice, a reason once.
\<close>

theorem listeners_compose:
  assumes "list_all is_settle ops"
  shows "snd (run_ops ops (listenRestAction (acceptPromise (new_action, tr))))
    = tr @ settle_line ops @ success_line ops"
  using assms by (cases ops rule: settle_line.cases) (simp_all add: listener_simps)

theorem listeners_compose_witness:
  "snd (run_ops [Resolve ''ok'', Reject ''late''] (listenRestAction (acceptPromise (new_action, []))))
     = [ConsoleLog ''ok'', ConsoleLog ''ok'']
   \<and> snd (run_ops [Reject ''boom''] (listenRestAction (acceptPromise (new_action, []))))
     = [ConsoleError ''boom'']"
  using listeners_compose [of "[Resolve ''ok'', Reject ''late'']" "[]"]
    listeners_compose [of "[Reject ''boom'']" "[]"]
  by simp

end
