(* ===== verification/Main_Class.thy ===== *)
theory Main_Class
  imports Main_Script
begin

text \<open>
  The class \<open>TestModule\<close> of \<open>src/example/main.js\<close> as its host uses it: an object
  whose constructor and methods are called in any order, on any of the command
  modules and promises the host holds, while those promises are settled from
  outside. The host is not code of \<open>src/\<close>: \<open>main_call\<close> names the calls
  it can make, \<open>call_step\<close> runs one of them on the state (the command modules,
  the errors that constructions have thrown, the console, the promises),
  \<open>run_calls\<close> a sequence. \<open>Construct k\<close> is \<open>new TestModule(commandModule)\<close>
  on the command module \<open>k\<close>: the constructor registers \<open>yolo\<close> there, and
  when the registration throws, the error is recorded and the command module is
  left as it was. The step is written over a record of the four operations on a
  promise, so that the same step runs the listeners of the script
  (\<open>main_ops\<close>), their reading with chained promises (\<open>chain_ops\<close> of
  \<open>Promise_Chain\<close>) and their specification (\<open>view_ops\<close>).

  The specification forgets the continuations: the view of a promise is how many
  listeners wait for a value and how many for a reason, or the value or reason it
  was settled with. The theory shows that the listeners simulate their views, so
  that every run of the object prints what the run of the views prints; that the
  command modules stay well-formed and every error thrown is the duplicate alias
  \<open>yolo\<close>; and that a listener attached by \<open>acceptPromise\<close> gets to print
  the first settle of its promise wherever in the run the two calls stand.
\<close>

section \<open>The object and its callers\<close>

datatype main_call =
    Construct nat
  | CallOnLoad
  | AcceptPromise nat
  | ListenRestAction nat
  | PromiseResolved nat string
  | PromiseRejected nat string

record 'p object_state =
  commandModules :: "nat \<Rightarrow> registry"
  thrown :: "registration_error list"
  console :: trace
  promises :: "nat \<Rightarrow> 'p"

record 'p promise_ops =
  accept_op :: "'p \<times> trace \<Rightarrow> 'p \<times> trace"
  listen_op :: "'p \<times> trace \<Rightarrow> 'p \<times> trace"
  resolve_op :: "string \<Rightarrow> 'p \<times> trace \<Rightarrow> 'p \<times> trace"
  reject_op :: "string \<Rightarrow> 'p \<times> trace \<Rightarrow> 'p \<times> trace"

definition construct :: "nat \<Rightarrow> 'p object_state \<Rightarrow> 'p object_state" where
  "construct k s =
     (case TestModule_main (commandModules s k) of
        Inl err \<Rightarrow> s\<lparr>thrown := thrown s @ [err]\<rparr>
      | Inr reg \<Rightarrow> s\<lparr>commandModules := (commandModules s)(k := reg)\<rparr>)"

definition on_promise :: "nat \<Rightarrow> ('p \<times> trace \<Rightarrow> 'p \<times> trace) \<Rightarrow> 'p object_state \<Rightarrow> 'p object_state" where
  "on_promise i f s =
     (case f (promises s i, console s) of
        (a, w) \<Rightarrow> s\<lparr>console := w, promises := (promises s)(i := a)\<rparr>)"

primrec call_step :: "'p promise_ops \<Rightarrow> main_call \<Rightarrow> 'p object_state \<Rightarrow> 'p object_state" where
  "call_step ops (Construct k) s = construct k s"
| "call_step ops CallOnLoad s = s\<lparr>console := onLoad_main (console s)\<rparr>"
| "call_step ops (AcceptPromise i) s = on_promise i (accept_op ops) s"
| "call_step ops (ListenRestAction i) s = on_promise i (listen_op ops) s"
| "call_step ops (PromiseResolved i v) s = on_promise i (resolve_op ops v) s"
| "call_step ops (PromiseRejected i e) s = on_promise i (reject_op ops e) s"

primrec run_calls :: "'p promise_ops \<Rightarrow> main_call list \<Rightarrow> 'p object_state \<Rightarrow> 'p object_state" where
  "run_calls ops [] s = s"
| "run_calls ops (c # cs) s = run_calls ops cs (call_step ops c s)"

definition object_init :: "'p \<Rightarrow> registry \<Rightarrow> 'p object_state" where
  "object_init p reg =
     \<lparr>commandModules = (\<lambda>k. reg), thrown = [], console = [], promises = (\<lambda>i. p)\<rparr>"

definition main_ops :: "(string, string, trace) async_action promise_ops" where
  "main_ops = \<lparr>accept_op = acceptPromise, listen_op = listenRestAction,
               resolve_op = resolve_action, reject_op = reject_action\<rparr>"

section \<open>The view of a promise\<close>

datatype promise_view = Waiting nat nat | Fulfilled string | Broken string

definition view :: "(string, string, trace) async_action \<Rightarrow> promise_view" where
  "view a =
     (case state a of
        Pending \<Rightarrow> Waiting (length (on_success a)) (length (on_failure a))
      | Resolved v \<Rightarrow> Fulfilled v
      | Rejected e \<Rightarrow> Broken e)"

fun view_accept :: "promise_view \<times> trace \<Rightarrow> promise_view \<times> trace" where
  "view_accept (Waiting n m, w) = (Waiting (Suc n) (Suc m), w)"
| "view_accept (Fulfilled v, w) = (Fulfilled v, w @ [ConsoleLog v])"
| "view_accept (Broken e, w) = (Broken e, w @ [ConsoleError e])"

fun view_listen :: "promise_view \<times> trace \<Rightarrow> promise_view \<times> trace" where
  "view_listen (Waiting n m, w) = (Waiting (Suc n) m, w)"
| "view_listen (Fulfilled v, w) = (Fulfilled v, w @ [ConsoleLog v])"
| "view_listen (Broken e, w) = (Broken e, w)"

fun view_resolve :: "string \<Rightarrow> promise_view \<times> trace \<Rightarrow> promise_view \<times> trace" where
  "view_resolve v (Waiting n m, w) = (Fulfilled v, w @ replicate n (ConsoleLog v))"
| "view_resolve v (p, w) = (p, w)"

fun view_reject :: "string \<Rightarrow> promise_view \<times> trace \<Rightarrow> promise_view \<times> trace" where
  "view_reject e (Waiting n m, w) = (Broken e, w @ replicate m (ConsoleError e))"
| "view_reject e (p, w) = (p, w)"

definition view_ops :: "promise_view promise_ops" where
  "view_ops = \<lparr>accept_op = view_accept, listen_op = view_listen,
               resolve_op = view_resolve, reject_op = view_reject\<rparr>"

definition listeners_ok :: "(string, string, trace) async_action \<Rightarrow> bool" where
  "listeners_ok a \<longleftrightarrow>
     list_all (\<lambda>k. k = console_log) (on_success a)
       \<and> list_all (\<lambda>k. k = console_error) (on_failure a) \<and> async_inv a"

section \<open>The interface of a simulation\<close>

definition lifts :: "('p \<Rightarrow> bool) \<Rightarrow> ('p \<Rightarrow> 'q) \<Rightarrow> ('p \<times> trace \<Rightarrow> 'p \<times> trace) \<Rightarrow> ('q \<times> trace \<Rightarrow> 'q \<times> trace) \<Rightarrow> bool" where
  "lifts ok ab f g \<longleftrightarrow>
     (\<forall>a w. ok a \<longrightarrow> ok (fst (f (a, w))) \<and> (ab (fst (f (a, w))), snd (f (a, w))) = g (ab a, w))"

definition simulates :: "('p \<Rightarrow> bool) \<Rightarrow> ('p \<Rightarrow> 'q) \<Rightarrow> 'p promise_ops \<Rightarrow> 'q promise_ops \<Rightarrow> bool" where
  "simulates ok ab ops ops' \<longleftrightarrow>
     lifts ok ab (accept_op ops) (accept_op ops') \<and> lifts ok ab (listen_op ops) (listen_op ops')
       \<and> (\<forall>v. lifts ok ab (resolve_op ops v) (resolve_op ops' v))
       \<and> (\<forall>e. lifts ok ab (reject_op ops e) (reject_op ops' e))"

definition abs_state :: "('p \<Rightarrow> 'q) \<Rightarrow> 'p object_state \<Rightarrow> 'q object_state" where
  "abs_state ab s =
     \<lparr>commandModules = commandModules s, thrown = thrown s, console = console s,
      promises = (\<lambda>i. ab (promises s i))\<rparr>"

definition all_ok :: "('p \<Rightarrow> bool) \<Rightarrow> 'p object_state \<Rightarrow> bool" where
  "all_ok ok s \<longleftrightarrow> (\<forall>i. ok (promises s i))"

section \<open>What a run is asked about\<close>

primrec target :: "main_call \<Rightarrow> nat option" where
  "target (Construct k) = None"
| "target CallOnLoad = None"
| "target (AcceptPromise i) = Some i"
| "target (ListenRestAction i) = Some i"
| "target (PromiseResolved i v) = Some i"
| "target (PromiseRejected i e) = Some i"

primrec settle_line_of :: "main_call \<Rightarrow> out_line option" where
  "settle_line_of (Construct k) = None"
| "settle_line_of CallOnLoad = None"
| "settle_line_of (AcceptPromise i) = None"
| "settle_line_of (ListenRestAction i) = None"
| "settle_line_of (PromiseResolved i v) = Some (ConsoleLog v)"
| "settle_line_of (PromiseRejected i e) = Some (ConsoleError e)"

definition settles :: "nat \<Rightarrow> main_call \<Rightarrow> bool" where
  "settles i c \<longleftrightarrow> target c = Some i \<and> settle_line_of c \<noteq> None"

definition first_settle :: "nat \<Rightarrow> main_call list \<Rightarrow> main_call option" where
  "first_settle i cs = find (settles i) cs"

primrec settled_line :: "promise_view \<Rightarrow> out_line option" where
  "settled_line (Waiting n m) = None"
| "settled_line (Fulfilled v) = Some (ConsoleLog v)"
| "settled_line (Broken e) = Some (ConsoleError e)"

definition modules_ok :: "'p object_state \<Rightarrow> bool" where
  "modules_ok s \<longleftrightarrow>
     (\<forall>k. wf_registry (commandModules s k))
       \<and> list_all (\<lambda>err. err = DuplicateAlias ''yolo'') (thrown s)"

section \<open>A construction\<close>

text \<open>A construction registers \<open>yolo\<close> on the command module it is given or
  throws and leaves the module as it was; it touches neither the console nor a
  promise, and no other call touches a command module.\<close>

lemma construct_cases:
  "construct k s =
     (if alias_taken (commandModules s k) ''yolo''
      then s\<lparr>thrown := thrown s @ [DuplicateAlias ''yolo'']\<rparr>
      else s\<lparr>commandModules :=
        (commandModules s)(k := commandModules s k @ [quick_command ''yolo'' yolo_action])\<rparr>)"
  by (simp add: construct_def TestModule_main_cases)

lemma construct_frame [simp]:
  "console (construct k s) = console s" "promises (construct k s) = promises s"
  by (simp_all add: construct_cases)

lemma construct_twice:
  "construct k (construct k s) = (construct k s)\<lparr>thrown := thrown (construct k s) @ [DuplicateAlias ''yolo'']\<rparr>"
  by (simp add: construct_cases)

lemma construct_same_modules:
  assumes "commandModules s = commandModules t" and "thrown s = thrown t"
  shows "commandModules (construct k s) = commandModules (construct k t)"
    and "thrown (construct k s) = thrown (construct k t)"
  using assms by (simp_all add: construct_cases)

lemma on_promise_modules [simp]:
  "commandModules (on_promise i f s) = commandModules s" "thrown (on_promise i f s) = thrown s"
  by (simp_all add: on_promise_def split: prod.splits)

section \<open>Simulation, in general\<close>

lemma liftsI:
  assumes "\<And>a w. ok a \<Longrightarrow> ok (fst (f (a, w))) \<and> (ab (fst (f (a, w))), snd (f (a, w))) = g (ab a, w)"
  shows "lifts ok ab f g"
  using assms by (simp add: lifts_def)

lemma on_promise_sim:
  assumes "lifts ok ab f g" and "all_ok ok s"
  shows "all_ok ok (on_promise i f s) \<and> abs_state ab (on_promise i f s) = on_promise i g (abs_state ab s)"
proof -
  obtain a w where f: "f (promises s i, console s) = (a, w)"
    by (cases "f (promises s i, console s)")
  from assms have "ok (promises s i)"
    by (simp add: all_ok_def)
  with assms(1) f have "ok a" and "g (ab (promises s i), console s) = (ab a, w)"
    by (auto simp: lifts_def dest!: spec [of _ "promises s i"] spec [of _ "console s"])
  with f assms(2) show ?thesis
    by (auto simp: on_promise_def abs_state_def all_ok_def)
qed

lemma call_step_sim:
  assumes "simulates ok ab ops ops'" and "all_ok ok s"
  shows "all_ok ok (call_step ops c s) \<and> abs_state ab (call_step ops c s) = call_step ops' c (abs_state ab s)"
proof (cases c)
  case (Construct k)
  with assms(2) show ?thesis
    by (simp add: construct_def abs_state_def all_ok_def split: sum.splits)
next
  case CallOnLoad
  with assms(2) show ?thesis by (simp add: abs_state_def all_ok_def)
qed (insert assms, auto simp: simulates_def intro!: on_promise_sim)

lemma run_calls_sim:
  assumes "simulates ok ab ops ops'" and "all_ok ok s"
  shows "all_ok ok (run_calls ops cs s) \<and> abs_state ab (run_calls ops cs s) = run_calls ops' cs (abs_state ab s)"
  using assms(2)
proof (induction cs arbitrary: s)
  case Nil
  then show ?case by simp
next
  case (Cons c cs)
  with call_step_sim [OF assms(1) Cons.prems, of c] show ?case by simp
qed

section \<open>The listeners simulate their views\<close>

lemma fire_console_log:
  "list_all (\<lambda>k. k = console_log) ks \<Longrightarrow> fire ks v w = w @ replicate (length ks) (ConsoleLog v)"
  by (induction ks arbitrary: w) (simp_all add: console_log_def replicate_append_same)

lemma fire_console_error:
  "list_all (\<lambda>k. k = console_error) ks \<Longrightarrow> fire ks e w = w @ replicate (length ks) (ConsoleError e)"
  by (induction ks arbitrary: w) (simp_all add: console_error_def replicate_append_same)

lemmas view_defs =
  acceptPromise_def listenRestAction_def onSuccess_def onFailure_def resolve_action_def
  reject_action_def listeners_ok_def async_inv_def settled_def view_def console_log_def
  console_error_def
  fire_console_log fire_console_error

lemma main_simulates: "simulates listeners_ok view main_ops view_ops"
  unfolding simulates_def main_ops_def view_ops_def
  by (auto intro!: liftsI simp: view_defs split: async_state.splits)

section \<open>Runs of the view machine\<close>

lemma view_step_other:
  "target c \<noteq> Some i \<Longrightarrow> promises (call_step view_ops c s) i = promises s i"
  by (cases c) (auto simp: on_promise_def split: prod.splits)

lemma view_step_console:
  "set (console s) \<subseteq> set (console (call_step view_ops c s))"
  by (cases c; cases "promises s (the (target c))")
    (auto simp: on_promise_def view_ops_def onLoad_main_def console_log_def)

lemma view_run_console: "set (console s) \<subseteq> set (console (run_calls view_ops cs s))"
proof (induction cs arbitrary: s)
  case Nil
  show ?case by simp
next
  case (Cons c cs)
  from view_step_console [of s c] Cons [of "call_step view_ops c s"] show ?case by auto
qed

lemma view_step_settled:
  assumes "settled_line (promises s i) = Some l"
  shows "promises (call_step view_ops c s) i = promises s i"
proof (cases "target c = Some i")
  case False
  then show ?thesis by (rule view_step_other)
next
  case True
  with assms show ?thesis
    by (cases c; cases "promises s i") (auto simp: on_promise_def view_ops_def)
qed

lemma view_accept_settled:
  "settled_line (promises s i) = Some l \<Longrightarrow> l \<in> set (console (call_step view_ops (AcceptPromise i) s))"
  by (cases "promises s i") (auto simp: on_promise_def view_ops_def)

lemma view_settled_accept:
  "settled_line (promises s i) = Some l \<Longrightarrow> AcceptPromise i \<in> set cs \<Longrightarrow>
   l \<in> set (console (run_calls view_ops cs s))"
proof (induction cs arbitrary: s)
  case Nil
  then show ?case by simp
next
  case (Cons c cs)
  show ?case
  proof (cases "c = AcceptPromise i")
    case True
    with view_accept_settled [OF Cons.prems(1)] view_run_console [of "call_step view_ops c s" cs]
    show ?thesis by auto
  next
    case False
    with Cons.prems view_step_settled [OF Cons.prems(1), of c] Cons.IH [of "call_step view_ops c s"]
    show ?thesis by simp
  qed
qed

lemma first_settle_Cons:
  "first_settle i (c # cs) = (if settles i c then Some c else first_settle i cs)"
  by (simp add: first_settle_def)

lemmas view_step_defs = on_promise_def view_ops_def first_settle_Cons settles_def

lemma view_step_waiting:
  assumes "promises s i = Waiting n m" and "\<not> settles i c"
  shows "\<exists>n' m'. promises (call_step view_ops c s) i = Waiting n' m' \<and> n \<le> n' \<and> m \<le> m'"
proof (cases "target c = Some i")
  case False
  with assms(1) show ?thesis by (simp add: view_step_other)
next
  case True
  with assms show ?thesis
    by (cases c) (auto simp: view_step_defs)
qed

lemma view_waiting_settle:
  assumes "promises s i = Waiting n m" and "0 < n" and "0 < m"
    and "first_settle i cs = Some c" and "settle_line_of c = Some l"
  shows "l \<in> set (console (run_calls view_ops cs s))"
  using assms(1-4)
proof (induction cs arbitrary: s n m)
  case Nil
  then show ?case by (simp add: first_settle_def)
next
  case (Cons c' cs)
  let ?s = "call_step view_ops c' s"
  show ?case
  proof (cases "settles i c'")
    case True
    with Cons.prems assms(5) have "l \<in> set (console ?s)"
      by (cases c') (auto simp: view_step_defs split: if_splits)
    with view_run_console [of ?s cs] show ?thesis by auto
  next
    case False
    with Cons.prems have "first_settle i cs = Some c"
      by (simp add: first_settle_Cons)
    moreover from view_step_waiting [OF Cons.prems(1) False] Cons.prems(2,3)
    obtain n' m' where "promises ?s i = Waiting n' m'" "0 < n'" "0 < m'"
      by auto
    ultimately show ?thesis
      using Cons.IH [of ?s] by simp
  qed
qed

lemma view_eventually:
  assumes "promises s i = Waiting n m" and "AcceptPromise i \<in> set cs"
    and "first_settle i cs = Some c" and "settle_line_of c = Some l"
  shows "l \<in> set (console (run_calls view_ops cs s))"
  using assms(1-3)
proof (induction cs arbitrary: s n m)
  case Nil
  then show ?case by simp
next
  case (Cons c' cs)
  let ?s = "call_step view_ops c' s"
  consider (settle) "settles i c'" | (accept) "c' = AcceptPromise i"
    | (other) "\<not> settles i c'" "c' \<noteq> AcceptPromise i"
    by blast
  then show ?case
  proof cases
    case settle
    with Cons.prems assms(4) have "settled_line (promises ?s i) = Some l" and "AcceptPromise i \<in> set cs"
      by (cases c'; auto simp: view_step_defs split: if_splits)+
    then show ?thesis
      by (simp add: view_settled_accept)
  next
    case accept
    with Cons.prems have "promises ?s i = Waiting (Suc n) (Suc m)" and "first_settle i cs = Some c"
      by (auto simp: view_step_defs)
    then show ?thesis
      using view_waiting_settle [OF _ _ _ _ assms(4), of ?s i "Suc n" "Suc m" cs] by simp
  next
    case other
    with Cons.prems have "first_settle i cs = Some c" and "AcceptPromise i \<in> set cs"
      by (simp_all add: first_settle_Cons)
    moreover from view_step_waiting [OF Cons.prems(1) other(1)]
    obtain n' m' where "promises ?s i = Waiting n' m'"
      by auto
    ultimately show ?thesis
      using Cons.IH [of ?s] by simp
  qed
qed

section \<open>The object of \<open>main.js\<close>\<close>

lemma promise_ok_new [simp]: "listeners_ok new_action"
  by (simp add: listeners_ok_def new_action_def async_inv_def)

lemma view_new [simp]: "view new_action = Waiting 0 0"
  by (simp add: view_def new_action_def)

lemma all_ok_init [simp]: "all_ok listeners_ok (object_init new_action reg)"
  by (simp add: all_ok_def object_init_def)

lemma console_abs_state [simp]: "console (abs_state ab s) = console s"
  by (simp add: abs_state_def)

lemma abs_state_init [simp]:
  "abs_state view (object_init new_action reg) = object_init (Waiting 0 0) reg"
  by (simp add: abs_state_def object_init_def)

lemma main_run_sim:
  "all_ok listeners_ok (run_calls main_ops cs (object_init new_action reg))
   \<and> abs_state view (run_calls main_ops cs (object_init new_action reg))
       = run_calls view_ops cs (object_init (Waiting 0 0) reg)"
  using run_calls_sim [OF main_simulates all_ok_init, of cs reg] by simp

lemma main_console:
  "console (run_calls main_ops cs (object_init new_action reg))
     = console (run_calls view_ops cs (object_init (Waiting 0 0) reg))"
  using main_run_sim [of cs reg] console_abs_state [of view "run_calls main_ops cs (object_init new_action reg)"]
  by simp

section \<open>The command modules under construction\<close>

lemma modules_ok_construct:
  assumes "modules_ok s"
  shows "modules_ok (construct k s)"
proof (cases "TestModule_main (commandModules s k)")
  case (Inl err)
  with assms show ?thesis
    by (auto simp: construct_def modules_ok_def TestModule_main_cases split: if_splits)
next
  case (Inr reg)
  then have "register (quick_command ''yolo'' yolo_action) (commandModules s k) = Inr reg"
    by (simp add: TestModule_main_register)
  with assms have "wf_registry reg"
    by (auto simp: modules_ok_def intro: register_wf)
  with assms Inr show ?thesis
    by (simp add: construct_def modules_ok_def)
qed

lemma modules_ok_step: "modules_ok s \<Longrightarrow> modules_ok (call_step ops c s)"
  by (cases c) (simp_all add: modules_ok_construct, simp_all add: modules_ok_def)

lemma modules_ok_run: "modules_ok s \<Longrightarrow> modules_ok (run_calls ops cs s)"
  by (induction cs arbitrary: s) (simp_all add: modules_ok_step)

lemma modules_ok_init: "wf_registry reg \<Longrightarrow> modules_ok (object_init p reg)"
  by (simp add: modules_ok_def object_init_def)

lemma main_modules:
  "commandModules (run_calls main_ops cs (object_init new_action reg))
     = commandModules (run_calls view_ops cs (object_init (Waiting 0 0) reg))"
  "thrown (run_calls main_ops cs (object_init new_action reg))
     = thrown (run_calls view_ops cs (object_init (Waiting 0 0) reg))"
proof -
  let ?s = "run_calls main_ops cs (object_init new_action reg)"
  have "commandModules (abs_state view ?s) = commandModules ?s"
    and "thrown (abs_state view ?s) = thrown ?s"
    by (simp_all add: abs_state_def)
  then show "commandModules ?s = commandModules (run_calls view_ops cs (object_init (Waiting 0 0) reg))"
    and "thrown ?s = thrown (run_calls view_ops cs (object_init (Waiting 0 0) reg))"
    using main_run_sim [of cs reg] by simp_all
qed

text \<open>
  C19. A listener attached by \<open>acceptPromise\<close> is not lost: in every run of the
  object in which \<open>acceptPromise\<close> is called on a promise and the promise is
  settled, the console has the line of the first settle (the value on
  \<open>console.log\<close>, the reason on \<open>console.error\<close>), whether the call came
  before the settle or after it and whatever else the host called in between.
\<close>

theorem acceptPromise_eventually:
  assumes "AcceptPromise i \<in> set cs" and "first_settle i cs = Some c"
    and "settle_line_of c = Some l"
  shows "l \<in> set (console (run_calls main_ops cs (object_init new_action reg)))"
proof -
  have "l \<in> set (console (run_calls view_ops cs (object_init (Waiting 0 0) reg)))"
    using view_eventually [OF _ assms, of "object_init (Waiting 0 0) reg" 0 0]
    by (simp add: object_init_def)
  then show ?thesis
    by (simp add: main_console)
qed

theorem acceptPromise_eventually_witness:
  "ConsoleError ''boom'' \<in> set (console (run_calls main_ops
      [PromiseRejected 0 ''boom'', CallOnLoad, PromiseResolved 0 ''late'', AcceptPromise 0]
      (object_init new_action [])))"
  using acceptPromise_eventually [of 0
      "[PromiseRejected 0 ''boom'', CallOnLoad, PromiseResolved 0 ''late'', AcceptPromise 0]"
      "PromiseRejected 0 ''boom''" "ConsoleError ''boom''" "[]"]
  by (simp add: first_settle_def settles_def)

text \<open>
  C20. The listeners of \<open>main.js\<close> implement their specification: seen through
  \<open>view\<close>, every run of the object on new promises is the run of the same calls
  on the views, with the same console and the same command module.
\<close>

theorem main_class_refines:
  "abs_state view (run_calls main_ops cs (object_init new_action reg))
     = run_calls view_ops cs (object_init (Waiting 0 0) reg)"
  using main_run_sim [of cs reg] by simp

text \<open>
  C21. The invariant of the object: started on a well-formed command module and new
  promises, after any run every command module is well-formed, every error a
  construction has thrown is the duplicate-alias error for \<open>yolo\<close>, and every
  promise holds only the two continuations of the script, and none once it is
  settled.
\<close>

theorem main_class_invariant:
  assumes "wf_registry reg"
  shows "modules_ok (run_calls main_ops cs (object_init new_action reg))
    \<and> all_ok listeners_ok (run_calls main_ops cs (object_init new_action reg))"
  using assms main_run_sim [of cs reg] by (simp add: modules_ok_run modules_ok_init)

theorem main_class_invariant_witness:
  "modules_ok (run_calls main_ops [Construct 0, AcceptPromise 0, Construct 0]
      (object_init new_action []))
   \<and> thrown (run_calls main_ops [Construct 0, AcceptPromise 0, Construct 0]
      (object_init new_action [])) = [DuplicateAlias ''yolo'']"
proof -
  have "thrown (run_calls main_ops [Construct 0, AcceptPromise 0, Construct 0]
      (object_init new_action [])) = [DuplicateAlias ''yolo'']"
    by (simp only: main_modules)
      (simp add: object_init_def construct_cases on_promise_def view_ops_def alias_taken_def
        string_eval)
  with main_class_invariant [OF wf_registry_Nil, of "[Construct 0, AcceptPromise 0, Construct 0]"]
  show ?thesis by simp
qed

end
