(* ===== verification/Main_Interleaving.thy ===== *)
theory Main_Interleaving
  imports Main_Class "HOL-Library.Multiset"
begin

text \<open>
  The order of calls on the object of \<open>src/example/main.js\<close>. A host may attach
  a listener before the promise settles or after, and between any other calls; the
  theory shows that the place of a listener call in a run changes the order of the
  lines on the console at most. Two states have the \<open>same_output\<close> when they
  agree on the command modules, the errors thrown and the promises and their
  consoles hold the same lines as multisets. On the views, a step respects \<open>same_output\<close>, and a
  listener call commutes with every call up to \<open>same_output\<close>; the simulation
  of \<open>Main_Class\<close> carries the result to the listeners of the script.
\<close>

section \<open>Listener calls and states with the same output\<close>

primrec is_listener_call :: "main_call \<Rightarrow> bool" where
  "is_listener_call (Construct k) = False"
| "is_listener_call CallOnLoad = False"
| "is_listener_call (AcceptPromise i) = True"
| "is_listener_call (ListenRestAction i) = True"
| "is_listener_call (PromiseResolved i v) = False"
| "is_listener_call (PromiseRejected i e) = False"

definition same_output :: "'p object_state \<Rightarrow> 'p object_state \<Rightarrow> bool" where
  "same_output s t \<longleftrightarrow>
     commandModules s = commandModules t \<and> thrown s = thrown t \<and> promises s = promises t
       \<and> mset (console s) = mset (console t)"

section \<open>Steps respect and listener calls commute\<close>

lemma same_output_refl [simp]: "same_output s s"
  by (simp add: same_output_def)

lemma same_output_trans: "same_output s t \<Longrightarrow> same_output t u \<Longrightarrow> same_output s u"
  by (simp add: same_output_def)

lemma view_step_cong:
  assumes "same_output s t"
  shows "same_output (call_step view_ops c s) (call_step view_ops c t)"
  using assms
  by (cases c; cases "promises t (the (target c))")
    (auto simp: same_output_def on_promise_def view_ops_def onLoad_main_def console_log_def
      construct_cases)

lemma view_run_cong:
  "same_output s t \<Longrightarrow> same_output (run_calls view_ops cs s) (run_calls view_ops cs t)"
  by (induction cs arbitrary: s t) (simp_all add: view_step_cong)

lemma view_step_commute:
  assumes "is_listener_call c"
  shows "same_output (call_step view_ops d (call_step view_ops c s))
    (call_step view_ops c (call_step view_ops d s))"
proof (cases "target d = target c")
  case True
  with assms show ?thesis
    by (cases c; cases d; cases "promises s (the (target c))")
      (auto simp: same_output_def on_promise_def view_ops_def)
next
  case False
  with assms show ?thesis
    by (cases c; cases d; cases "promises s (the (target c))"; cases "promises s (the (target d))")
      (auto simp: same_output_def on_promise_def view_ops_def onLoad_main_def console_log_def
        fun_upd_twist construct_cases)
qed

lemma run_calls_append: "run_calls ops (cs @ ds) s = run_calls ops ds (run_calls ops cs s)"
  by (induction cs arbitrary: s) simp_all

lemma view_listener_later:
  assumes "is_listener_call c"
  shows "same_output (run_calls view_ops (c # ys) s) (run_calls view_ops (ys @ [c]) s)"
proof (induction ys arbitrary: s)
  case Nil
  show ?case by simp
next
  case (Cons y ys)
  have "same_output (run_calls view_ops (c # y # ys) s)
      (run_calls view_ops (c # ys) (call_step view_ops y s))"
    using view_run_cong [OF view_step_commute [OF assms, of y s], of ys] by simp
  with Cons [of "call_step view_ops y s"] show ?case
    by (auto intro: same_output_trans)
qed

lemma view_listener_moved:
  assumes "is_listener_call c"
  shows "same_output (run_calls view_ops (xs @ c # ys @ zs) s) (run_calls view_ops (xs @ ys @ c # zs) s)"
proof -
  have "same_output (run_calls view_ops (c # ys) (run_calls view_ops xs s))
      (run_calls view_ops (ys @ [c]) (run_calls view_ops xs s))"
    using assms by (rule view_listener_later)
  then have "same_output (run_calls view_ops zs (run_calls view_ops (c # ys) (run_calls view_ops xs s)))
      (run_calls view_ops zs (run_calls view_ops (ys @ [c]) (run_calls view_ops xs s)))"
    by (rule view_run_cong)
  then show ?thesis
    by (simp add: run_calls_append)
qed

text \<open>
  C22. It does not matter when a listener is attached: moving a call of
  \<open>acceptPromise\<close> or \<open>listenRestAction\<close> to a later place in a run, past
  settles of its promise and past any other call, leaves the command modules and
  the errors thrown as they are and the console with the same lines, each as often
  as before. Only their order on the console can change.
\<close>

theorem listener_position:
  assumes "is_listener_call c"
  shows "mset (console (run_calls main_ops (xs @ c # ys @ zs) (object_init new_action reg)))
      = mset (console (run_calls main_ops (xs @ ys @ c # zs) (object_init new_action reg)))
    \<and> commandModules (run_calls main_ops (xs @ c # ys @ zs) (object_init new_action reg))
      = commandModules (run_calls main_ops (xs @ ys @ c # zs) (object_init new_action reg))
    \<and> thrown (run_calls main_ops (xs @ c # ys @ zs) (object_init new_action reg))
      = thrown (run_calls main_ops (xs @ ys @ c # zs) (object_init new_action reg))"
  using view_listener_moved [OF assms, of xs ys zs "object_init (Waiting 0 0) reg"]
  by (simp add: main_console main_modules same_output_def)

theorem listener_position_witness:
  "console (run_calls main_ops [AcceptPromise 0, PromiseResolved 0 ''ok'', CallOnLoad]
      (object_init new_action [])) = [ConsoleLog ''ok'', ConsoleLog ''Loaded !'']
   \<and> console (run_calls main_ops [PromiseResolved 0 ''ok'', CallOnLoad, AcceptPromise 0]
      (object_init new_action [])) = [ConsoleLog ''Loaded !'', ConsoleLog ''ok'']
   \<and> mset [ConsoleLog ''ok'', ConsoleLog ''Loaded !''] = mset [ConsoleLog ''Loaded !'', ConsoleLog ''ok'']"
proof -
  have a: "console (run_calls main_ops [AcceptPromise 0, PromiseResolved 0 ''ok'', CallOnLoad]
      (object_init new_action [])) = [ConsoleLog ''ok'', ConsoleLog ''Loaded !'']"
    and b: "console (run_calls main_ops [PromiseResolved 0 ''ok'', CallOnLoad, AcceptPromise 0]
      (object_init new_action [])) = [ConsoleLog ''Loaded !'', ConsoleLog ''ok'']"
    by (simp_all only: main_console)
      (simp_all add: object_init_def on_promise_def view_ops_def onLoad_main_def console_log_def)
  show ?thesis
    using a b listener_position [of "AcceptPromise 0" "[]" "[PromiseResolved 0 ''ok'', CallOnLoad]" "[]" "[]"]
    by simp
qed

end
