(* ===== verification/Main_Console.thy ===== *)
theory Main_Console
  imports Main_Interleaving
begin

text \<open>
  What the console of \<open>src/example/main.js\<close> holds after a run, in closed form.
  \<open>line_for cs c\<close> is the one line that the call \<open>c\<close> of the run \<open>cs\<close> is
  owed, if any: \<open>Loaded !\<close> for a call of \<open>onLoad\<close>; for \<open>acceptPromise\<close>
  the value or reason of the first settle of its promise anywhere in the run; for
  \<open>listenRestAction\<close> the value of that settle when it is a resolve; nothing for
  the constructor and for the settles themselves. The theory shows that the console
  holds exactly these lines, each as often as its call occurs, so no listener prints
  twice, none is forgotten, and nothing else is printed.

  The second part compares the two listeners: \<open>with_catch\<close> replaces a call of
  \<open>listenRestAction\<close> by one of \<open>acceptPromise\<close>, and \<open>same_but_catch\<close>
  relates two states that differ in the number of listeners waiting for a reason
  only.

  The proof of the closed form follows a run from its end: \<open>view_after\<close> gives
  the view of a promise after a run as a function of the calls, \<open>step_lines\<close>
  what one more call prints on these views, and a settle that takes effect pays
  every listener waiting for it at once.
\<close>

section \<open>The line a call is owed\<close>

primrec value_line_of :: "main_call \<Rightarrow> out_line option" where
  "value_line_of (Construct k) = None"
| "value_line_of CallOnLoad = None"
| "value_line_of (AcceptPromise i) = None"
| "value_line_of (ListenRestAction i) = None"
| "value_line_of (PromiseResolved i v) = Some (ConsoleLog v)"
| "value_line_of (PromiseRejected i e) = None"

primrec line_for :: "main_call list \<Rightarrow> main_call \<Rightarrow> out_line option" where
  "line_for cs (Construct k) = None"
| "line_for cs CallOnLoad = Some (ConsoleLog ''Loaded !'')"
| "line_for cs (AcceptPromise i) = Option.bind (first_settle i cs) settle_line_of"
| "line_for cs (ListenRestAction i) = Option.bind (first_settle i cs) value_line_of"
| "line_for cs (PromiseResolved i v) = None"
| "line_for cs (PromiseRejected i e) = None"

section \<open>The promises after a run\<close>

definition waits_value :: "nat \<Rightarrow> main_call \<Rightarrow> bool" where
  "waits_value i c \<longleftrightarrow> c = AcceptPromise i \<or> c = ListenRestAction i"

definition waits_reason :: "nat \<Rightarrow> main_call \<Rightarrow> bool" where
  "waits_reason i c \<longleftrightarrow> c = AcceptPromise i"

primrec view_of_settle :: "main_call \<Rightarrow> promise_view" where
  "view_of_settle (Construct k) = Waiting 0 0"
| "view_of_settle CallOnLoad = Waiting 0 0"
| "view_of_settle (AcceptPromise i) = Waiting 0 0"
| "view_of_settle (ListenRestAction i) = Waiting 0 0"
| "view_of_settle (PromiseResolved i v) = Fulfilled v"
| "view_of_settle (PromiseRejected i e) = Broken e"

definition view_after :: "nat \<Rightarrow> main_call list \<Rightarrow> promise_view" where
  "view_after i cs =
     (case first_settle i cs of
        None \<Rightarrow> Waiting (length (filter (waits_value i) cs)) (length (filter (waits_reason i) cs))
      | Some c \<Rightarrow> view_of_settle c)"

section \<open>What one call prints\<close>

primrec step_lines :: "(nat \<Rightarrow> promise_view) \<Rightarrow> main_call \<Rightarrow> out_line list" where
  "step_lines f (Construct k) = []"
| "step_lines f CallOnLoad = [ConsoleLog ''Loaded !'']"
| "step_lines f (AcceptPromise i) =
     (case f i of Waiting n m \<Rightarrow> [] | Fulfilled v \<Rightarrow> [ConsoleLog v] | Broken e \<Rightarrow> [ConsoleError e])"
| "step_lines f (ListenRestAction i) =
     (case f i of Waiting n m \<Rightarrow> [] | Fulfilled v \<Rightarrow> [ConsoleLog v] | Broken e \<Rightarrow> [])"
| "step_lines f (PromiseResolved i v) =
     (case f i of Waiting n m \<Rightarrow> replicate n (ConsoleLog v) | Fulfilled v' \<Rightarrow> [] | Broken e \<Rightarrow> [])"
| "step_lines f (PromiseRejected i e) =
     (case f i of Waiting n m \<Rightarrow> replicate m (ConsoleError e) | Fulfilled v \<Rightarrow> [] | Broken e' \<Rightarrow> [])"

section \<open>The two listeners compared\<close>

primrec with_catch :: "main_call \<Rightarrow> main_call" where
  "with_catch (Construct k) = Construct k"
| "with_catch CallOnLoad = CallOnLoad"
| "with_catch (AcceptPromise i) = AcceptPromise i"
| "with_catch (ListenRestAction i) = AcceptPromise i"
| "with_catch (PromiseResolved i v) = PromiseResolved i v"
| "with_catch (PromiseRejected i e) = PromiseRejected i e"

primrec is_reject :: "main_call \<Rightarrow> bool" where
  "is_reject (Construct k) = False"
| "is_reject CallOnLoad = False"
| "is_reject (AcceptPromise i) = False"
| "is_reject (ListenRestAction i) = False"
| "is_reject (PromiseResolved i v) = False"
| "is_reject (PromiseRejected i e) = True"

fun same_values :: "promise_view \<Rightarrow> promise_view \<Rightarrow> bool" where
  "same_values (Waiting n m) (Waiting n' m') \<longleftrightarrow> n = n'"
| "same_values (Fulfilled v) (Fulfilled v') \<longleftrightarrow> v = v'"
| "same_values p q \<longleftrightarrow> False"

definition same_but_catch :: "promise_view object_state \<Rightarrow> promise_view object_state \<Rightarrow> bool" where
  "same_but_catch s t \<longleftrightarrow>
     commandModules s = commandModules t \<and> thrown s = thrown t \<and> console s = console t
       \<and> (\<forall>i. same_values (promises s i) (promises t i))"

section \<open>The first settle of a longer run\<close>

lemma first_settle_snoc:
  "first_settle i (cs @ [c]) =
     (case first_settle i cs of Some x \<Rightarrow> Some x | None \<Rightarrow> if settles i c then Some c else None)"
  by (simp add: first_settle_def find_append split: option.splits)

lemma first_settle_settles: "first_settle i cs = Some c \<Longrightarrow> settles i c"
  by (auto simp: first_settle_def dest: find_Some_set)

lemma run_calls_snoc: "run_calls ops (cs @ [c]) s = call_step ops c (run_calls ops cs s)"
  by (simp add: run_calls_append)

lemma settles_cases:
  "settles i c \<longleftrightarrow> (\<exists>v. c = PromiseResolved i v) \<or> (\<exists>e. c = PromiseRejected i e)"
  by (cases c) (auto simp: settles_def)

section \<open>The view of a promise after a run\<close>

lemma view_after_Nil [simp]: "view_after i [] = Waiting 0 0"
  by (simp add: view_after_def first_settle_def)

lemma view_after_snoc:
  "view_after i (cs @ [c]) =
     (case view_after i cs of
        Waiting n m \<Rightarrow>
          if settles i c then view_of_settle c
          else Waiting (if waits_value i c then Suc n else n) (if waits_reason i c then Suc m else m)
      | p \<Rightarrow> p)"
  by (cases "first_settle i cs")
    (auto simp: view_after_def first_settle_snoc settles_cases dest!: first_settle_settles)

lemma view_run_promises:
  "promises (run_calls view_ops cs (object_init (Waiting 0 0) reg)) i = view_after i cs"
proof (induction cs rule: rev_induct)
  case Nil
  show ?case by (simp add: object_init_def)
next
  case (snoc c cs)
  show ?case
  proof (cases "target c = Some i")
    case False
    then have "\<not> settles i c" "\<not> waits_value i c" "\<not> waits_reason i c"
      by (auto simp: settles_def waits_value_def waits_reason_def)
    with False snoc show ?thesis
      by (simp add: run_calls_snoc view_after_snoc view_step_other split: promise_view.splits)
  next
    case True
    with snoc show ?thesis
      by (cases c; cases "view_after i cs")
        (auto simp: run_calls_snoc view_after_snoc on_promise_def view_ops_def settles_def
          waits_value_def waits_reason_def)
  qed
qed

section \<open>The owed lines of a longer run\<close>

lemma map_filter_snoc:
  "List.map_filter f (xs @ [x]) = List.map_filter f xs @ (case f x of None \<Rightarrow> [] | Some y \<Rightarrow> [y])"
  by (simp add: List.map_filter_def split: option.splits)

lemma mset_map_filter_owed:
  assumes "\<And>x. g' x = (if P x then Some l else g x)" and "\<And>x. P x \<Longrightarrow> g x = None"
  shows "mset (List.map_filter g' xs)
    = mset (List.map_filter g xs) + replicate_mset (length (filter P xs)) l"
  by (induction xs) (simp_all add: List.map_filter_simps assms split: option.splits)

lemma line_for_snoc_other:
  assumes "\<And>i. settles i c \<Longrightarrow> first_settle i cs \<noteq> None"
  shows "line_for (cs @ [c]) x = line_for cs x"
proof -
  have "first_settle i (cs @ [c]) = first_settle i cs" for i
    using assms [of i] by (auto simp: first_settle_snoc split: option.splits)
  then show ?thesis by (cases x) simp_all
qed

lemma first_settle_snoc_new:
  assumes "settles i c" and "first_settle i cs = None"
  shows "first_settle k (cs @ [c]) = (if k = i then Some c else first_settle k cs)"
  using assms by (auto simp: first_settle_snoc settles_def split: option.splits)

lemma line_for_resolved:
  assumes "first_settle i cs = None"
  shows "line_for (cs @ [PromiseResolved i v]) x =
    (if waits_value i x then Some (ConsoleLog v) else line_for cs x)"
    and "waits_value i x \<Longrightarrow> line_for cs x = None"
  using assms first_settle_snoc_new [of i "PromiseResolved i v" cs]
  by (cases x; simp add: waits_value_def settles_def)+

lemma line_for_rejected:
  assumes "first_settle i cs = None"
  shows "line_for (cs @ [PromiseRejected i e]) x =
    (if waits_reason i x then Some (ConsoleError e) else line_for cs x)"
    and "waits_reason i x \<Longrightarrow> line_for cs x = None"
  using assms first_settle_snoc_new [of i "PromiseRejected i e" cs]
  by (cases x; simp add: waits_reason_def settles_def)+

lemma mset_line_for_settle:
  assumes "settles i c" and "first_settle i cs = None"
  shows "mset (List.map_filter (line_for (cs @ [c])) xs)
    = mset (List.map_filter (line_for cs) xs)
      + (case c of
           PromiseResolved j v \<Rightarrow> replicate_mset (length (filter (waits_value i) xs)) (ConsoleLog v)
         | PromiseRejected j e \<Rightarrow> replicate_mset (length (filter (waits_reason i) xs)) (ConsoleError e)
         | _ \<Rightarrow> {#})"
proof (cases c)
  case (PromiseResolved j v)
  with assms(1) have c: "c = PromiseResolved i v"
    by (simp add: settles_def)
  from mset_map_filter_owed [of "line_for (cs @ [c])" "waits_value i" "ConsoleLog v" "line_for cs" xs]
  show ?thesis by (simp add: c line_for_resolved [OF assms(2)])
next
  case (PromiseRejected j e)
  with assms(1) have c: "c = PromiseRejected i e"
    by (simp add: settles_def)
  from mset_map_filter_owed [of "line_for (cs @ [c])" "waits_reason i" "ConsoleError e" "line_for cs" xs]
  show ?thesis by (simp add: c line_for_rejected [OF assms(2)])
qed (insert assms, simp_all add: settles_def)

section \<open>The console after a run\<close>

lemma view_step_lines:
  "console (call_step view_ops c s) = console s @ step_lines (promises s) c"
  by (cases c; cases "promises s (the (target c))")
    (simp_all add: on_promise_def view_ops_def onLoad_main_def console_log_def)

lemma view_run_snoc_console:
  "console (run_calls view_ops (cs @ [c]) (object_init (Waiting 0 0) reg))
     = console (run_calls view_ops cs (object_init (Waiting 0 0) reg))
       @ step_lines (\<lambda>i. view_after i cs) c"
  by (simp add: run_calls_snoc view_step_lines view_run_promises [abs_def])

lemma step_lines_line_for:
  assumes "\<And>i. settles i c \<Longrightarrow> first_settle i cs \<noteq> None"
  shows "step_lines (\<lambda>i. view_after i cs) c = (case line_for cs c of None \<Rightarrow> [] | Some l \<Rightarrow> [l])"
proof (cases "target c")
  case None
  then show ?thesis by (cases c) simp_all
next
  case (Some i)
  show ?thesis
  proof (cases "first_settle i cs")
    case None
    with Some assms [of i] show ?thesis
      by (cases c) (auto simp: view_after_def settles_def)
  next
    case (Some c')
    with first_settle_settles [OF Some] \<open>target c = Some i\<close> show ?thesis
      by (cases c) (auto simp: view_after_def settles_cases)
  qed
qed

lemma step_lines_first_settle:
  assumes "settles i c" and "first_settle i cs = None"
  shows "mset (step_lines (\<lambda>i. view_after i cs) c) =
    (case c of
       PromiseResolved j v \<Rightarrow> replicate_mset (length (filter (waits_value i) cs)) (ConsoleLog v)
     | PromiseRejected j e \<Rightarrow> replicate_mset (length (filter (waits_reason i) cs)) (ConsoleError e)
     | _ \<Rightarrow> {#})"
  using assms by (cases c) (auto simp: view_after_def settles_def)

lemma view_console_closed:
  "mset (console (run_calls view_ops cs (object_init (Waiting 0 0) reg)))
     = mset (List.map_filter (line_for cs) cs)"
proof (induction cs rule: rev_induct)
  case Nil
  show ?case by (simp add: object_init_def List.map_filter_simps)
next
  case (snoc c cs)
  show ?case
  proof (cases "\<exists>i. settles i c \<and> first_settle i cs = None")
    case False
    then have "line_for (cs @ [c]) x = line_for cs x" for x
      by (intro line_for_snoc_other) auto
    moreover from False
    have "step_lines (\<lambda>i. view_after i cs) c = (case line_for cs c of None \<Rightarrow> [] | Some l \<Rightarrow> [l])"
      by (intro step_lines_line_for) auto
    ultimately show ?thesis
      using snoc by (simp add: view_run_snoc_console map_filter_snoc)
  next
    case True
    then obtain i where i: "settles i c" "first_settle i cs = None"
      by blast
    then have "line_for (cs @ [c]) c = None"
      by (auto simp: settles_cases)
    with snoc show ?thesis
      by (simp add: view_run_snoc_console map_filter_snoc mset_line_for_settle [OF i]
          step_lines_first_settle [OF i])
  qed
qed

text \<open>
  C23. Every line on the console of \<open>main.js\<close> is owed and every owed line is
  there, once per call: after any run of calls on the object, started on new
  promises, the console holds as a multiset exactly one \<open>Loaded !\<close> per call of
  \<open>onLoad\<close>, for each call of \<open>acceptPromise\<close> on a promise that is settled
  somewhere in the run the value or reason of its first settle, and for each call of
  \<open>listenRestAction\<close> on a promise whose first settle is a resolve its value.
\<close>

theorem console_exactly_once:
  "mset (console (run_calls main_ops cs (object_init new_action reg)))
     = mset (List.map_filter (line_for cs) cs)"
  by (simp add: main_console view_console_closed)

section \<open>The listener without a \<open>catch\<close>\<close>

lemma same_values_step:
  assumes "same_but_catch s t" and "\<not> is_reject c"
  shows "same_but_catch (call_step view_ops c s) (call_step view_ops (with_catch c) t)"
proof -
  from assms(1) have p: "same_values (promises s i) (promises t i)" for i
    by (simp add: same_but_catch_def)
  show ?thesis
  proof (cases "target c")
    case None
    with assms show ?thesis
      by (cases c) (simp_all add: same_but_catch_def construct_cases)
  next
    case (Some i)
    with assms p [of i] show ?thesis
      by (cases c; cases "promises s i"; cases "promises t i")
        (auto simp: same_but_catch_def on_promise_def view_ops_def)
  qed
qed

lemma same_values_run:
  assumes "same_but_catch s t" and "list_all (\<lambda>c. \<not> is_reject c) cs"
  shows "same_but_catch (run_calls view_ops cs s) (run_calls view_ops (map with_catch cs) t)"
  using assms by (induction cs arbitrary: s t) (simp_all add: same_values_step)

text \<open>
  C29. \<open>listenRestAction\<close> is \<open>acceptPromise\<close> without the \<open>catch\<close>, and
  the difference shows on a rejection only: in a run in which no promise is rejected,
  replacing every call of \<open>listenRestAction\<close> by a call of \<open>acceptPromise\<close>
  on the same promise leaves the console as it is, line for line.
\<close>

theorem listenRestAction_without_reject:
  assumes "list_all (\<lambda>c. \<not> is_reject c) cs"
  shows "console (run_calls main_ops (map with_catch cs) (object_init new_action reg))
    = console (run_calls main_ops cs (object_init new_action reg))"
proof -
  have "same_but_catch (object_init (Waiting 0 0) reg) (object_init (Waiting 0 0) reg)"
    by (simp add: same_but_catch_def object_init_def)
  from same_values_run [OF this assms] show ?thesis
    by (simp add: main_console same_but_catch_def)
qed

theorem listenRestAction_without_reject_witness:
  "console (run_calls main_ops [AcceptPromise 0, PromiseResolved 0 ''ok'', AcceptPromise 0]
      (object_init new_action []))
   = console (run_calls main_ops [ListenRestAction 0, PromiseResolved 0 ''ok'', AcceptPromise 0]
      (object_init new_action []))"
  using listenRestAction_without_reject
    [of "[ListenRestAction 0, PromiseResolved 0 ''ok'', AcceptPromise 0]" "[]"]
  by simp

text \<open>With a rejection the two differ: the reason reaches the console through
  \<open>acceptPromise\<close> and is lost with \<open>listenRestAction\<close>.\<close>

lemma listenRestAction_with_reject:
  "console (run_calls main_ops [ListenRestAction 0, PromiseRejected 0 e] (object_init new_action reg)) = []"
  "console (run_calls main_ops [AcceptPromise 0, PromiseRejected 0 e] (object_init new_action reg))
     = [ConsoleError e]"
  by (simp_all only: main_console) (simp_all add: object_init_def on_promise_def view_ops_def)

end
