(* ===== verification/Promise_Chain.thy ===== *)
theory Promise_Chain
  imports Main_Class
begin

text \<open>
  The two listeners of \<open>src/example/main.js\<close> read with the promises of
  JavaScript. \<open>Main_Script\<close> reads \<open>p.then(f).catch(g)\<close> as the
  specification does: \<open>then\<close> and \<open>catch\<close> register a success and a
  failure continuation on the one action \<open>p\<close>. In JavaScript \<open>p.then(f)\<close>
  is a new promise: it is fulfilled (with the result of \<open>f\<close>, here
  \<open>undefined\<close>) after \<open>f\<close> has run on the value of \<open>p\<close>, and it is
  rejected with the reason of \<open>p\<close> when \<open>p\<close> is rejected; \<open>.catch(g)\<close>
  registers \<open>g\<close> on that new promise, not on \<open>p\<close>.

  This theory models that reading. A \<open>chained\<close> promise is the promise the
  caller passes (\<open>origin\<close>) together with the promises its \<open>then\<close> calls
  have returned (\<open>derived\<close>, in the order of the calls). The continuations of
  the origin act on the derived promises and the console together:
  \<open>fulfil_reaction\<close> runs the callback and fulfils the derived promise,
  \<open>reject_reaction\<close> hands the reason on. \<open>then_chain\<close> and
  \<open>catch_chain\<close> are the two methods, \<open>acceptPromise_chain\<close> and
  \<open>listenRestAction_chain\<close> the two methods of \<open>main.js\<close> written with
  them, \<open>chain_ops\<close> the interface \<open>Main_Class\<close> runs. Continuations
  fire when the promise is settled, in the order of registration, as in
  \<open>Async_Action\<close>; a callback does not throw (\<open>console.log\<close> and
  \<open>console.error\<close> do not).

  The result is that both readings simulate the same views (\<open>view_ops\<close>):
  \<open>chain_simulates\<close> is the simulation, with the invariant \<open>chain_ok\<close>
  and the abstraction \<open>chain_view\<close>, and the console of every run of the
  object is the same under both readings.
\<close>

section \<open>Promises with derived promises\<close>

type_synonym derived_promise = "(unit, string, trace) async_action"

type_synonym chain_world = "derived_promise list \<times> trace"

record chained =
  origin :: "(string, string, chain_world) async_action"
  derived :: "derived_promise list"

definition new_chained :: chained where
  "new_chained = \<lparr>origin = new_action, derived = []\<rparr>"

definition fulfil_reaction :: "(string \<Rightarrow> trace \<Rightarrow> trace) \<Rightarrow> nat \<Rightarrow> string \<Rightarrow> chain_world \<Rightarrow> chain_world" where
  "fulfil_reaction f i v dw =
     (case dw of (ds, w) \<Rightarrow>
        (case resolve_action () (ds ! i, f v w) of (d, w') \<Rightarrow> (ds[i := d], w')))"

definition reject_reaction :: "nat \<Rightarrow> string \<Rightarrow> chain_world \<Rightarrow> chain_world" where
  "reject_reaction i reason dw =
     (case dw of (ds, w) \<Rightarrow>
        (case reject_action reason (ds ! i, w) of (d, w') \<Rightarrow> (ds[i := d], w')))"

definition on_origin ::
  "((string, string, chain_world) async_action \<times> chain_world
      \<Rightarrow> (string, string, chain_world) async_action \<times> chain_world)
   \<Rightarrow> chained \<times> trace \<Rightarrow> chained \<times> trace" where
  "on_origin f pw =
     (case pw of (p, w) \<Rightarrow>
        (case f (origin p, (derived p, w)) of (a, (ds, w')) \<Rightarrow> (\<lparr>origin = a, derived = ds\<rparr>, w')))"

definition then_chain :: "(string \<Rightarrow> trace \<Rightarrow> trace) \<Rightarrow> chained \<times> trace \<Rightarrow> chained \<times> trace" where
  "then_chain f pw =
     (case pw of (p, w) \<Rightarrow>
        on_origin (\<lambda>aw. onFailure (reject_reaction (length (derived p)))
                     (onSuccess (fulfil_reaction f (length (derived p))) aw))
          (p\<lparr>derived := derived p @ [new_action]\<rparr>, w))"

definition catch_chain :: "(string \<Rightarrow> trace \<Rightarrow> trace) \<Rightarrow> chained \<times> trace \<Rightarrow> chained \<times> trace" where
  "catch_chain g pw =
     (case pw of (p, w) \<Rightarrow>
        (case onFailure g (last (derived p), w) of
           (d, w') \<Rightarrow> (p\<lparr>derived := butlast (derived p) @ [d]\<rparr>, w')))"

definition acceptPromise_chain :: "chained \<times> trace \<Rightarrow> chained \<times> trace" where
  "acceptPromise_chain p =
     catch_chain (\<lambda>reason. console_error reason) (then_chain (\<lambda>v. console_log v) p)"

definition listenRestAction_chain :: "chained \<times> trace \<Rightarrow> chained \<times> trace" where
  "listenRestAction_chain a = then_chain (\<lambda>v. console_log v) a"

definition chain_ops :: "chained promise_ops" where
  "chain_ops = \<lparr>accept_op = acceptPromise_chain, listen_op = listenRestAction_chain,
                resolve_op = (\<lambda>v. on_origin (resolve_action v)),
                reject_op = (\<lambda>e. on_origin (reject_action e))\<rparr>"

definition has_catch :: "derived_promise \<Rightarrow> bool" where
  "has_catch d \<longleftrightarrow> on_failure d \<noteq> []"

definition chain_view :: "chained \<Rightarrow> promise_view" where
  "chain_view p =
     (case state (origin p) of
        Pending \<Rightarrow> Waiting (length (on_success (origin p))) (length (filter has_catch (derived p)))
      | Resolved v \<Rightarrow> Fulfilled v
      | Rejected e \<Rightarrow> Broken e)"

definition waiting_derived :: "derived_promise \<Rightarrow> bool" where
  "waiting_derived d \<longleftrightarrow>
     state d = Pending \<and> on_success d = [] \<and> (on_failure d = [] \<or> on_failure d = [console_error])"

definition chain_ok :: "chained \<Rightarrow> bool" where
  "chain_ok p \<longleftrightarrow>
     (case state (origin p) of
        Pending \<Rightarrow>
          on_success (origin p) = map (fulfil_reaction console_log) [0..<length (derived p)]
          \<and> on_failure (origin p) = map reject_reaction [0..<length (derived p)]
          \<and> list_all waiting_derived (derived p)
      | _ \<Rightarrow> on_success (origin p) = [] \<and> on_failure (origin p) = [])"

section \<open>One reaction\<close>

lemma resolve_quiet:
  assumes "on_success d = []"
  shows "snd (resolve_action x (d, w)) = w" and "on_success (fst (resolve_action x (d, w))) = []"
  using assms by (simp_all add: resolve_action_def fire_def split: async_state.splits)

lemma reject_waiting:
  assumes "waiting_derived d"
  shows "snd (reject_action e (d, w)) = w @ (if has_catch d then [ConsoleError e] else [])"
  using assms
  by (auto simp: waiting_derived_def has_catch_def reject_action_def fire_def console_error_def)

lemma fulfil_reaction_step:
  "fulfil_reaction console_log i v (ds, w)
     = (ds[i := fst (resolve_action () (ds ! i, w @ [ConsoleLog v]))],
        snd (resolve_action () (ds ! i, w @ [ConsoleLog v])))"
  by (simp add: fulfil_reaction_def console_log_def split: prod.splits)

lemma reject_reaction_step:
  "reject_reaction i e (ds, w)
     = (ds[i := fst (reject_action e (ds ! i, w))], snd (reject_action e (ds ! i, w)))"
  by (simp add: reject_reaction_def split: prod.splits)

lemma list_all_update: "list_all P xs \<Longrightarrow> P x \<Longrightarrow> list_all P (xs[i := x])"
  by (auto simp: list_all_iff dest: set_update_subset_insert [THEN subsetD])

section \<open>Firing the reactions\<close>

lemma fire_fulfil:
  assumes "list_all (\<lambda>d. on_success d = []) ds" and "list_all (\<lambda>i. i < length ds) is"
  shows "snd (fire (map (fulfil_reaction console_log) is) v (ds, w))
    = w @ replicate (length is) (ConsoleLog v)"
  using assms
proof (induction "is" arbitrary: ds w)
  case Nil
  then show ?case by (simp add: fire_def)
next
  case (Cons i "is")
  let ?d = "fst (resolve_action () (ds ! i, w @ [ConsoleLog v]))"
  from Cons.prems have i: "on_success (ds ! i) = []"
    by (auto simp: list_all_iff)
  then have "list_all (\<lambda>d. on_success d = []) (ds[i := ?d])"
    using Cons.prems(1) by (intro list_all_update) (simp_all add: resolve_quiet)
  with Cons.IH [of "ds[i := ?d]" "w @ [ConsoleLog v]"] Cons.prems(2) i show ?case
    by (simp add: fire_def fulfil_reaction_step resolve_quiet replicate_append_same)
qed

lemma fire_reject:
  assumes "list_all (\<lambda>i. i < length ds \<and> waiting_derived (ds ! i)) is" and "distinct is"
  shows "snd (fire (map reject_reaction is) e (ds, w))
    = w @ replicate (length (filter (\<lambda>i. has_catch (ds ! i)) is)) (ConsoleError e)"
  using assms
proof (induction "is" arbitrary: ds w)
  case Nil
  then show ?case by (simp add: fire_def)
next
  case (Cons i "is")
  let ?ds = "ds[i := fst (reject_action e (ds ! i, w))]"
  let ?w = "w @ (if has_catch (ds ! i) then [ConsoleError e] else [])"
  from Cons.prems have step: "reject_reaction i e (ds, w) = (?ds, ?w)"
    by (simp add: reject_reaction_step reject_waiting)
  from Cons.prems have same: "\<forall>j \<in> set is. ?ds ! j = ds ! j"
    by (auto simp: nth_list_update)
  with Cons.prems have "list_all (\<lambda>i. i < length ?ds \<and> waiting_derived (?ds ! i)) is"
    by (simp add: list_all_iff)
  moreover from same have "filter (\<lambda>i. has_catch (?ds ! i)) is = filter (\<lambda>i. has_catch (ds ! i)) is"
    by (intro filter_cong) simp_all
  ultimately have "snd (fire (map reject_reaction is) e (?ds, ?w))
    = ?w @ replicate (length (filter (\<lambda>i. has_catch (ds ! i)) is)) (ConsoleError e)"
    using Cons.IH [of ?ds ?w] Cons.prems(2) by simp
  then show ?case
    by (simp add: fire_def step replicate_append_same)
qed

lemma count_indices: "length (filter (\<lambda>i. P (xs ! i)) [0..<length xs]) = length (filter P xs)"
proof -
  have "filter P (map ((!) xs) [0..<length xs]) = map ((!) xs) (filter (\<lambda>i. P (xs ! i)) [0..<length xs])"
    by (simp add: filter_map comp_def)
  then show ?thesis
    by (metis length_map map_nth)
qed

section \<open>The chained listeners simulate the views\<close>

lemma chain_resolve:
  "lifts chain_ok chain_view (on_origin (resolve_action v)) (view_resolve v)"
proof (rule liftsI)
  fix p w
  assume ok: "chain_ok p"
  show "chain_ok (fst (on_origin (resolve_action v) (p, w)))
    \<and> (chain_view (fst (on_origin (resolve_action v) (p, w))), snd (on_origin (resolve_action v) (p, w)))
      = view_resolve v (chain_view p, w)"
  proof (cases "state (origin p)")
    case Pending
    with ok have "snd (fire (on_success (origin p)) v (derived p, w))
      = w @ replicate (length (on_success (origin p))) (ConsoleLog v)"
      using fire_fulfil [of "derived p" "[0..<length (derived p)]" v w]
      by (simp add: chain_ok_def list_all_iff waiting_derived_def)
    with Pending show ?thesis
      by (simp add: on_origin_def resolve_action_def chain_ok_def chain_view_def case_prod_beta)
  next
    case (Resolved x)
    with ok show ?thesis
      by (simp add: on_origin_def resolve_action_def chain_ok_def chain_view_def)
  next
    case (Rejected x)
    with ok show ?thesis
      by (simp add: on_origin_def resolve_action_def chain_ok_def chain_view_def)
  qed
qed


lemma chain_reject:
  "lifts chain_ok chain_view (on_origin (reject_action e)) (view_reject e)"
proof (rule liftsI)
  fix p w
  assume ok: "chain_ok p"
  show "chain_ok (fst (on_origin (reject_action e) (p, w)))
    \<and> (chain_view (fst (on_origin (reject_action e) (p, w))), snd (on_origin (reject_action e) (p, w)))
      = view_reject e (chain_view p, w)"
  proof (cases "state (origin p)")
    case Pending
    with ok have "snd (fire (on_failure (origin p)) e (derived p, w))
      = w @ replicate (length (filter has_catch (derived p))) (ConsoleError e)"
      using fire_reject [of "derived p" "[0..<length (derived p)]" e w]
      by (simp add: chain_ok_def list_all_iff count_indices)
    with Pending show ?thesis
      by (simp add: on_origin_def reject_action_def chain_ok_def chain_view_def case_prod_beta)
  next
    case (Resolved x)
    with ok show ?thesis
      by (simp add: on_origin_def reject_action_def chain_ok_def chain_view_def)
  next
    case (Rejected x)
    with ok show ?thesis
      by (simp add: on_origin_def reject_action_def chain_ok_def chain_view_def)
  qed
qed

lemmas chain_defs =
  then_chain_def catch_chain_def on_origin_def onSuccess_def onFailure_def chain_ok_def
  chain_view_def has_catch_def waiting_derived_def new_action_def fulfil_reaction_def
  reject_reaction_def resolve_action_def reject_action_def fire_def console_log_def
  console_error_def

lemma chain_listen: "lifts chain_ok chain_view listenRestAction_chain view_listen"
  unfolding listenRestAction_chain_def
  by (rule liftsI) (auto simp: chain_defs split: async_state.splits)

lemma chain_accept: "lifts chain_ok chain_view acceptPromise_chain view_accept"
  unfolding acceptPromise_chain_def
  by (rule liftsI) (auto simp: chain_defs split: async_state.splits)

lemma chain_simulates: "simulates chain_ok chain_view chain_ops view_ops"
  by (simp add: simulates_def chain_ops_def view_ops_def chain_accept chain_listen chain_resolve
      chain_reject)

lemma chain_ok_new [simp]: "chain_ok new_chained"
  by (simp add: chain_ok_def new_chained_def new_action_def)

lemma chain_view_new [simp]: "chain_view new_chained = Waiting 0 0"
  by (simp add: chain_view_def new_chained_def new_action_def)

lemma chain_run_sim:
  "all_ok chain_ok (run_calls chain_ops cs (object_init new_chained reg))
   \<and> abs_state chain_view (run_calls chain_ops cs (object_init new_chained reg))
       = run_calls view_ops cs (object_init (Waiting 0 0) reg)"
  using run_calls_sim [OF chain_simulates, of "object_init new_chained reg" cs]
  by (simp add: all_ok_def object_init_def abs_state_def)

section \<open>The two readings of the listeners\<close>

text \<open>
  C30. The listeners of \<open>main.js\<close> print the same under both readings of
  \<open>.then(f).catch(g)\<close>: for every sequence of calls, the console of the
  object whose promises are chained as in JavaScript (the \<open>catch\<close> on the
  promise \<open>then\<close> returns) is, line for line and in the same order, the
  console of the object of \<open>Main_Script\<close>, where both continuations are
  registered on the promise itself.
\<close>

theorem chained_listeners_print_the_same:
  "console (run_calls chain_ops cs (object_init new_chained reg))
     = console (run_calls main_ops cs (object_init new_action reg))"
  using chain_run_sim [of cs reg]
    console_abs_state [of chain_view "run_calls chain_ops cs (object_init new_chained reg)"]
  by (simp add: main_console)

end
