(* ===== verification/Test_Script.thy ===== *)
theory Test_Script
  imports Module_Host
begin

text \<open>
  The script \<open>src/example/scripts/test.js\<close>: a module that overrides both
  lifecycle hooks and writes one line to the logger \<open>JS TestModule\<close> in each.
  The base module it extends is the argument of \<open>TestModule_test\<close>.
  The constants carry the suffix \<open>_test\<close>, since the other scripts use the same
  names.
\<close>

section \<open>The module\<close>

definition LOG_test :: string where
  "LOG_test = ''JS TestModule''"

definition TestModule_test :: "('m, 'b) js_module \<Rightarrow> ('m, 'b) js_module" where
  "TestModule_test BaseJavaScriptModule = BaseJavaScriptModule
     \<lparr>info := Some (ModuleInfo ''TestModule'' ''Author'' ''URL'' ''1.0'' 1),
      onLoad := (\<lambda>moduleManager builder. log_info LOG_test ''Module loaded !''),
      onUnload := log_info LOG_test ''Module unloaded !''\<rparr>"

definition getModule_test :: "('m, 'b) js_module \<Rightarrow> ('m, 'b) js_module" where
  "getModule_test BaseJavaScriptModule = TestModule_test BaseJavaScriptModule"

lemmas test_script_defs [script_defs] = LOG_test_def TestModule_test_def getModule_test_def

section \<open>What the module must log\<close>

primrec lifecycle_line :: "('m, 'b) lifecycle \<Rightarrow> out_line" where
  "lifecycle_line (Load moduleManager builder) = LogInfo ''JS TestModule'' ''Module loaded !''"
| "lifecycle_line Unload = LogInfo ''JS TestModule'' ''Module unloaded !''"

section \<open>The lifecycle\<close>

lemma hook_TestModule_test: "hook (TestModule_test base) ev tr = tr @ [lifecycle_line ev]"
  by (cases ev) (simp_all add: TestModule_test_def LOG_test_def log_info_def)

lemma info_TestModule_test:
  "info (getModule_test base) = Some (ModuleInfo ''TestModule'' ''Author'' ''URL'' ''1.0'' 1)"
  by (simp add: getModule_test_def TestModule_test_def)

text \<open>
  C13. The module of \<open>test.js\<close> logs every lifecycle event it sees, and nothing
  else: over any sequence of loads and unloads the trace grows by exactly one line
  per event, in the order of the events, \<open>Module loaded !\<close> for a load and
  \<open>Module unloaded !\<close> for an unload, all on the logger \<open>JS TestModule\<close>,
  whatever module manager and builder the host passes with a load and whatever the
  base module is, since the script overrides both hooks.
\<close>

theorem TestModule_test_trace:
  "run_lifecycle (getModule_test base) evs tr = tr @ map lifecycle_line evs"
proof -
  have "run_lifecycle (TestModule_test base) evs tr = tr @ concat (map (\<lambda>ev. [lifecycle_line ev]) evs)"
    by (rule run_lifecycle_appending) (rule hook_TestModule_test)
  also have "concat (map (\<lambda>ev. [lifecycle_line ev]) evs) = map lifecycle_line evs"
    by (induction evs) simp_all
  finally show ?thesis by (simp add: getModule_test_def)
qed

end
