(* ===== verification/Command_Adapter.thy ===== *)
theory Command_Adapter
  imports Module_Host Script_Header
begin

text \<open>
  The script \<open>src/ModularBot-NashornCommandSupport/src/main/resources/commandAdapter.js\<close>:
  the adapter module that the command support ships. It does not rely on the header
  of the example scripts: it binds its base type and \<open>ModuleInfo\<close> itself, by
  name. It extends the base with its \<open>ModuleInfo\<close> and an \<open>onLoad\<close> whose body
  is empty. The base class behind the name \<open>BaseJsModule\<close> is a Java class that is
  not under \<open>src/\<close>; it is the argument of \<open>CommandAdapterModule\<close>.
\<close>

section \<open>The bindings\<close>

definition BaseJsModule_type :: string where
  "BaseJsModule_type = ''com.jesus_crie.modularbot_nashornsupport.module.BaseJsModule''"

definition ModuleInfo_type_adapter :: string where
  "ModuleInfo_type_adapter = ''com.jesus_crie.modularbot.module.BaseModule.ModuleInfo''"

section \<open>The module\<close>

definition CommandAdapterModule :: "('m, 'b) js_module \<Rightarrow> ('m, 'b) js_module" where
  "CommandAdapterModule BaseJsModule = BaseJsModule
     \<lparr>info := Some (ModuleInfo ''JS CommandAdapter'' ''Jesus-Crie''
         ''https://github.com/JesusCrie/ModularBot'' ''1.0'' 1),
      onLoad := (\<lambda>moduleManager builder tr. tr)\<rparr>"

definition getModule_adapter :: "('m, 'b) js_module \<Rightarrow> ('m, 'b) js_module" where
  "getModule_adapter BaseJsModule = CommandAdapterModule BaseJsModule"

lemmas command_adapter_defs [script_defs] = CommandAdapterModule_def getModule_adapter_def

section \<open>The lifecycle\<close>

lemma hook_CommandAdapterModule:
  "hook (CommandAdapterModule base) ev tr = (if is_Load ev then tr else onUnload base tr)"
  by (cases ev) (simp_all add: CommandAdapterModule_def)

lemma info_CommandAdapterModule:
  "map_option mod_name (info (getModule_adapter base)) = Some ''JS CommandAdapter''"
  by (simp add: getModule_adapter_def CommandAdapterModule_def)

text \<open>
  C14. The adapter replaces the \<open>onLoad\<close> of its base by nothing and keeps its
  \<open>onUnload\<close>: whatever the base class does when it is loaded, driven through any
  sequence of lifecycle events the adapter leaves the trace that its base leaves on
  the unloads of the sequence alone. Nothing the base would do on a load happens.
\<close>

theorem CommandAdapterModule_drops_loads:
  "run_lifecycle (getModule_adapter base) evs tr
     = run_lifecycle base (filter (\<lambda>ev. \<not> is_Load ev) evs) tr"
  unfolding getModule_adapter_def
proof (induction evs arbitrary: tr)
  case Nil
  show ?case by simp
next
  case (Cons ev evs)
  then show ?case by (cases ev) (simp_all add: CommandAdapterModule_def)
qed

section \<open>The adapter and the header\<close>

text \<open>The adapter and the header of the example scripts agree on the type of a
  module's info and name different classes as the base of a module.\<close>

lemma adapter_bindings:
  "ModuleInfo_type_adapter = ModuleInfo_type" "BaseJsModule_type \<noteq> BaseJavaScriptModule_type"
  by (simp_all add: ModuleInfo_type_adapter_def ModuleInfo_type_def BaseJsModule_type_def
      BaseJavaScriptModule_type_def)

end
