(* ===== verification/Script_Scope.thy ===== *)
theory Script_Scope
  imports Test_Command Test_Script Command_Adapter
begin

text \<open>
  The global names of the scripts. \<open>src/example/scripts/testCommand.js\<close> and
  \<open>src/example/scripts/test.js\<close> both declare \<open>var LOG\<close>, \<open>var TestModule\<close>
  and \<open>function getModule\<close>; the adapter declares \<open>var CommandAdapterModule\<close>
  and \<open>function getModule\<close>. A \<open>var\<close> inside a \<open>with\<close> block is a variable
  of the enclosing scope, so all of them are globals of the scope the script is
  evaluated in, and the body of a hook (\<open>LOG.info(...)\<close>) and of \<open>getModule\<close>
  (\<open>new TestModule()\<close>) reads its global when it is called, not when it is
  declared.

  The theories of the scripts give each script a scope of its own: there \<open>LOG\<close>
  is a constant. Here the scope is a value (\<open>globals\<close>), a script is what it
  assigns (\<open>eval_script\<close>), a class is a record of hooks that take the binding of
  \<open>LOG\<close> at the time of the call (\<open>js_class\<close>), and a hook that reads an
  unbound \<open>LOG\<close> fails with a \<open>ReferenceError\<close>. Whether the host gives each
  script its own scope is not in \<open>src/\<close>; the theory shows that the scripts
  depend on it. Neither are the Java classes the scripts extend: \<open>java\<close>, what
  \<open>Java.type\<close> gives for a class name, is a parameter, and a script extends the
  class that \<open>java\<close> gives for the name the header (or the adapter itself)
  binds. The name \<open>LOG\<close> is taken to be no class of an imported package, so
  that the \<open>with\<close> blocks pass it on to the global scope.
\<close>

section \<open>Hooks that read a global\<close>

datatype script_failure = ReferenceError string

type_synonym late_hook = "string option \<Rightarrow> trace \<Rightarrow> script_failure + trace"

definition LOG_info :: "string \<Rightarrow> late_hook" where
  "LOG_info msg bound tr =
     (case bound of
        None \<Rightarrow> Inl (ReferenceError ''LOG'')
      | Some logger \<Rightarrow> Inr (log_info logger msg tr))"

definition no_effect :: late_hook where
  "no_effect bound tr = Inr tr"

record ('m, 'b) js_class =
  class_info :: "module_info option"
  class_onLoad :: "'m \<Rightarrow> 'b \<Rightarrow> late_hook"
  class_onUnload :: late_hook

type_synonym ('m, 'b) java_types = "string \<Rightarrow> ('m, 'b) js_class"

section \<open>The global scope\<close>

datatype class_var = TestModule_var | CommandAdapterModule_var

record ('m, 'b) globals =
  LOG :: "string option"
  class_bound :: "class_var \<Rightarrow> ('m, 'b) js_class option"
  getModule_bound :: "class_var option"

definition no_globals :: "('m, 'b) globals" where
  "no_globals = \<lparr>LOG = None, class_bound = (\<lambda>x. None), getModule_bound = None\<rparr>"

section \<open>The scripts as they bind globals\<close>

definition TestModule_cmd_class :: "('m, 'b) js_class \<Rightarrow> ('m, 'b) js_class" where
  "TestModule_cmd_class BaseJavaScriptModule = BaseJavaScriptModule
     \<lparr>class_info := Some (ModuleInfo ''TestModule'' ''Author'' ''URL'' ''1.0'' 1),
      class_onLoad := (\<lambda>moduleManager builder. LOG_info ''TestJSCmd loaded !'')\<rparr>"

definition TestModule_test_class :: "('m, 'b) js_class \<Rightarrow> ('m, 'b) js_class" where
  "TestModule_test_class BaseJavaScriptModule = BaseJavaScriptModule
     \<lparr>class_info := Some (ModuleInfo ''TestModule'' ''Author'' ''URL'' ''1.0'' 1),
      class_onLoad := (\<lambda>moduleManager builder. LOG_info ''Module loaded !''),
      class_onUnload := LOG_info ''Module unloaded !''\<rparr>"

definition CommandAdapterModule_class :: "('m, 'b) js_class \<Rightarrow> ('m, 'b) js_class" where
  "CommandAdapterModule_class BaseJsModule = BaseJsModule
     \<lparr>class_info := Some (ModuleInfo ''JS CommandAdapter'' ''Jesus-Crie''
         ''https://github.com/JesusCrie/ModularBot'' ''1.0'' 1),
      class_onLoad := (\<lambda>moduleManager builder. no_effect)\<rparr>"

datatype script = TestCommandJs | TestJs | CommandAdapterJs

primrec script_class :: "('m, 'b) java_types \<Rightarrow> script \<Rightarrow> ('m, 'b) js_class" where
  "script_class java TestCommandJs = TestModule_cmd_class (java BaseJavaScriptModule_type)"
| "script_class java TestJs = TestModule_test_class (java BaseJavaScriptModule_type)"
| "script_class java CommandAdapterJs = CommandAdapterModule_class (java BaseJsModule_type)"

primrec eval_script ::
  "('m, 'b) java_types \<Rightarrow> script \<Rightarrow> ('m, 'b) globals \<Rightarrow> ('m, 'b) globals" where
  "eval_script java TestCommandJs g =
     g\<lparr>LOG := Some ''TestJSModule'',
       class_bound := (class_bound g)(TestModule_var \<mapsto> script_class java TestCommandJs),
       getModule_bound := Some TestModule_var\<rparr>"
| "eval_script java TestJs g =
     g\<lparr>LOG := Some ''JS TestModule'',
       class_bound := (class_bound g)(TestModule_var \<mapsto> script_class java TestJs),
       getModule_bound := Some TestModule_var\<rparr>"
| "eval_script java CommandAdapterJs g =
     g\<lparr>class_bound := (class_bound g)(CommandAdapterModule_var \<mapsto> script_class java CommandAdapterJs),
       getModule_bound := Some CommandAdapterModule_var\<rparr>"

definition eval_scripts ::
  "('m, 'b) java_types \<Rightarrow> script list \<Rightarrow> ('m, 'b) globals \<Rightarrow> ('m, 'b) globals" where
  "eval_scripts java ss g = fold (eval_script java) ss g"

section \<open>Calls into a scope\<close>

definition getModule :: "('m, 'b) globals \<Rightarrow> ('m, 'b) js_class option" where
  "getModule g = Option.bind (getModule_bound g) (class_bound g)"

primrec call_hook ::
  "('m, 'b) globals \<Rightarrow> ('m, 'b) js_class \<Rightarrow> ('m, 'b) lifecycle \<Rightarrow> trace \<Rightarrow> script_failure + trace" where
  "call_hook g c (Load moduleManager builder) tr = class_onLoad c moduleManager builder (LOG g) tr"
| "call_hook g c Unload tr = class_onUnload c (LOG g) tr"

section \<open>What each script is meant to be\<close>

text \<open>A module of \<open>Module_Host\<close> is a class whose hooks read no global and do not
  fail; \<open>module_class\<close> is that reading, and \<open>script_module\<close> the module a
  script has in its own theory, over the same base.\<close>

definition module_class :: "('m, 'b) js_module \<Rightarrow> ('m, 'b) js_class" where
  "module_class m =
     \<lparr>class_info = info m,
      class_onLoad = (\<lambda>moduleManager builder bound tr. Inr (onLoad m moduleManager builder tr)),
      class_onUnload = (\<lambda>bound tr. Inr (onUnload m tr))\<rparr>"

primrec script_module :: "(string \<Rightarrow> ('m, 'b) js_module) \<Rightarrow> script \<Rightarrow> ('m, 'b) js_module" where
  "script_module java TestCommandJs = getModule_cmd (java BaseJavaScriptModule_type)"
| "script_module java TestJs = getModule_test (java BaseJavaScriptModule_type)"
| "script_module java CommandAdapterJs = getModule_adapter (java BaseJsModule_type)"

primrec binds_LOG :: "script \<Rightarrow> string option" where
  "binds_LOG TestCommandJs = Some LOG_cmd"
| "binds_LOG TestJs = Some LOG_test"
| "binds_LOG CommandAdapterJs = None"

definition last_LOG :: "script list \<Rightarrow> string option" where
  "last_LOG ss = (case List.map_filter binds_LOG (rev ss) of [] \<Rightarrow> None | l # ls \<Rightarrow> Some l)"

section \<open>Facts\<close>

lemmas script_class_defs =
  TestModule_cmd_class_def TestModule_test_class_def CommandAdapterModule_class_def
  module_class_def LOG_info_def no_effect_def

lemma eval_script_LOG:
  "LOG (eval_script java s g) = (case binds_LOG s of None \<Rightarrow> LOG g | Some l \<Rightarrow> Some l)"
  by (cases s) (simp_all add: LOG_cmd_def LOG_test_def)

lemma eval_script_getModule [simp]:
  "getModule (eval_script java s g) = Some (script_class java s)"
  by (cases s) (simp_all add: getModule_def)

lemma eval_scripts_snoc [simp]:
  "eval_scripts java (ss @ [s]) g = eval_script java s (eval_scripts java ss g)"
  by (simp add: eval_scripts_def)

lemma eval_scripts_Nil [simp]: "eval_scripts java [] g = g"
  by (simp add: eval_scripts_def)

lemma last_LOG_snoc:
  "last_LOG (ss @ [s]) = (case binds_LOG s of None \<Rightarrow> last_LOG ss | Some l \<Rightarrow> Some l)"
  by (simp add: last_LOG_def List.map_filter_simps split: option.splits)

lemma eval_scripts_LOG: "LOG (eval_scripts java ss no_globals) = last_LOG ss"
proof (induction ss rule: rev_induct)
  case Nil
  show ?case by (simp add: no_globals_def last_LOG_def List.map_filter_simps)
next
  case (snoc s ss)
  then show ?case by (simp add: eval_script_LOG last_LOG_snoc split: option.splits)
qed

lemma eval_scripts_getModule:
  "getModule (eval_scripts java (ss @ [s]) g) = Some (script_class java s)"
  by simp

text \<open>With \<open>LOG\<close> bound to the logger of its own script, a class is the module of
  the script's theory.\<close>

lemma call_hook_own:
  assumes "LOG g = binds_LOG s \<or> binds_LOG s = None"
  shows "call_hook g (script_class (\<lambda>n. module_class (java n)) s) ev tr
    = Inr (hook (script_module java s) ev tr)"
  using assms
  by (cases s; cases ev)
    (auto simp: script_class_defs test_command_defs test_script_defs command_adapter_defs
      log_info_def split: option.splits)

lemma script_alone:
  "call_hook (eval_script (\<lambda>n. module_class (java n)) s no_globals)
      (script_class (\<lambda>n. module_class (java n)) s) ev tr
    = Inr (hook (script_module java s) ev tr)"
  by (simp add: call_hook_own eval_script_LOG split: option.splits)

lemma call_hook_cmd:
  "call_hook g (TestModule_cmd_class base) ev tr =
     (if is_Load ev then LOG_info ''TestJSCmd loaded !'' (LOG g) tr
      else class_onUnload base (LOG g) tr)"
  by (cases ev) (simp_all add: TestModule_cmd_class_def)

lemma call_hook_test:
  "call_hook g (TestModule_test_class base) ev tr =
     LOG_info (if is_Load ev then ''Module loaded !'' else ''Module unloaded !'') (LOG g) tr"
  by (cases ev) (simp_all add: TestModule_test_class_def)

text \<open>
  C27. The example scripts are only right in a scope of their own. Evaluated one
  after the other in one global scope, \<open>testCommand.js\<close> and \<open>test.js\<close> bind
  the same names, and a hook reads \<open>LOG\<close> when it runs: the module of
  \<open>testCommand.js\<close> then writes \<open>TestJSCmd loaded !\<close> to the logger
  \<open>JS TestModule\<close> of \<open>test.js\<close> (and on an unload does what its base does
  with that logger bound), in the other order the module of \<open>test.js\<close> writes
  its lines to the logger \<open>TestJSModule\<close>, and \<open>getModule()\<close> returns the
  module of whichever script came last. This holds whatever classes the scripts
  extend.
\<close>

theorem shared_scope_loggers:
  "call_hook (eval_scripts java [TestCommandJs, TestJs] no_globals) (script_class java TestCommandJs) ev tr
     = (if is_Load ev then Inr (tr @ [LogInfo ''JS TestModule'' ''TestJSCmd loaded !''])
        else class_onUnload (java BaseJavaScriptModule_type) (Some ''JS TestModule'') tr)
   \<and> call_hook (eval_scripts java [TestJs, TestCommandJs] no_globals) (script_class java TestJs) ev tr
     = Inr (tr @ [LogInfo ''TestJSModule'' (if is_Load ev then ''Module loaded !'' else ''Module unloaded !'')])
   \<and> getModule (eval_scripts java [TestCommandJs, TestJs] no_globals) = Some (script_class java TestJs)
   \<and> getModule (eval_scripts java [TestJs, TestCommandJs] no_globals)
     = Some (script_class java TestCommandJs)"
  by (simp add: call_hook_cmd call_hook_test eval_scripts_LOG last_LOG_def List.map_filter_simps
      LOG_cmd_def LOG_test_def LOG_info_def log_info_def)
    (simp add: eval_scripts_def getModule_def)

text \<open>Over a base class whose \<open>onUnload\<close> does nothing, the module of
  \<open>testCommand.js\<close> writes nothing on an unload, also in a shared scope.\<close>

lemma shared_scope_unload:
  "class_onUnload (java BaseJavaScriptModule_type) = no_effect \<Longrightarrow>
   call_hook (eval_scripts java [TestCommandJs, TestJs] no_globals) (script_class java TestCommandJs)
     Unload tr = Inr tr"
  by (simp add: TestModule_cmd_class_def no_effect_def)

text \<open>A hook that reads \<open>LOG\<close> in a scope where no script has bound it fails:
  after the adapter alone, which binds no logger, a module of \<open>test.js\<close> could
  not log.\<close>

lemma adapter_first_fails:
  "call_hook (eval_scripts java [CommandAdapterJs] no_globals) (script_class java TestJs) ev tr
     = Inl (ReferenceError ''LOG'')"
  by (simp add: call_hook_test eval_scripts_LOG last_LOG_def List.map_filter_simps LOG_info_def)

end
