(* ===== verification/Spec2Isabelle.thy ===== *)
theory Spec2Isabelle
  imports Prelude Access_Level Tokenizer Argument Options Command Dispatcher
    Dispatch_Machine Module_Host Async_Action Spec_Scenarios Script_Header Test_Command Main_Script
    Main_Class Main_Interleaving Main_Console Promise_Chain Test_Script
    Command_Adapter Script_Scope
begin

text \<open>
  \<^bold>\<open>The program.\<close> ModularBot is a chat bot assembled from modules; this
  repository holds its scripting examples and the resource script of its command
  support. The scripts under \<open>src/\<close> declare modules (an info record and the
  hooks \<open>onLoad\<close>, \<open>onUnload\<close>), declare commands (\<open>testjs\<close> with two
  patterns and a flag, the quick command \<open>yolo\<close>), and listen to asynchronous
  results. They run against the bot's command engine, which is a library of the
  bot and not a file of \<open>src/\<close>: it tokenizes a message, finds the command for
  its first token, checks the sender's access level, takes the flags out, selects
  the first pattern that accepts the remaining tokens and calls its handler.

  \<^bold>\<open>The theories.\<close>
  \<^item> \<open>Prelude\<close>: the fact collections, ASCII case folding, comparison ignoring
    case, whitespace, shared list facts.
  \<^item> \<open>Access_Level\<close>: the levels as a linear order and the gate \<open>allow\<close>.
  \<^item> \<open>Tokenizer\<close>: the scanner \<open>lex\<close> (states outside, in a word, in a quoted
    token), \<open>tokenize\<close>, and the reference \<open>split_ws\<close> it agrees with.
  \<^item> \<open>Argument\<close>: the matchers \<open>ForString\<close>, \<open>STRING\<close>, \<open>INTEGER\<close>,
    \<open>USER\<close> and \<open>Predicate\<close>, the values they parse, \<open>match_args\<close> over a
    token list, and the decimal printer and reader with their round trip.
  \<^item> \<open>Options\<close>: flags, their markers and the resolver \<open>resolve\<close>.
  \<^item> \<open>Command\<close>: events, handlers, patterns, commands, and \<open>select_pattern\<close>.
  \<^item> \<open>Dispatcher\<close>: the alias table with \<open>lookup\<close>, \<open>register\<close>,
    \<open>register_all\<close>, quick commands, and \<open>dispatch\<close> with its four outcomes.
  \<^item> \<open>Dispatch_Machine\<close>: one dispatch as the state machine of the design
    (\<open>Received\<close>, \<open>AliasResolved\<close>, \<open>AccessChecked\<close>, \<open>OptionsResolved\<close>,
    \<open>PatternMatched\<close>, \<open>HandlerInvoked\<close>, \<open>Completed\<close>): the step relation
    \<open>dispatch_step\<close>, its function \<open>next_state\<close>, the run \<open>run_to_end\<close>, the
    states passed \<open>dispatch_trace\<close> and the invariant \<open>state_inv\<close>.
  \<^item> \<open>Module_Host\<close>: module info, a module as the record of its info and its
    hooks \<open>onLoad(moduleManager, builder)\<close> and \<open>onUnload()\<close>, the trace of
    emitted lines and the lifecycle run.
  \<^item> \<open>Async_Action\<close>: the pending, resolved or rejected action with its
    continuation lists, its four operations, the step function and its runs.
  \<^item> \<open>Spec_Scenarios\<close>: the scenarios the design of the engine gives as its
    tests, proved of the engine theories for an arbitrary handler.
  \<^item> \<open>Script_Header\<close>: \<open>example/scripts/_script_header.js\<close>, the class
    names it binds and the packages of its two importers, as data.
  \<^item> \<open>Test_Command\<close>, \<open>Main_Script\<close>, \<open>Test_Script\<close>,
    \<open>Command_Adapter\<close>: one theory per script of \<open>src/\<close>
    (\<open>example/scripts/testCommand.js\<close>, \<open>example/main.js\<close>,
    \<open>example/scripts/test.js\<close>,
    \<open>ModularBot-NashornCommandSupport/src/main/resources/commandAdapter.js\<close>),
    each constant the script's constant of the same name, translated line by line.
  \<^item> \<open>Main_Class\<close>: the class of \<open>example/main.js\<close> as an object in use:
    the calls a host makes on it (\<open>main_call\<close>), their effect on the command
    modules, the console and the promises (\<open>call_step\<close>, \<open>run_calls\<close>),
    written over a record of promise operations that is instantiated with the
    script's listeners (\<open>main_ops\<close>) and with their specification
    (\<open>view_ops\<close>).
  \<^item> \<open>Main_Interleaving\<close>: runs of that object that differ in the place of a
    listener call, compared by \<open>same_output\<close> (the console as a multiset).
  \<^item> \<open>Main_Console\<close>: the console after a run in closed form: the line each
    call is owed (\<open>line_for\<close>), the view of a promise after a run
    (\<open>view_after\<close>) and what one more call prints (\<open>step_lines\<close>).
  \<^item> \<open>Promise_Chain\<close>: the listeners of \<open>example/main.js\<close> once more, with
    \<open>.then\<close> returning a new promise and \<open>.catch\<close> registering on it
    (\<open>then_chain\<close>, \<open>catch_chain\<close>, \<open>chain_ops\<close>), and the simulation of
    the same specification.
  \<^item> \<open>Script_Scope\<close>: the globals the scripts bind (\<open>LOG\<close>,
    \<open>TestModule\<close>, \<open>getModule\<close>) in a scope that is a value, with hooks that
    read \<open>LOG\<close> when they are called.
  \<^item> this theory: the example bot that loads \<open>main.js\<close> and \<open>testCommand.js\<close>
    together, and what it answers to every message.

  \<^bold>\<open>How the model corresponds to the code.\<close> A script's object literal is a
  record value (\<open>testJSCommand\<close>), a handler a function from the event, the
  parsed values and the active flags to the replies it sends
  (\<open>event.fastReply\<close>) or the error it raises (a read past the end of
  \<open>args\<close>). A Java array is a list of optional slots. \<open>Java.extend(Base, {...})\<close>
  is a record update of the base module, and the base is an argument: the classes
  \<open>BaseJavaScriptModule\<close> and \<open>BaseJsModule\<close> are Java classes outside
  \<open>src/\<close>, their hooks are described nowhere, and so \<open>TestModule_cmd\<close>,
  \<open>TestModule_test\<close> and \<open>CommandAdapterModule\<close> are functions of the base
  they extend. A statement that needs something of the base says so as a
  hypothesis. In the same way \<open>Java.type\<close> is a parameter (\<open>java\<close> in
  \<open>Script_Scope\<close>), and the names a \<open>with\<close> block resolves are read as the
  engine's classes of those names without a model of the lookup.

  The engine's definitions follow the design document of the engine section by
  section; where it leaves a choice open the choice made is written down in the
  theory that makes it: a double quote opens a token only at the start of a token,
  an unclosed quote runs to the end of the input, a flag marker is \<open>--name\<close> or
  \<open>-letter\<close> compared exactly (for \<open>FORCE\<close>: \<open>--force\<close> and \<open>-f\<close>), an
  empty message is \<open>Unknown\<close>, a settle of a settled action is ignored, an empty
  array slot is a registration error, the \<open>USER\<close> matcher carries the user
  directory it resolves a token with, and a predicate matcher yields the token it
  accepts.

  \<open>.then\<close> and \<open>.catch\<close> are read twice. \<open>Main_Script\<close> follows the design:
  they register a success and a failure continuation on the same action. In the
  code \<open>.catch\<close> is called on what \<open>.then\<close> returns, which for a promise of
  JavaScript is a new promise; \<open>Promise_Chain\<close> models that, and proves that
  the console is the same under both readings. Continuations fire when the promise
  is settled, in the order of registration; the callbacks of \<open>main.js\<close> do not
  throw.

  The host of \<open>main.js\<close> is not under \<open>src/\<close>. \<open>Main_Class\<close> gives it the
  calls the class offers and the two settles of a promise, in any order and number.
  A construction is \<open>new TestModule(commandModule)\<close> on one of the host's
  command modules: it registers \<open>yolo\<close> there, or the registration throws, the
  error is recorded in \<open>thrown\<close> and the command module stays as it was, as
  \<open>register\<close> leaves it. The theories of the scripts read each script in a
  global scope of its own, where \<open>LOG\<close> is the logger the script creates;
  \<open>Script_Scope\<close> drops that assumption and evaluates scripts into a shared
  scope.

  \<^bold>\<open>What is proved.\<close> Per engine component: the characteristic equations of
  each operation, on every branch; the scanner against its reference and the shape
  of its tokens, the normal form of a text without quotes (its tokens written with
  single spaces); the round trip of the decimal printer; that resolving flags is
  idempotent and blind to the position of a marker; the first-match law of pattern
  selection and its totality in the presence of a catch-all; that a well-formed
  table maps an alias to one command, that registration keeps tables well-formed
  and that lookups do not depend on registration order; that a settled action holds
  no continuation (an invariant of every reachable action) and that a run fires the
  continuations of the settling kind once each in registration order. For the
  state machine: the step relation is the transition function (determinism), every
  step raises the phase (so a run has at most six steps and ends in
  \<open>Completed\<close>), \<open>dispatch\<close> is the machine run to its end (refinement), and
  \<open>state_inv\<close> holds in every state a run reaches (rule induction), from which
  it follows that the gate is passed before any flag, pattern or handler is
  touched. Per script: the complete function from message to reply of \<open>testjs\<close>
  and of \<open>yolo\<close>, the absence of handler errors, the behaviour on padded,
  capitalised and quoted input, what the listeners print, what each module writes
  over any lifecycle and any base (the adapter is its base without the loads), and
  that a reply is at most five characters longer than its message (from
  \<open>tokenize_cost\<close>: every token is paid for by characters of the input). For
  the object of \<open>main.js\<close>: its listeners simulate their specification
  (\<open>run_calls_sim\<close>, proved once for any two records of operations), and so do
  the listeners on chained promises, so both print the same; the invariant of
  the object holds after every run; a listener attached by \<open>acceptPromise\<close>
  gets to print the first settle of its promise in every interleaving of calls and
  settles; moving a listener call within a run changes only the order of the lines
  on the console (a listener call commutes with every call up to
  \<open>same_output\<close>); and the console holds exactly the lines its calls are owed,
  each once per call (\<open>console_exactly_once\<close>, by following a run from its
  end). For the scripts together: in a scope of its own each script's class is the
  module of its theory (\<open>call_hook_own\<close>), and in a shared scope the hooks log
  under the logger of the script evaluated last.

  \<^bold>\<open>Bounds and termination.\<close> No definition uses fuel. \<open>split_ws\<close> and
  \<open>show_nat\<close> recurse on a shrinking list and number and are proved total;
  \<open>run_to_end\<close> and \<open>dispatch_trace\<close> follow \<open>next_state\<close> and are proved
  total by the measure \<open>6 - phase\<close>, six being the phase of \<open>Completed\<close>; all
  other recursion is structural. Integers are unbounded: the engine's integer
  matcher is not given a width by its design and no script under \<open>src/\<close> uses it.
  The promises and the command modules of the host are indexed by natural numbers,
  so a run may use any number of them.

  \<^bold>\<open>Not modelled.\<close> The loading of Java classes behind \<open>Java.type\<close> and
  \<open>Java.extend\<close> and the lookup of a name through the importers of a \<open>with\<close>
  block (a class name is data, the class behind it a parameter), the hooks of the
  Java base classes (an argument of every module), the transport that delivers a
  reply, what the module manager and the builder passed to \<open>onLoad\<close> can do
  (they are values of a type parameter, and no script under \<open>src/\<close> reads them),
  the chat service's user directory (a parameter of the \<open>USER\<close> matcher),
  matchers that consume more than one token (the design allows them and names
  none), Unicode case folding beyond ASCII, callbacks that throw, the scheduling
  of promise reactions as separate jobs, and true concurrency of settles (a run
  here is one interleaving). Of \<open>src/\<close>, the \<open>with\<close> lines, blank lines and
  closing braces have no definition.

  \<^bold>\<open>Open ends.\<close> A reply is a list of texts here; the design has \<open>reply\<close>
  return an action of its own, whose rejection is the failure of the handler. No
  script under \<open>src/\<close> looks at what a reply returns: the handlers of
  \<open>testjs\<close> drop it (their bodies return nothing, where the design has a
  handler return an action) and the handler of \<open>yolo\<close> passes it on unread, so
  \<open>Command\<close> and \<open>Async_Action\<close> meet only in the object of \<open>main.js\<close>,
  whose promises are settled from outside. The markers of \<open>Option.FORCE\<close> are
  fixed by neither the code nor the design; every statement about flags is about
  the two markers chosen here.
\<close>

section \<open>The example bot\<close>

definition example_bot :: "registration_error + registry" where
  "example_bot =
     (case TestModule_main [] of
        Inl e \<Rightarrow> Inl e
      | Inr reg \<Rightarrow> register_all getCommands reg)"

definition example_registry :: registry where
  "example_registry = [quick_command ''yolo'' yolo_action, testJSCommand]"

definition example_reply :: "string \<Rightarrow> dispatch_outcome" where
  "example_reply text =
     (case tokenize text of
        [] \<Rightarrow> Unknown
      | a # ts \<Rightarrow>
          if eq_ci a ''yolo'' then Invoked (Inr [''YOLO !''])
          else if eq_ci a ''testjs'' then Invoked (Inr [testjs_reply ts])
          else Unknown)"

lemma not_yolo_testjs: "\<not> eq_ci ''yolo'' ''testjs''"
  by (simp add: string_eval)

lemma wf_example_registry: "wf_registry example_registry"
proof -
  have "register_all getCommands [quick_command ''yolo'' yolo_action] = Inr example_registry"
    by (simp add: getCommands_array register_def example_registry_def not_yolo_testjs
        split: sum.splits)
  with wf_registry_single [OF wf_quick_command] show ?thesis
    by (rule register_all_wf)
qed

lemma lookup_example_registry:
  "lookup example_registry a =
    (if eq_ci a ''yolo'' then Some (quick_command ''yolo'' yolo_action)
     else if eq_ci a ''testjs'' then Some testJSCommand else None)"
  by (auto simp: example_registry_def lookup_Cons dest: eq_ci_sym)

lemma dispatch_example_registry:
  "dispatch example_registry text who =
     (case tokenize text of
        [] \<Rightarrow> Unknown
      | a # ts \<Rightarrow>
          if eq_ci a ''yolo'' then Invoked (yolo_action \<lparr>raw = text, author = who\<rparr>)
          else if eq_ci a ''testjs'' then Invoked (Inr [testjs_reply ts])
          else Unknown)"
  by (simp add: dispatch_def lookup_example_registry run_testJSCommand split: list.splits)

lemmas example_eval = dispatch_example_registry example_reply_def yolo_action_def fastReply_def

lemma testjs_restricted_denied:
  assumes "\<not> allow req (level who)"
  shows "dispatch [testJSCommand\<lparr>accessLevel := req\<rparr>] ''testjs add bob'' who = AccessDenied"
proof -
  have "has_alias (testJSCommand\<lparr>accessLevel := req\<rparr>) ''testjs''"
    by (simp add: has_alias_def eq_ci_refl)
  with assms show ?thesis
    by (simp add: dispatch_tokens [OF tokenize_testjs_add_bob] lookup_single
        run_command_accessLevel)
qed

text \<open>
  C5. The bot that loads \<open>main.js\<close> and \<open>testCommand.js\<close> answers every
  message as \<open>example_reply\<close> says, for every sender: \<open>YOLO !\<close> when the
  first token is \<open>yolo\<close>, the reply of \<open>testjs\<close> when it is \<open>testjs\<close>
  (both in any mix of capitals), and nothing (\<open>Unknown\<close>) for every other
  message, the empty one included. No message is denied and none is left without a
  pattern.
\<close>

theorem bot_routes: "dispatch example_registry text who = example_reply text"
  by (simp add: example_eval split: list.splits)

text \<open>The table of the example bot is what loading the two scripts into an empty
  command module gives: the constructor of \<open>main.js\<close> registers \<open>yolo\<close>, and
  registering what \<open>getCommands()\<close> returns adds \<open>testjs\<close>.\<close>

lemma bot_boot: "example_bot = Inr example_registry \<and> wf_registry example_registry"
proof -
  have "TestModule_main [] = Inr [quick_command ''yolo'' yolo_action]"
    by (simp add: TestModule_main_cases)
  moreover have "register_all getCommands [quick_command ''yolo'' yolo_action] = Inr example_registry"
    by (simp add: getCommands_array register_def example_registry_def not_yolo_testjs
        split: sum.splits)
  ultimately show ?thesis
    by (simp add: example_bot_def wf_example_registry)
qed

text \<open>
  C15. The order in which the two scripts are loaded does not matter to any
  sender: with \<open>testjs\<close> registered before \<open>yolo\<close> the bot gives the same
  outcome for every message as with \<open>yolo\<close> registered first.
\<close>

theorem bot_order:
  "dispatch [testJSCommand, quick_command ''yolo'' yolo_action] text who
     = dispatch example_registry text who"
proof -
  have "register (quick_command ''yolo'' yolo_action) [testJSCommand]
      = Inr [testJSCommand, quick_command ''yolo'' yolo_action]"
    by (simp add: register_def) (simp add: string_eval)
  with wf_registry_testjs have "wf_registry [testJSCommand, quick_command ''yolo'' yolo_action]"
    by (rule register_wf)
  then show ?thesis
    using wf_example_registry
    by (rule dispatch_order_independent) (auto simp: example_registry_def)
qed

section \<open>What the bot answers, and to whom\<close>

text \<open>
  C18. The bot answers at most once, and never with much more than it was sent:
  when a handler runs there is exactly one reply, and it is at most five
  characters longer than the message (\<open>testjs add w\<close>, fourteen characters for a
  \<open>w\<close> of three, is answered in nineteen).
\<close>

theorem bot_reply_size:
  assumes "dispatch example_registry text who = Invoked (Inr rs)"
  shows "length rs = 1 \<and> (\<forall>r \<in> set rs. length r \<le> length text + 5)"
proof (cases "tokenize text")
  case Nil
  with assms show ?thesis by (simp add: dispatch_no_token)
next
  case (Cons a ts)
  with tokenize_cost [of "text"] have c: "length a + (\<Sum>t\<leftarrow>ts. Suc (length t)) \<le> length text"
    by simp
  from assms Cons have "(eq_ci a ''yolo'' \<and> rs = [''YOLO !''])
      \<or> (eq_ci a ''testjs'' \<and> rs = [testjs_reply ts])"
    by (auto simp: example_eval split: if_splits)
  with c testjs_reply_size [of ts] show ?thesis
    by (auto dest: eq_ci_length)
qed

theorem bot_reply_size_witness:
  "dispatch example_registry ''testjs add bob'' \<lparr>identity = ''bob'', level = EVERYONE\<rparr>
     = Invoked (Inr [''You wan to add: bob''])
   \<and> length ''You wan to add: bob'' = length ''testjs add bob'' + 5"
proof -
  have d: "dispatch example_registry ''testjs add bob'' \<lparr>identity = ''bob'', level = EVERYONE\<rparr>
     = Invoked (Inr [''You wan to add: bob''])"
    by (simp add: dispatch_example_registry tokenize_testjs_add_bob testjs_eval)
  show ?thesis
    using d bot_reply_size [OF d] by simp
qed

text \<open>
  C16. The gate comes before everything else a command does. Were \<open>testjs\<close>
  declared with a level the sender does not have, no run of the machine for that
  sender would get past the resolution of the alias: no flag is taken out, no
  pattern is tried, no handler is called, and the run ends in \<open>AccessDenied\<close>
  (or in \<open>Unknown\<close> when the message names no command).
\<close>

theorem testjs_refused:
  assumes "\<not> allow req (level who)"
    and "rtranclp (dispatch_step [testJSCommand\<lparr>accessLevel := req\<rparr>]) (Received text who) s"
  shows "phase s \<le> 1 \<or> s = Completed Unknown \<or> s = Completed AccessDenied"
  using refused_stops [OF assms(2)] assms(1) by simp

theorem testjs_refused_witness:
  "\<not> allow ADMIN (level \<lparr>identity = ''bob'', level = EVERYONE\<rparr>)
   \<and> rtranclp (dispatch_step [testJSCommand\<lparr>accessLevel := ADMIN\<rparr>])
       (Received ''testjs add bob'' \<lparr>identity = ''bob'', level = EVERYONE\<rparr>)
       (Completed AccessDenied)"
proof -
  have d: "\<not> allow ADMIN (level \<lparr>identity = ''bob'', level = EVERYONE\<rparr>)"
    by (simp add: allow_def access_level_ord)
  from testjs_restricted_denied [OF d]
  have r: "rtranclp (dispatch_step [testJSCommand\<lparr>accessLevel := ADMIN\<rparr>])
       (Received ''testjs add bob'' \<lparr>identity = ''bob'', level = EVERYONE\<rparr>)
       (Completed AccessDenied)"
    by (simp add: reaches_Completed_iff)
  show ?thesis
    using d r testjs_refused [OF d r] by simp
qed

text \<open>
  C28. The bot reads a message by its words: a message without a double quote is
  answered as the message made of its tokens with one space after each, so leading
  whitespace, runs of whitespace and tabs or line breaks between the words make no
  difference to what any sender is answered.
\<close>

theorem bot_whitespace:
  assumes "dquote \<notin> set text"
  shows "dispatch example_registry (unwords (tokenize text)) who = dispatch example_registry text who"
  using tokenize_normal [OF assms] by (simp add: example_eval split: list.splits)

theorem bot_whitespace_witness:
  "dispatch example_registry ''testjs add bob '' \<lparr>identity = ''bob'', level = EVERYONE\<rparr>
     = dispatch example_registry ''  testjs   add bob'' \<lparr>identity = ''bob'', level = EVERYONE\<rparr>"
proof -
  have "tokenize ''  testjs   add bob'' = [''testjs'', ''add'', ''bob'']"
    by (simp add: tokenize_def string_eval)
  then have "unwords (tokenize ''  testjs   add bob'') = ''testjs add bob ''"
    by (simp add: unwords_def)
  with bot_whitespace [of "''  testjs   add bob''" "\<lparr>identity = ''bob'', level = EVERYONE\<rparr>"]
  show ?thesis by (simp add: dquote_def)
qed

end
